(* ===== verification/Prelude.thy ===== *)
theory Prelude
  imports Main "HOL-Library.Word"
begin

unbundle bit_operations_syntax

text \<open>
  Shared vocabulary of the development: bytes, the result of a Go function
  (a value, an \<open>error\<close>, or a run-time panic), Go slicing with its capacity rule, the
  conversion between Go strings and byte slices, the locale of byte codecs, and the
  collections of simplification rules the component theories use.
\<close>

section \<open>Rule collections\<close>

named_theorems go_simps "unfolding of the result type's combinators"
named_theorems go_consts "the numeric constants of the package types"
named_theorems byte_simps "length and take/drop facts about encoded bytes"

section \<open>Bytes and results\<close>

type_synonym byte = "8 word"
type_synonym bytes = "byte list"
type_synonym u64 = "64 word"

text \<open>
  \<open>errors.New(s)\<close> is \<open>GoError s []\<close>; \<open>fmt.Errorf\<close> keeps the formatted numbers; an error
  that a library outside the repository returns is \<open>LibError\<close>.
\<close>

datatype go_error = GoError string "int list" | LibError string

text \<open>
  What a call of a Go function yields: its value with a nil error, a non-nil error, or a
  panic (index out of range, nil dereference, failed type assertion).
\<close>

datatype 'a outcome = Ok 'a | Err go_error | Panic

definition obind :: "'a outcome \<Rightarrow> ('a \<Rightarrow> 'b outcome) \<Rightarrow> 'b outcome" where
  "obind m f = (case m of Ok a \<Rightarrow> f a | Err e \<Rightarrow> Err e | Panic \<Rightarrow> Panic)"

lemma obind_simps [simp, go_simps]:
  "obind (Ok a) f = f a" "obind (Err e) f = Err e" "obind Panic f = Panic"
  by (simp_all add: obind_def)

lemma obind_eq_Ok: "obind m f = Ok b \<longleftrightarrow> (\<exists>a. m = Ok a \<and> f a = Ok b)"
  by (cases m) auto

lemma obind_eq_Err: "obind m f = Err e \<longleftrightarrow> m = Err e \<or> (\<exists>a. m = Ok a \<and> f a = Err e)"
  by (cases m) auto

lemma obind_eq_Panic: "obind m f = Panic \<longleftrightarrow> m = Panic \<or> (\<exists>a. m = Ok a \<and> f a = Panic)"
  by (cases m) auto

lemmas obind_iffs = obind_eq_Ok obind_eq_Err obind_eq_Panic

lemma obind_assoc [simp]: "obind (obind m f) g = obind m (\<lambda>x. obind (f x) g)"
  by (cases m) auto

text \<open>
  A call that also changes state returns its outcome with the state it left behind; an
  error or a panic keeps the changes made before it.
\<close>

definition sbind :: "'a outcome \<times> 's \<Rightarrow> ('a \<Rightarrow> 's \<Rightarrow> 'b outcome \<times> 's) \<Rightarrow> 'b outcome \<times> 's" where
  "sbind m f = (case m of (Ok a, s) \<Rightarrow> f a s | (Err e, s) \<Rightarrow> (Err e, s) | (Panic, s) \<Rightarrow> (Panic, s))"

lemma sbind_simps [simp, go_simps]:
  "sbind (Ok a, s) f = f a s" "sbind (Err e, s) f = (Err e, s)" "sbind (Panic, s) f = (Panic, s)"
  by (simp_all add: sbind_def)

lemma sbind_eq_Ok:
  "sbind m f = (Ok b, t) \<longleftrightarrow> (\<exists>a s. m = (Ok a, s) \<and> f a s = (Ok b, t))"
  by (cases m; cases "fst m") auto

section \<open>Indexing and slicing\<close>

text \<open>
  \<open>xs[i]\<close> panics when \<open>i\<close> is not below \<open>len(xs)\<close>. \<open>xs[lo:hi]\<close> is checked against the
  capacity, not the length: a slice that is shorter than \<open>hi\<close> but has room behind it in its
  backing array yields the bytes that happen to be there. The argument \<open>spare\<close> is the part
  of the backing array beyond the slice. \<open>xs[lo:]\<close> is checked against the length.
\<close>

definition go_index :: "'a list \<Rightarrow> nat \<Rightarrow> 'a outcome" where
  "go_index xs i = (if i < length xs then Ok (xs ! i) else Panic)"

definition go_slice :: "'a list \<Rightarrow> 'a list \<Rightarrow> nat \<Rightarrow> nat \<Rightarrow> 'a list outcome" where
  "go_slice spare xs lo hi =
     (if lo \<le> hi \<and> hi \<le> length xs + length spare
      then Ok (take (hi - lo) (drop lo (xs @ spare))) else Panic)"

definition go_from :: "'a list \<Rightarrow> nat \<Rightarrow> 'a list outcome" where
  "go_from xs lo = (if lo \<le> length xs then Ok (drop lo xs) else Panic)"

lemma go_slice_within:
  "lo \<le> hi \<Longrightarrow> hi \<le> length xs \<Longrightarrow> go_slice spare xs lo hi = Ok (take (hi - lo) (drop lo xs))"
  by (simp add: go_slice_def)

lemma go_index_within [simp]: "i < length xs \<Longrightarrow> go_index xs i = Ok (xs ! i)"
  by (simp add: go_index_def)

lemma go_from_within [simp]: "lo \<le> length xs \<Longrightarrow> go_from xs lo = Ok (drop lo xs)"
  by (simp add: go_from_def)

lemma go_slice_Ok_length: "go_slice spare xs lo hi = Ok ys \<Longrightarrow> length ys = hi - lo"
  by (auto simp: go_slice_def split: if_splits)

lemma take_drop_append3:
  "length a = i \<Longrightarrow> length b = n \<Longrightarrow> take n (drop i (a @ b @ c)) = b"
  by simp

lemma drop_append3:
  "length a = i \<Longrightarrow> length b = n \<Longrightarrow> drop (i + n) (a @ b @ c) = c"
  by simp

lemma drop_prefix: "length p = n \<Longrightarrow> drop n (p @ s) = s"
  by simp

lemma drop_split: "i + n = j \<Longrightarrow> drop i xs = take n (drop i xs) @ drop j xs"
  by (metis append_take_drop_id drop_drop add.commute)

section \<open>Strings\<close>

text \<open>A Go string is a byte sequence; \<open>[]byte(s)\<close> and \<open>string(b)\<close> copy the bytes.\<close>

definition byte_of_char :: "char \<Rightarrow> byte" where
  "byte_of_char c = word_of_nat (of_char c)"

definition char_of_byte :: "byte \<Rightarrow> char" where
  "char_of_byte b = char_of (unat b)"

definition bytes_of_string :: "string \<Rightarrow> bytes" where
  "bytes_of_string s = map byte_of_char s"

definition string_of_bytes :: "bytes \<Rightarrow> string" where
  "string_of_bytes bs = map char_of_byte bs"

lemma of_char_lt_256: "(of_char c :: nat) < 256"
  by (metis char_of_nat of_char_of nat_of_char_less_256)

lemma char_of_byte_of_char [simp]: "char_of_byte (byte_of_char c) = c"
proof -
  have "unat (word_of_nat (of_char c) :: byte) = of_char c"
    using of_char_lt_256 [of c] by (simp add: unat_of_nat)
  then show ?thesis by (simp add: char_of_byte_def byte_of_char_def)
qed

lemma byte_of_char_of_byte [simp]: "byte_of_char (char_of_byte b) = b"
proof -
  have "unat b < 256" using unsigned_less [of b, where 'a = nat] by simp
  then show ?thesis
    by (simp add: char_of_byte_def byte_of_char_def of_char_of)
qed

lemma string_bytes_inverse [simp]:
  "string_of_bytes (bytes_of_string s) = s" "bytes_of_string (string_of_bytes b) = b"
  by (simp_all add: string_of_bytes_def bytes_of_string_def comp_def)

lemma length_string_bytes [simp]:
  "length (bytes_of_string s) = length s" "length (string_of_bytes b) = length b"
  by (simp_all add: string_of_bytes_def bytes_of_string_def)

lemma string_bytes_inject [simp]:
  "string_of_bytes x = string_of_bytes y \<longleftrightarrow> x = y" "bytes_of_string s = bytes_of_string t \<longleftrightarrow> s = t"
  by (metis string_bytes_inverse)+

section \<open>Byte codecs\<close>

text \<open>
  The contract every encoder/decoder pair of the repository is meant to keep: a valid value
  is recovered from its encoding. Clients use that valid values have distinct encodings and
  that decoding an encoding never errs.
\<close>

locale byte_codec =
  fixes enc :: "'a \<Rightarrow> 'b list"
    and dec :: "'b list \<Rightarrow> 'a outcome"
    and valid :: "'a \<Rightarrow> bool"
  assumes dec_enc: "valid x \<Longrightarrow> dec (enc x) = Ok x"
begin

lemma enc_inj: "valid x \<Longrightarrow> valid y \<Longrightarrow> enc x = enc y \<longleftrightarrow> x = y"
  by (metis dec_enc outcome.inject(1))

lemma enc_inj_on: "inj_on enc {x. valid x}"
  by (rule inj_onI) (simp add: enc_inj)

lemma dec_enc_no_fault: "valid x \<Longrightarrow> dec (enc x) \<noteq> Panic \<and> dec (enc x) \<noteq> Err e"
  by (simp add: dec_enc)

end

end
