(* ===== verification/Endian.thy ===== *)
theory Endian
  imports Prelude
begin

text \<open>
  \<open>utils/endian.go\<close> and \<open>utils/bytes.go\<close>: little-endian integers of a given length, byte
  concatenation, and the four-byte hash code. Lemmas: the value of a decoded sequence modulo
  \<open>2 ^ 64\<close>, the round trips in both directions, and that bytes beyond the eighth are ignored.
\<close>

section \<open>Little-endian integers\<close>

text \<open>
  The loop of \<open>EncodeEndian\<close> writes \<open>byte(value & 0xff)\<close> and shifts; the length argument
  counts the iterations left.
\<close>

primrec EncodeEndian :: "u64 \<Rightarrow> nat \<Rightarrow> bytes" where
  "EncodeEndian value 0 = []"
| "EncodeEndian value (Suc n) = ucast (value AND 0xff) # EncodeEndian (drop_bit 8 value) n"

text \<open>The loop of \<open>DecodeEndian\<close> with its two accumulators, both \<open>uint64\<close>.\<close>

primrec DecodeEndian_loop :: "bytes \<Rightarrow> u64 \<Rightarrow> u64 \<Rightarrow> u64" where
  "DecodeEndian_loop [] tot multiplier = tot"
| "DecodeEndian_loop (b # bs) tot multiplier =
     DecodeEndian_loop bs (tot + ucast b * multiplier) (multiplier * 256)"

definition DecodeEndian :: "bytes \<Rightarrow> u64" where
  "DecodeEndian bs = DecodeEndian_loop bs 0 1"

definition ConcatBytes :: "bytes list \<Rightarrow> bytes" where
  "ConcatBytes slices = concat slices"

definition HashCode :: "bytes \<Rightarrow> int" where
  "HashCode bs =
     (if length bs < 4 then 0
      else uint (bs ! 0) OR push_bit 8 (uint (bs ! 1)) OR push_bit 16 (uint (bs ! 2))
        OR push_bit 24 (uint (bs ! 3)))"

section \<open>The value of a byte sequence\<close>

primrec le_value :: "bytes \<Rightarrow> nat" where
  "le_value [] = 0"
| "le_value (b # bs) = unat b + 256 * le_value bs"

lemma le_value_append: "le_value (xs @ ys) = le_value xs + 256 ^ length xs * le_value ys"
  by (induction xs) (simp_all add: algebra_simps)

lemma le_value_bound: "le_value bs < 256 ^ length bs"
proof (induction bs)
  case (Cons b bs)
  have "unat b < 256" using unsigned_less [of b, where 'a = nat] by simp
  with Cons show ?case by (simp add: algebra_simps)
qed simp

lemma base_256_unique:
  "a + 256 * c = b + 256 * d \<Longrightarrow> a < 256 \<Longrightarrow> b < 256 \<Longrightarrow> a = b \<and> c = (d :: nat)"
  by (cases c d rule: linorder_cases) linarith+

lemma le_value_inj: "length xs = length ys \<Longrightarrow> le_value xs = le_value ys \<Longrightarrow> xs = ys"
proof (induction xs ys rule: list_induct2)
  case (Cons x xs y ys)
  have "unat x = unat y \<and> le_value xs = le_value ys"
    using Cons.prems unsigned_less [of x, where 'a = nat] unsigned_less [of y, where 'a = nat]
    by (intro base_256_unique) simp_all
  with Cons.IH show ?case by (simp add: unsigned_word_eqI)
qed simp

lemma DecodeEndian_loop_value:
  "DecodeEndian_loop bs t m = t + m * word_of_nat (le_value bs)"
proof (induction bs arbitrary: t m)
  case (Cons b bs)
  have "(ucast b :: u64) = word_of_nat (unat b)" by simp
  with Cons show ?case by (simp add: algebra_simps)
qed simp

lemma DecodeEndian_value: "DecodeEndian bs = word_of_nat (le_value bs)"
  by (simp add: DecodeEndian_def DecodeEndian_loop_value)

lemma length_EncodeEndian [simp, byte_simps]: "length (EncodeEndian v n) = n"
  by (induction n arbitrary: v) simp_all

lemma unat_low_byte: "unat (ucast (v AND 0xff) :: byte) = unat (v :: u64) mod 256"
proof -
  have "unat (ucast (v AND 0xff) :: byte) = take_bit 8 (unat v AND 255)"
    by (simp add: unsigned_ucast_eq unsigned_and_eq)
  also have "\<dots> = take_bit 8 (unat v)"
    by (simp add: take_bit_and take_bit_eq_mask mask_eq_exp_minus_1 and.assoc)
  finally show ?thesis by (simp add: take_bit_eq_mod)
qed

lemma unat_shift_byte: "unat (drop_bit 8 (v :: u64)) = unat v div 256"
  by (simp add: drop_bit_eq_div unat_div_distrib)

lemma le_value_EncodeEndian: "le_value (EncodeEndian v n) = unat v mod 256 ^ n"
proof (induction n arbitrary: v)
  case (Suc n)
  then show ?case
    by (simp add: unat_low_byte unat_shift_byte mod_mult2_eq)
qed simp

lemma DecodeEndian_EncodeEndian:
  "DecodeEndian (EncodeEndian v n) = word_of_nat (unat v mod 256 ^ n)"
  by (simp add: DecodeEndian_value le_value_EncodeEndian)

lemma DecodeEndian_EncodeEndian_small:
  "unat v < 256 ^ n \<Longrightarrow> DecodeEndian (EncodeEndian v n) = v"
  by (simp add: DecodeEndian_EncodeEndian)

lemma unat_lt_256_pow_8: "unat (v :: u64) < 256 ^ 8"
  using unsigned_less [of v, where 'a = nat] by simp

lemma EncodeEndian_DecodeEndian:
  assumes "length bs \<le> 8"
  shows "EncodeEndian (DecodeEndian bs) (length bs) = bs"
proof (rule le_value_inj)
  have "(256 :: nat) ^ length bs \<le> 256 ^ 8" using assms by (rule power_increasing) simp
  with le_value_bound [of bs] have "le_value bs < 2 ^ 64" by simp
  then have "unat (DecodeEndian bs) = le_value bs"
    by (simp add: DecodeEndian_value unat_of_nat)
  with le_value_bound [of bs] show "le_value (EncodeEndian (DecodeEndian bs) (length bs)) = le_value bs"
    by (simp add: le_value_EncodeEndian)
qed simp

text \<open>
  The multiplier of \<open>DecodeEndian\<close> is zero after eight rounds, so later bytes add nothing.
\<close>

lemma DecodeEndian_take_8: "DecodeEndian bs = DecodeEndian (take 8 bs)"
proof (cases "length bs \<le> 8")
  case False
  have "le_value bs = le_value (take 8 bs @ drop 8 bs)" by simp
  also have "\<dots> = le_value (take 8 bs) + 2 ^ 64 * le_value (drop 8 bs)"
    using False by (simp only: le_value_append) simp
  finally have "le_value bs = le_value (take 8 bs) + 2 ^ 64 * le_value (drop 8 bs)" .
  moreover have "(word_of_nat (2 ^ 64 * le_value (drop 8 bs)) :: u64) = 0"
    by (simp only: word_of_nat_eq_0_iff) simp
  ultimately show ?thesis
    by (simp only: DecodeEndian_value of_nat_add add_0_right)
qed simp

text \<open>Trailing zero bytes do not change the value.\<close>

lemma DecodeEndian_trailing_zeros: "DecodeEndian (bs @ replicate n 0) = DecodeEndian bs"
proof -
  have "le_value (replicate n 0) = 0" by (induction n) simp_all
  then show ?thesis by (simp add: DecodeEndian_value le_value_append)
qed

interpretation le8: byte_codec "\<lambda>v. EncodeEndian v 8" "\<lambda>bs. Ok (DecodeEndian bs)" "\<lambda>v. True"
  by unfold_locales (simp add: DecodeEndian_EncodeEndian_small unat_lt_256_pow_8 [simplified])

interpretation le4: byte_codec "\<lambda>v. EncodeEndian v 4" "\<lambda>bs. Ok (DecodeEndian bs)"
    "\<lambda>v. unat v < 256 ^ 4"
  by unfold_locales (simp add: DecodeEndian_EncodeEndian_small)

interpretation le2: byte_codec "\<lambda>v. EncodeEndian v 2" "\<lambda>bs. Ok (DecodeEndian bs)"
    "\<lambda>v. unat v < 256 ^ 2"
  by unfold_locales (simp add: DecodeEndian_EncodeEndian_small)

end
