(* ===== verification/Msgpack_Lib.thy ===== *)
theory Msgpack_Lib
  imports Endian
begin

text \<open>
  The interface of \<open>github.com/vmihailenco/msgpack/v5\<close>, a third-party package, as a
  parameter: one field per encoder or decoder method the repository calls, over byte lists.
  An encoder appends its bytes to a buffer and cannot fail there; a decoder reads a prefix
  and returns the rest. \<open>msgpack_laws\<close> is what the package documents: a decoder reads back
  what the matching encoder wrote, for values in the range of the format.
\<close>

section \<open>Dynamic values\<close>

text \<open>The dynamic type of an \<open>interface{}\<close> value, as far as the repository inspects it.\<close>

datatype int_kind = K_int | K_int8 | K_int16 | K_int32 | K_int64
  | K_uint | K_uint8 | K_uint16 | K_uint32 | K_uint64

datatype goval = VNil | VBool bool | VInt int_kind int | VStr string | VBytes bytes
  | VStrings "string list" | VSlice "goval list" | VMap "(string \<times> goval) list" | VOpaque

section \<open>The methods\<close>

record msgpack_lib =
  mp_EncodeInt :: "int \<Rightarrow> bytes"
  mp_EncodeUint :: "u64 \<Rightarrow> bytes"
  mp_EncodeBytes :: "bytes \<Rightarrow> bytes"
  mp_EncodeString :: "string \<Rightarrow> bytes"
  mp_EncodeBool :: "bool \<Rightarrow> bytes"
  mp_EncodeInts :: "int list \<Rightarrow> bytes"
  mp_DecodeInt :: "bytes \<Rightarrow> (int \<times> bytes) outcome"
  mp_DecodeBytes :: "bytes \<Rightarrow> (bytes \<times> bytes) outcome"
  mp_DecodeString :: "bytes \<Rightarrow> (string \<times> bytes) outcome"
  mp_DecodeBool :: "bytes \<Rightarrow> (bool \<times> bytes) outcome"
  mp_DecodeInts :: "bytes \<Rightarrow> (int list \<times> bytes) outcome"
  mp_DecodeInterface :: "bytes \<Rightarrow> (goval \<times> bytes) outcome"
  mp_PeekCode :: "bytes \<Rightarrow> byte outcome"

definition int64_range :: "int \<Rightarrow> bool" where
  "int64_range n \<longleftrightarrow> - (2 ^ 63) \<le> n \<and> n < 2 ^ 63"

text \<open>Arithmetic on a Go \<open>int\<close> wraps at 64 bits.\<close>

definition int64_wrap :: "int \<Rightarrow> int" where
  "int64_wrap k = sint (word_of_int k :: u64)"

lemma int64_wrap_id [simp]: "int64_range k \<Longrightarrow> int64_wrap k = k"
  by (simp add: int64_wrap_def int64_range_def sint_sbintrunc' signed_take_bit_int_eq_self)

lemma sint_range: "int64_range (sint (w :: u64))"
  using sint_greater_eq [of w] sint_less [of w] by (simp add: int64_range_def)

lemma int64_wrap_range [simp]: "int64_range (int64_wrap k)"
  by (simp add: int64_wrap_def sint_range)

definition msgpack_laws :: "msgpack_lib \<Rightarrow> bool" where
  "msgpack_laws mp \<longleftrightarrow>
     (\<forall>n r. int64_range n \<longrightarrow> mp_DecodeInt mp (mp_EncodeInt mp n @ r) = Ok (n, r)) \<and>
     (\<forall>u r. uint u < 2 ^ 63 \<longrightarrow> mp_DecodeInt mp (mp_EncodeUint mp u @ r) = Ok (uint u, r)) \<and>
     (\<forall>b r. length b < 2 ^ 32 \<longrightarrow> mp_DecodeBytes mp (mp_EncodeBytes mp b @ r) = Ok (b, r)) \<and>
     (\<forall>s r. length s < 2 ^ 32 \<longrightarrow> mp_DecodeString mp (mp_EncodeString mp s @ r) = Ok (s, r)) \<and>
     (\<forall>s r. length s < 2 ^ 32 \<longrightarrow> mp_DecodeInterface mp (mp_EncodeString mp s @ r) = Ok (VStr s, r)) \<and>
     (\<forall>b r. mp_DecodeBool mp (mp_EncodeBool mp b @ r) = Ok (b, r)) \<and>
     (\<forall>ns r. length ns < 2 ^ 32 \<and> list_all int64_range ns \<longrightarrow>
        mp_DecodeInts mp (mp_EncodeInts mp ns @ r) = Ok (ns, r)) \<and>
     (\<forall>s. mp_EncodeString mp s \<noteq> []) \<and>
     (\<forall>bs n r. mp_DecodeInt mp bs = Ok (n, r) \<longrightarrow> int64_range n) \<and>
     (\<forall>b r. uint b < 128 \<longrightarrow> mp_DecodeInt mp (b # r) = Ok (uint b, r)) \<and>
     (\<forall>b bs. mp_PeekCode mp (b # bs) = Ok b) \<and>
     mp_PeekCode mp [] = Err (LibError ''EOF'')"

lemma msgpack_int: "msgpack_laws mp \<Longrightarrow> int64_range n \<Longrightarrow> mp_DecodeInt mp (mp_EncodeInt mp n @ r) = Ok (n, r)"
  and msgpack_uint: "msgpack_laws mp \<Longrightarrow> uint u < 2 ^ 63 \<Longrightarrow> mp_DecodeInt mp (mp_EncodeUint mp u @ r) = Ok (uint u, r)"
  and msgpack_bytes: "msgpack_laws mp \<Longrightarrow> length b < 2 ^ 32 \<Longrightarrow> mp_DecodeBytes mp (mp_EncodeBytes mp b @ r) = Ok (b, r)"
  and msgpack_string: "msgpack_laws mp \<Longrightarrow> length s < 2 ^ 32 \<Longrightarrow> mp_DecodeString mp (mp_EncodeString mp s @ r) = Ok (s, r)"
  and msgpack_interface_string: "msgpack_laws mp \<Longrightarrow> length s < 2 ^ 32 \<Longrightarrow>
    mp_DecodeInterface mp (mp_EncodeString mp s @ r) = Ok (VStr s, r)"
  and msgpack_bool: "msgpack_laws mp \<Longrightarrow> mp_DecodeBool mp (mp_EncodeBool mp c @ r) = Ok (c, r)"
  and msgpack_ints: "msgpack_laws mp \<Longrightarrow> length ns < 2 ^ 32 \<Longrightarrow> list_all int64_range ns \<Longrightarrow>
    mp_DecodeInts mp (mp_EncodeInts mp ns @ r) = Ok (ns, r)"
  and msgpack_string_nonempty: "msgpack_laws mp \<Longrightarrow> mp_EncodeString mp s \<noteq> []"
  and msgpack_int_range: "msgpack_laws mp \<Longrightarrow> mp_DecodeInt mp bs = Ok (n, r) \<Longrightarrow> int64_range n"
  and msgpack_fixint: "msgpack_laws mp \<Longrightarrow> uint x < 128 \<Longrightarrow> mp_DecodeInt mp (x # xs) = Ok (uint x, xs)"
  and msgpack_peek: "msgpack_laws mp \<Longrightarrow> mp_PeekCode mp (x # xs) = Ok x"
  and msgpack_peek_eof: "msgpack_laws mp \<Longrightarrow> mp_PeekCode mp [] = Err (LibError ''EOF'')"
  by (simp_all add: msgpack_laws_def) (metis msgpack_laws_def)?

lemmas msgpack_decode = msgpack_int msgpack_uint msgpack_bytes msgpack_string
  msgpack_interface_string msgpack_bool msgpack_ints

section \<open>A lawful instance\<close>

text \<open>
  For the witnesses: the widest form of each type in the msgpack format (\<open>int 64\<close>, \<open>bin 32\<close>,
  \<open>str 32\<close>, \<open>false\<close>/\<open>true\<close>, \<open>array 32\<close> of \<open>int 64\<close>), big-endian.
\<close>

definition be_take :: "nat \<Rightarrow> bytes \<Rightarrow> (u64 \<times> bytes) outcome" where
  "be_take n bs = (if length bs < n then Err (LibError ''EOF'')
     else Ok (DecodeEndian (rev (take n bs)), drop n bs))"

definition wide_int :: "int \<Rightarrow> bytes" where
  "wide_int n = 0xd3 # rev (EncodeEndian (word_of_int n) 8)"

definition read_int :: "bytes \<Rightarrow> (int \<times> bytes) outcome" where
  "read_int bs = (case bs of [] \<Rightarrow> Err (LibError ''EOF'') | c # r \<Rightarrow>
     if uint c < 128 then Ok (uint c, r)
     else if c \<noteq> 0xd3 then Err (LibError ''code'') else obind (be_take 8 r) (\<lambda>(w, r'). Ok (sint w, r')))"

definition wide_raw :: "byte \<Rightarrow> bytes \<Rightarrow> bytes" where
  "wide_raw code bs = code # rev (EncodeEndian (word_of_nat (length bs)) 4) @ bs"

definition read_raw :: "byte \<Rightarrow> bytes \<Rightarrow> (bytes \<times> bytes) outcome" where
  "read_raw code bs = (case bs of [] \<Rightarrow> Err (LibError ''EOF'') | c # r \<Rightarrow>
     if c \<noteq> code then Err (LibError ''code'')
     else obind (be_take 4 r) (\<lambda>(w, r'). if length r' < unat w then Err (LibError ''EOF'')
       else Ok (take (unat w) r', drop (unat w) r')))"

primrec read_ints :: "nat \<Rightarrow> bytes \<Rightarrow> (int list \<times> bytes) outcome" where
  "read_ints 0 bs = Ok ([], bs)"
| "read_ints (Suc n) bs =
     obind (read_int bs) (\<lambda>(x, r). obind (read_ints n r) (\<lambda>(xs, r'). Ok (x # xs, r')))"

definition wide_msgpack :: msgpack_lib where
  "wide_msgpack =
     \<lparr>mp_EncodeInt = wide_int,
      mp_EncodeUint = (\<lambda>u. wide_int (uint u)),
      mp_EncodeBytes = wide_raw 0xc6,
      mp_EncodeString = (\<lambda>s. wide_raw 0xdb (bytes_of_string s)),
      mp_EncodeBool = (\<lambda>b. [if b then 0xc3 else 0xc2]),
      mp_EncodeInts = (\<lambda>ns. 0xdd # rev (EncodeEndian (word_of_nat (length ns)) 4) @ concat (map wide_int ns)),
      mp_DecodeInt = read_int,
      mp_DecodeBytes = read_raw 0xc6,
      mp_DecodeString = (\<lambda>bs. obind (read_raw 0xdb bs) (\<lambda>(x, r). Ok (string_of_bytes x, r))),
      mp_DecodeBool = (\<lambda>bs. case bs of [] \<Rightarrow> Err (LibError ''EOF'')
        | c # r \<Rightarrow> if c = 0xc3 then Ok (True, r) else if c = 0xc2 then Ok (False, r) else Err (LibError ''code'')),
      mp_DecodeInts = (\<lambda>bs. case bs of [] \<Rightarrow> Err (LibError ''EOF'') | c # r \<Rightarrow>
        if c \<noteq> 0xdd then Err (LibError ''code'') else obind (be_take 4 r) (\<lambda>(w, r'). read_ints (unat w) r')),
      mp_DecodeInterface = (\<lambda>bs. obind (read_raw 0xdb bs) (\<lambda>(x, r). Ok (VStr (string_of_bytes x), r))),
      mp_PeekCode = (\<lambda>bs. case bs of [] \<Rightarrow> Err (LibError ''EOF'') | c # _ \<Rightarrow> Ok c)\<rparr>"

lemma be_take_encoded:
  assumes "unat w < 256 ^ n"
  shows "be_take n (rev (EncodeEndian w n) @ r) = Ok (w, r)"
proof -
  have "take n (rev (EncodeEndian w n) @ r) = rev (EncodeEndian w n)" by simp
  then show ?thesis
    by (simp add: be_take_def DecodeEndian_EncodeEndian_small [OF assms])
qed

lemma read_wide_int: "int64_range n \<Longrightarrow> read_int (wide_int n @ r) = Ok (n, r)"
proof -
  assume "int64_range n"
  then have "sint (word_of_int n :: u64) = n"
    by (simp add: int64_range_def sint_sbintrunc' signed_take_bit_int_eq_self)
  then show ?thesis
    using unat_lt_256_pow_8 by (simp add: read_int_def wide_int_def be_take_encoded)
qed

lemma read_wide_raw: "length b < 2 ^ 32 \<Longrightarrow> read_raw c (wide_raw c b @ r) = Ok (b, r)"
proof -
  assume "length b < 2 ^ 32"
  then have "unat (word_of_nat (length b) :: u64) = length b" by (simp add: unat_of_nat)
  with \<open>length b < 2 ^ 32\<close> show ?thesis
    by (simp add: read_raw_def wide_raw_def be_take_encoded)
qed

lemma read_wide_ints:
  "list_all int64_range ns \<Longrightarrow> read_ints (length ns) (concat (map wide_int ns) @ r) = Ok (ns, r)"
  by (induction ns) (simp_all add: read_wide_int)

lemma wide_msgpack_laws: "msgpack_laws wide_msgpack"
proof -
  have len: "unat (word_of_nat n :: u64) = n" if "n < 2 ^ 32" for n
    using that by (simp add: unat_of_nat)
  have uints: "int64_range (uint u)" if "uint u < 2 ^ 63" for u :: u64
    using that by (simp add: int64_range_def order.trans [OF _ uint_ge_0])
  have small: "int64_range (uint b)" if "uint b < 128" for b :: byte
    using that order.trans [OF _ uint_ge_0, of "- (2 ^ 63)" b] by (simp add: int64_range_def)
  have ranged: "int64_range n" if "read_int bs = Ok (n, r)" for bs n r
    using that by (auto simp: read_int_def obind_eq_Ok sint_range small split: list.splits if_splits)
  have tiny: "read_int (b # r) = Ok (uint b, r)" if "uint b < 128" for b r
    using that by (simp add: read_int_def)
  have raw: "wide_raw c b \<noteq> []" for c b by (simp add: wide_raw_def)
  show ?thesis
    by (auto simp: msgpack_laws_def wide_msgpack_def read_wide_int uints read_wide_raw raw
        be_take_encoded read_wide_ints len tiny dest: ranged)
qed

end
