(* ===== verification/Structs.thy ===== *)
theory Structs
  imports Prelude Msgpack_Lib "HOL-Library.AList"
begin

text \<open>
  \<open>structs/map.go\<close> and \<open>structs/set.go\<close>: the mutex-guarded map and set the services keep
  their tables in. The containers underneath are hash tables of a third-party package, whose
  documented behaviour is that of a finite map and a finite set; they are lists of distinct
  keys here, and the order of the list stands for the unspecified order in which Go iterates.
  Every method holds the lock for its whole body, so each is one step.
\<close>

section \<open>Maps\<close>

type_synonym ('k, 'v) gomap = "('k \<times> 'v) list"

definition NewMap :: "('k, 'v) gomap" where "NewMap = []"

definition Map_Get :: "('k, 'v) gomap \<Rightarrow> 'k \<Rightarrow> 'v option" where
  "Map_Get m key = map_of m key"

definition Map_Put :: "('k, 'v) gomap \<Rightarrow> 'k \<Rightarrow> 'v \<Rightarrow> ('k, 'v) gomap" where
  "Map_Put m key val = AList.update key val m"

definition Map_Remove :: "('k, 'v) gomap \<Rightarrow> 'k \<Rightarrow> ('k, 'v) gomap" where
  "Map_Remove m key = AList.delete key m"

definition Map_Keys :: "('k, 'v) gomap \<Rightarrow> 'k list" where "Map_Keys m = map fst m"
definition Map_Values :: "('k, 'v) gomap \<Rightarrow> 'v list" where "Map_Values m = map snd m"
definition Map_Size :: "('k, 'v) gomap \<Rightarrow> nat" where "Map_Size m = length m"
definition Map_Empty :: "('k, 'v) gomap \<Rightarrow> bool" where "Map_Empty m \<longleftrightarrow> m = []"
definition Map_Clear :: "('k, 'v) gomap \<Rightarrow> ('k, 'v) gomap" where "Map_Clear m = []"

text \<open>Despite its name, \<open>GetKey\<close> looks its argument up as a key.\<close>

definition Map_GetKey :: "('k, 'v) gomap \<Rightarrow> 'k \<Rightarrow> 'v option" where
  "Map_GetKey m val = map_of m val"

definition Map_Contains :: "('k, 'v) gomap \<Rightarrow> 'k \<Rightarrow> bool" where
  "Map_Contains m val \<longleftrightarrow> map_of m val \<noteq> None"

text \<open>
  The typed getters: \<open>nil\<close> for a missing key; \<open>log.Fatalf\<close>, which ends the process, is
  \<open>Panic\<close>. \<open>GetString\<close> asserts that a value it knows to be a \<open>string\<close> is a \<open>*string\<close>, which
  panics.
\<close>

definition Map_GetInt :: "('k, goval) gomap \<Rightarrow> 'k \<Rightarrow> int option outcome" where
  "Map_GetInt m key = (case Map_Get m key of
     None \<Rightarrow> Ok None
   | Some (VInt K_int i) \<Rightarrow> Ok (Some i)
   | Some _ \<Rightarrow> Panic)"

definition Map_GetUInt :: "('k, goval) gomap \<Rightarrow> 'k \<Rightarrow> int option outcome" where
  "Map_GetUInt m key = (case Map_Get m key of
     None \<Rightarrow> Ok None
   | Some (VInt K_uint i) \<Rightarrow> Ok (Some i)
   | Some _ \<Rightarrow> Panic)"

definition Map_GetString :: "('k, goval) gomap \<Rightarrow> 'k \<Rightarrow> string option outcome" where
  "Map_GetString m key = (case Map_Get m key of
     None \<Rightarrow> Ok None
   | Some (VStr _) \<Rightarrow> Panic
   | Some _ \<Rightarrow> Panic)"

definition Map_PutInt :: "('k, goval) gomap \<Rightarrow> 'k \<Rightarrow> int \<Rightarrow> ('k, goval) gomap" where
  "Map_PutInt m key i = Map_Put m key (VInt K_int i)"

definition Map_PutUInt :: "('k, goval) gomap \<Rightarrow> 'k \<Rightarrow> int \<Rightarrow> ('k, goval) gomap" where
  "Map_PutUInt m key i = Map_Put m key (VInt K_uint i)"

lemma Map_Get_Put [simp]: "Map_Get (Map_Put m k v) j = (if j = k then Some v else Map_Get m j)"
  by (simp add: Map_Get_def Map_Put_def update_conv')

lemma Map_Get_Remove [simp]: "Map_Get (Map_Remove m k) j = (if j = k then None else Map_Get m j)"
  by (simp add: Map_Get_def Map_Remove_def delete_conv')

lemma Map_Get_New [simp]: "Map_Get NewMap k = None"
  by (simp add: Map_Get_def NewMap_def)

lemma Map_Contains_Get: "Map_Contains m k \<longleftrightarrow> Map_Get m k \<noteq> None"
  by (simp add: Map_Contains_def Map_Get_def)

definition map_inv :: "('k, 'v) gomap \<Rightarrow> bool" where
  "map_inv m \<longleftrightarrow> distinct (map fst m)"

lemma map_inv_ops [simp]:
  "map_inv NewMap" "map_inv m \<Longrightarrow> map_inv (Map_Put m k v)" "map_inv m \<Longrightarrow> map_inv (Map_Remove m k)"
  by (simp_all add: map_inv_def NewMap_def Map_Put_def Map_Remove_def distinct_update distinct_delete)

lemma map_inv_single:
  assumes "map_inv m" "Map_Get m = [s \<mapsto> l]"
  shows "m = [(s, l)]"
proof -
  have get: "map_of m = [s \<mapsto> l]" using assms(2) by (metis Map_Get_def ext)
  then have "set (map fst m) = {s}" by (metis dom_fun_upd dom_empty dom_map_of_conv_image_fst list.set_map option.distinct(1))
  moreover have "distinct (map fst m)" using assms(1) by (simp add: map_inv_def)
  ultimately have "length m = 1" by (metis distinct_card card.empty card.insert finite.emptyI empty_iff length_map One_nat_def)
  then obtain x where "m = [x]" by (auto simp: length_Suc_conv)
  then show ?thesis using get by (cases x) (auto simp: fun_eq_iff split: if_splits)
qed

lemma Map_Values_Get: "map_inv m \<Longrightarrow> v \<in> set (Map_Values m) \<longleftrightarrow> (\<exists>k. Map_Get m k = Some v)"
  by (force simp: map_inv_def Map_Values_def Map_Get_def)

section \<open>Sets\<close>

type_synonym 'a goset = "'a list"

definition NewSet :: "'a goset" where "NewSet = []"

definition Set_Add :: "'a goset \<Rightarrow> 'a list \<Rightarrow> 'a goset" where
  "Set_Add s items = fold (\<lambda>x t. if x \<in> set t then t else t @ [x]) items s"

definition Set_Remove :: "'a goset \<Rightarrow> 'a list \<Rightarrow> 'a goset" where
  "Set_Remove s items = filter (\<lambda>x. x \<notin> set items) s"

definition Set_Contains :: "'a goset \<Rightarrow> 'a list \<Rightarrow> bool" where
  "Set_Contains s items \<longleftrightarrow> list_all (\<lambda>x. x \<in> set s) items"

definition Set_Values :: "'a goset \<Rightarrow> 'a list" where "Set_Values s = s"

lemma set_Set_Add [simp]: "set (Set_Add s items) = set s \<union> set items"
  unfolding Set_Add_def by (induction items arbitrary: s) auto

lemma distinct_Set_Add [simp]: "distinct s \<Longrightarrow> distinct (Set_Add s items)"
  unfolding Set_Add_def by (induction items arbitrary: s) auto

lemma set_Set_Remove [simp]: "set (Set_Remove s items) = set s - set items"
  by (auto simp: Set_Remove_def)

section \<open>Properties\<close>



text \<open>
  The typed getters. \<open>GetUInt\<close> reads what \<open>PutUInt\<close> wrote, a number of another type ends
  the process, and \<open>GetString\<close> fails on every key that is present, strings included.
\<close>
lemma structs_typed_getters:
  "Map_GetUInt (Map_PutUInt m k i) k = Ok (Some i) \<and> Map_GetInt (Map_PutInt m k i) k = Ok (Some i) \<and>
   Map_GetUInt (Map_PutInt m k i) k = Panic \<and>
   (Map_GetString m k = Panic \<longleftrightarrow> Map_Contains m k) \<and> Map_GetString (Map_Put m k (VStr s)) k = Panic"
  by (auto simp: Map_GetUInt_def Map_GetInt_def Map_GetString_def Map_PutUInt_def Map_PutInt_def
      Map_Contains_Get split: option.splits goval.splits)

end
