(* ===== verification/Go_Types.thy ===== *)
theory Go_Types
  imports Prelude
begin

text \<open>
  The package \<open>types\<close>: the numeric constants of CIDs, hashes, metadata, protocol methods,
  registry entries and storage locations, and the name tables the code tests membership in.
  A Go constant of an integer type is an \<open>int\<close>; the conversions to \<open>byte\<close> are written where
  the code performs them. Every constant is in the collection \<open>go_consts\<close>.
\<close>

section \<open>types/cid.go\<close>

definition CIDTypeRaw :: int where [go_consts]: "CIDTypeRaw = 0x26"
definition CIDTypeMetadataMedia :: int where [go_consts]: "CIDTypeMetadataMedia = 0xc5"
definition CIDTypeMetadataWebapp :: int where [go_consts]: "CIDTypeMetadataWebapp = 0x59"
definition CIDTypeResolver :: int where [go_consts]: "CIDTypeResolver = 0x25"
definition CIDTypeUserIdentity :: int where [go_consts]: "CIDTypeUserIdentity = 0x77"
definition CIDTypeBridge :: int where [go_consts]: "CIDTypeBridge = 0x3a"
definition CIDTypeEncryptedStatic :: int where [go_consts]: "CIDTypeEncryptedStatic = 0xae"
definition CIDTypeEncryptedDynamic :: int where [go_consts]: "CIDTypeEncryptedDynamic = 0xad"
definition CIDTypeDirectory :: int where [go_consts]: "CIDTypeDirectory = 0x5d"

definition CIDTypeMap :: "int \<rightharpoonup> string" where
  "CIDTypeMap = map_of
    [(CIDTypeRaw, ''Raw''), (CIDTypeMetadataMedia, ''MetadataMedia''),
     (CIDTypeMetadataWebapp, ''MetadataWebapp''), (CIDTypeResolver, ''Resolver''),
     (CIDTypeUserIdentity, ''UserIdentity''), (CIDTypeBridge, ''Bridge''),
     (CIDTypeEncryptedStatic, ''EncryptedStatic''),
     (CIDTypeEncryptedDynamic, ''EncryptedDynamic''), (CIDTypeDirectory, ''Directory'')]"

lemma CIDTypeMap_bound: "t \<in> dom CIDTypeMap \<Longrightarrow> 0 \<le> t \<and> t < 256"
  by (auto simp: CIDTypeMap_def go_consts split: if_splits)

section \<open>types/hash.go and types/registry.go\<close>

definition HashTypeBlake3 :: int where [go_consts]: "HashTypeBlake3 = 0x1f"
definition HashTypeEd25519 :: int where [go_consts]: "HashTypeEd25519 = 0xed"

definition HashTypeMap :: "int \<rightharpoonup> string" where
  "HashTypeMap = map_of [(HashTypeBlake3, ''Blake3''), (HashTypeEd25519, ''Ed25519'')]"

definition RegistryTypeCID :: int where [go_consts]: "RegistryTypeCID = 0x5a"
definition RegistryTypeEncryptedCID :: int where [go_consts]: "RegistryTypeEncryptedCID = 0x5e"

definition RegistryTypeMap :: "int \<rightharpoonup> string" where
  "RegistryTypeMap = map_of [(RegistryTypeCID, ''CID''), (RegistryTypeEncryptedCID, ''EncryptedCID'')]"

definition RegistryMaxDataSize :: nat where [go_consts]: "RegistryMaxDataSize = 64"

section \<open>types/protocol.go, types/feature.go and types/storage.go\<close>

definition ProtocolMethodHandshakeOpen :: int where [go_consts]: "ProtocolMethodHandshakeOpen = 0x1"
definition ProtocolMethodHandshakeDone :: int where [go_consts]: "ProtocolMethodHandshakeDone = 0x2"
definition ProtocolMethodSignedMessage :: int where [go_consts]: "ProtocolMethodSignedMessage = 0xA"
definition ProtocolMethodHashQuery :: int where [go_consts]: "ProtocolMethodHashQuery = 0x4"
definition ProtocolMethodAnnouncePeers :: int where [go_consts]: "ProtocolMethodAnnouncePeers = 0x8"
definition ProtocolMethodRegistryQuery :: int where [go_consts]: "ProtocolMethodRegistryQuery = 0xD"
definition RecordTypeStorageLocation :: int where [go_consts]: "RecordTypeStorageLocation = 0x05"
definition RecordTypeStreamEvent :: int where [go_consts]: "RecordTypeStreamEvent = 0x09"
definition RecordTypeRegistryEntry :: int where [go_consts]: "RecordTypeRegistryEntry = 0x07"

definition ProtocolMethodMap :: "int \<rightharpoonup> string" where
  "ProtocolMethodMap = map_of
    [(ProtocolMethodHandshakeOpen, ''HandshakeOpen''), (ProtocolMethodHandshakeDone, ''IsHandshakeDone''),
     (ProtocolMethodSignedMessage, ''SignedMessage''), (ProtocolMethodHashQuery, ''HashQuery''),
     (ProtocolMethodAnnouncePeers, ''AnnouncePeers''), (ProtocolMethodRegistryQuery, ''RegistryQuery''),
     (RecordTypeStorageLocation, ''StorageLocation''), (RecordTypeStreamEvent, ''StreamEvent''),
     (RecordTypeRegistryEntry, ''RegistryEntry'')]"

definition SupportedFeatures :: int where [go_consts]: "SupportedFeatures = 0x03"

definition StorageLocationTypeArchive :: int where [go_consts]: "StorageLocationTypeArchive = 0"
definition StorageLocationTypeFile :: int where [go_consts]: "StorageLocationTypeFile = 3"
definition StorageLocationTypeFull :: int where [go_consts]: "StorageLocationTypeFull = 5"
definition StorageLocationTypeBridge :: int where [go_consts]: "StorageLocationTypeBridge = 7"

definition StorageLocationTypeMap :: "int \<rightharpoonup> string" where
  "StorageLocationTypeMap = map_of
    [(StorageLocationTypeArchive, ''Archive''), (StorageLocationTypeFile, ''File''),
     (StorageLocationTypeFull, ''Full''), (StorageLocationTypeBridge, ''Bridge'')]"

section \<open>Conversions\<close>

text \<open>\<open>byte(k)\<close> of a Go \<open>int\<close> keeps the low eight bits; \<open>T(b)\<close> of a byte is its value.\<close>

abbreviation to_byte :: "int \<Rightarrow> byte" where
  "to_byte k \<equiv> word_of_int k"

lemma uint_to_byte: "0 \<le> k \<Longrightarrow> k < 256 \<Longrightarrow> uint (to_byte k) = k"
  by (simp add: uint_word_of_int)

end
