(* ===== verification/Base_Codecs.thy ===== *)
theory Base_Codecs
  imports Prelude
begin

text \<open>
  The text encodings the package \<open>encoding\<close> uses. \<open>base64.RawURLEncoding\<close>,
  \<open>base32.StdEncoding\<close> and \<open>hex\<close> of the Go standard library are modelled as the code uses
  them; \<open>go-multibase\<close> is a third-party package and is a parameter, a record of its
  functions with their documented laws (\<open>multibase_laws\<close>), behind \<open>internal/bases\<close>.
\<close>

section \<open>base64.RawURLEncoding\<close>

text \<open>The alphabet \<open>A-Z a-z 0-9 - _\<close> as a function of the six-bit value.\<close>

definition b64_char :: "nat \<Rightarrow> char" where
  "b64_char n = char_of
     (if n < 26 then n + 65 else if n < 52 then n + 71 else if n < 62 then n - 4
      else if n = 62 then 45 else 95)"

definition b64_value :: "char \<Rightarrow> nat option" where
  "b64_value c = (let n = of_char c :: nat in
     if 65 \<le> n \<and> n \<le> 90 then Some (n - 65)
     else if 97 \<le> n \<and> n \<le> 122 then Some (n - 71)
     else if 48 \<le> n \<and> n \<le> 57 then Some (n + 4)
     else if n = 45 then Some 62
     else if n = 95 then Some 63
     else None)"

fun base64url_EncodeToString :: "bytes \<Rightarrow> string" where
  "base64url_EncodeToString [] = []"
| "base64url_EncodeToString [a] =
     (let n = unat a in [b64_char (n div 4), b64_char (n mod 4 * 16)])"
| "base64url_EncodeToString [a, b] =
     (let n = unat a * 256 + unat b
      in [b64_char (n div 1024), b64_char (n div 16 mod 64), b64_char (n mod 16 * 4)])"
| "base64url_EncodeToString (a # b # c # rest) =
     (let n = unat a * 65536 + unat b * 256 + unat c
      in [b64_char (n div 262144), b64_char (n div 4096 mod 64), b64_char (n div 64 mod 64),
          b64_char (n mod 64)] @ base64url_EncodeToString rest)"

text \<open>
  Decoding skips CR and LF, rejects every other character outside the alphabet (there is no
  padding character), and rejects a last group of one character. The unused low bits of a
  short last group are not checked (the encoding is not \<open>Strict\<close>).
\<close>

definition err_base64 :: go_error where
  "err_base64 = GoError ''illegal base64 data'' []"

fun b64_quanta :: "nat list \<Rightarrow> bytes outcome" where
  "b64_quanta [] = Ok []"
| "b64_quanta [x] = Err err_base64"
| "b64_quanta [x, y] = Ok [word_of_nat ((x * 64 + y) div 16)]"
| "b64_quanta [x, y, z] =
     (let n = x * 4096 + y * 64 + z in Ok [word_of_nat (n div 1024), word_of_nat (n div 4 mod 256)])"
| "b64_quanta (x # y # z # w # rest) =
     (let n = x * 262144 + y * 4096 + z * 64 + w
      in obind (b64_quanta rest)
           (\<lambda>bs. Ok ([word_of_nat (n div 65536), word_of_nat (n div 256 mod 256), word_of_nat (n mod 256)] @ bs)))"

definition is_newline :: "char \<Rightarrow> bool" where
  "is_newline c \<longleftrightarrow> of_char c = (10 :: nat) \<or> of_char c = (13 :: nat)"

definition base64url_DecodeString :: "string \<Rightarrow> bytes outcome" where
  "base64url_DecodeString s =
     (case those (map b64_value (filter (\<lambda>c. \<not> is_newline c) s)) of
        None \<Rightarrow> Err err_base64
      | Some vs \<Rightarrow> b64_quanta vs)"

lemma b64_char_cases:
  assumes "n < 64"
  obtains "n < 26" "b64_char n = char_of (n + 65)"
    | m where "n = m + 26" "m < 26" "b64_char n = char_of (m + 97)"
    | m where "n = m + 52" "m < 10" "b64_char n = char_of (m + 48)"
    | "n = 62" "b64_char n = char_of (45 :: nat)"
    | "n = 63" "b64_char n = char_of (95 :: nat)"
proof -
  consider "n < 26" | "26 \<le> n" "n < 52" | "52 \<le> n" "n < 62" | "n = 62" | "n = 63"
    using assms by linarith
  then show thesis
  proof cases
    case 1
    then show ?thesis by (intro that(1)) (simp_all add: b64_char_def)
  next
    case 2
    then show ?thesis by (intro that(2) [of "n - 26"]) (simp_all add: b64_char_def)
  next
    case 3
    then show ?thesis by (intro that(3) [of "n - 52"]) (simp_all add: b64_char_def)
  next
    case 4
    then show ?thesis by (intro that(4)) (simp_all add: b64_char_def)
  next
    case 5
    then show ?thesis by (intro that(5)) (simp_all add: b64_char_def)
  qed
qed

lemma b64_value_char: "n < 64 \<Longrightarrow> b64_value (b64_char n) = Some n"
  by (erule b64_char_cases) (simp_all add: b64_value_def Let_def of_char_of)

lemma b64_char_no_newline: "n < 64 \<Longrightarrow> \<not> is_newline (b64_char n)"
  by (erule b64_char_cases) (simp_all add: is_newline_def of_char_of)

lemma unat_byte_lt [simp]: "unat (b :: byte) < 256"
  using unsigned_less [of b, where 'a = nat] by simp

lemma those_map_Some: "(\<And>x. x \<in> set xs \<Longrightarrow> f x = Some (g x)) \<Longrightarrow> those (map f xs) = Some (map g xs)"
  by (induction xs) auto

lemma base64url_chars:
  "set (base64url_EncodeToString bs) \<subseteq> b64_char ` {..<64}"
proof (induction bs rule: base64url_EncodeToString.induct)
  case (2 a)
  have "unat a div 4 < 64" using unat_byte_lt [of a] by arith
  then show ?case by (auto simp: Let_def)
next
  case (3 a b)
  have "(unat a * 256 + unat b) div 1024 < 64"
    using unat_byte_lt [of a] unat_byte_lt [of b] by arith
  then show ?case by (auto simp: Let_def)
next
  case (4 a b c rest)
  have "(unat a * 65536 + unat b * 256 + unat c) div 262144 < 64"
    using unat_byte_lt [of a] unat_byte_lt [of b] unat_byte_lt [of c] by arith
  with 4 show ?case by (auto simp: Let_def)
qed simp

text \<open>The six-bit values of an encoding, and that they decode to the bytes again.\<close>

fun b64_sextets :: "bytes \<Rightarrow> nat list" where
  "b64_sextets [] = []"
| "b64_sextets [a] = [unat a div 4, unat a mod 4 * 16]"
| "b64_sextets [a, b] =
     (let n = unat a * 256 + unat b in [n div 1024, n div 16 mod 64, n mod 16 * 4])"
| "b64_sextets (a # b # c # rest) =
     (let n = unat a * 65536 + unat b * 256 + unat c
      in [n div 262144, n div 4096 mod 64, n div 64 mod 64, n mod 64] @ b64_sextets rest)"

lemma encode_is_sextets: "base64url_EncodeToString bs = map b64_char (b64_sextets bs)"
  by (induction bs rule: b64_sextets.induct) (simp_all add: Let_def)

lemma sextets_lt: "v \<in> set (b64_sextets bs) \<Longrightarrow> v < 64"
proof (induction bs rule: b64_sextets.induct)
  case (2 a)
  have "unat a div 4 < 64" using unat_byte_lt [of a] by arith
  with 2 show ?case by auto
next
  case (3 a b)
  have "(unat a * 256 + unat b) div 1024 < 64"
    using unat_byte_lt [of a] unat_byte_lt [of b] by arith
  with 3 show ?case by (auto simp: Let_def)
next
  case (4 a b c rest)
  have "(unat a * 65536 + unat b * 256 + unat c) div 262144 < 64"
    using unat_byte_lt [of a] unat_byte_lt [of b] unat_byte_lt [of c] by arith
  with 4 show ?case by (auto simp: Let_def)
qed simp

lemma recompose_sextets:
  fixes n :: nat
  shows "n = q * 4 + r \<Longrightarrow> q * 64 + r * 16 = n * 16"
    and "n = q1 * 16 + r1 \<Longrightarrow> q1 = q2 * 64 + r2 \<Longrightarrow> q2 * 4096 + r2 * 64 + r1 * 4 = n * 4"
    and "n = q1 * 64 + r1 \<Longrightarrow> q1 = q2 * 64 + r2 \<Longrightarrow> q2 = q3 * 64 + r3 \<Longrightarrow>
      q3 * 262144 + r3 * 4096 + r2 * 64 + r1 = n"
  by simp_all

lemma group_of_two:
  fixes n :: nat
  shows "n div 4 * 64 + n mod 4 * 16 = n * 16"
  by (rule recompose_sextets(1) [OF div_mult_mod_eq [symmetric]])

lemma group_of_three:
  fixes n :: nat
  shows "n div 1024 * 4096 + n div 16 mod 64 * 64 + n mod 16 * 4 = n * 4"
proof -
  have "n div 1024 = n div 16 div 64" by (simp flip: div_mult2_eq)
  then show ?thesis
    using recompose_sextets(2) [OF div_mult_mod_eq [symmetric] div_mult_mod_eq [symmetric]] by simp
qed

lemma group_of_four:
  fixes n :: nat
  shows "n div 262144 * 262144 + n div 4096 mod 64 * 4096 + n div 64 mod 64 * 64 + n mod 64 = n"
proof -
  have "n div 4096 = n div 64 div 64" "n div 262144 = n div 64 div 64 div 64"
    by (simp_all flip: div_mult2_eq)
  then show ?thesis
    using recompose_sextets(3) [OF div_mult_mod_eq [symmetric] div_mult_mod_eq [symmetric]
        div_mult_mod_eq [symmetric]] by simp
qed

lemma two_bytes_split:
  assumes "a < 256" "b < (256 :: nat)"
  shows "(a * 256 + b) div 256 = a" "(a * 256 + b) mod 256 = b"
  using assms by simp_all

lemma three_bytes_split:
  assumes "a < 256" "b < 256" "c < (256 :: nat)"
  shows "(a * 65536 + b * 256 + c) div 65536 = a" "(a * 65536 + b * 256 + c) div 256 mod 256 = b"
    "(a * 65536 + b * 256 + c) mod 256 = c"
proof -
  show "(a * 65536 + b * 256 + c) div 65536 = a"
    using assms by (intro div_nat_eqI) auto
  have "(a * 65536 + b * 256 + c) div 256 = a * 256 + b"
    using assms by (intro div_nat_eqI) auto
  with assms show "(a * 65536 + b * 256 + c) div 256 mod 256 = b" by simp
  have "a * 65536 + b * 256 + c = c + 256 * (a * 256 + b)" by simp
  with assms show "(a * 65536 + b * 256 + c) mod 256 = c"
    by (simp only: mod_mult_self2) simp
qed

lemma quanta_sextets: "b64_quanta (b64_sextets bs) = Ok bs"
proof (induction bs rule: b64_sextets.induct)
  case (2 a)
  show ?case by (simp add: group_of_two)
next
  case (3 a b)
  let ?n = "unat a * 256 + unat b"
  have "?n * 4 div 1024 = ?n div 256" by (simp add: div_mult2_eq [of "?n * 4" 4 256, simplified])
  then show ?case by (simp add: Let_def group_of_three two_bytes_split)
next
  case (4 a b c rest)
  then show ?case
    by (simp add: Let_def group_of_four three_bytes_split)
qed simp

lemma base64url_decode_encode: "base64url_DecodeString (base64url_EncodeToString bs) = Ok bs"
proof -
  have "filter (\<lambda>c. \<not> is_newline c) (base64url_EncodeToString bs) = base64url_EncodeToString bs"
    by (rule filter_True) (auto simp: encode_is_sextets b64_char_no_newline sextets_lt)
  moreover have "those (map b64_value (base64url_EncodeToString bs)) = Some (b64_sextets bs)"
  proof -
    have "map b64_value (base64url_EncodeToString bs) = map Some (b64_sextets bs)"
      by (simp add: encode_is_sextets b64_value_char sextets_lt)
    moreover have "those (map Some xs) = Some xs" for xs :: "nat list" by (induction xs) auto
    ultimately show ?thesis by simp
  qed
  ultimately show ?thesis by (simp add: base64url_DecodeString_def quanta_sextets)
qed

interpretation b64: byte_codec base64url_EncodeToString base64url_DecodeString "\<lambda>_. True"
  by unfold_locales (rule base64url_decode_encode)

section \<open>base32.StdEncoding and hex\<close>

definition b32_char :: "nat \<Rightarrow> char" where
  "b32_char n = char_of (if n < 26 then n + 65 else n + 24)"

primrec be_value :: "bytes \<Rightarrow> nat" where
  "be_value [] = 0"
| "be_value (b # bs) = unat b * 256 ^ length bs + be_value bs"

text \<open>Five bytes make eight characters; a short last group is padded with \<open>=\<close>.\<close>

definition b32_group :: "bytes \<Rightarrow> string" where
  "b32_group bs =
     (let k = length bs; n = be_value (bs @ replicate (5 - k) 0); m = (8 * k + 4) div 5
      in map (\<lambda>i. b32_char (n div 32 ^ (7 - i) mod 32)) [0..<m] @ replicate (8 - m) CHR ''='')"

fun base32_EncodeToString :: "bytes \<Rightarrow> string" where
  "base32_EncodeToString [] = []"
| "base32_EncodeToString (a # b # c # d # e # rest) =
     b32_group [a, b, c, d, e] @ base32_EncodeToString rest"
| "base32_EncodeToString bs = b32_group bs"

definition hex_value :: "char \<Rightarrow> nat option" where
  "hex_value c = (let n = of_char c :: nat in
     if 48 \<le> n \<and> n \<le> 57 then Some (n - 48)
     else if 97 \<le> n \<and> n \<le> 102 then Some (n - 87)
     else if 65 \<le> n \<and> n \<le> 70 then Some (n - 55)
     else None)"

definition err_hex :: go_error where
  "err_hex = GoError ''encoding/hex'' []"

fun hex_DecodeString :: "string \<Rightarrow> bytes outcome" where
  "hex_DecodeString [] = Ok []"
| "hex_DecodeString [c] = Err err_hex"
| "hex_DecodeString (c # d # rest) =
     (case (hex_value c, hex_value d) of
        (Some x, Some y) \<Rightarrow> obind (hex_DecodeString rest) (\<lambda>bs. Ok (word_of_nat (x * 16 + y) # bs))
      | _ \<Rightarrow> Err err_hex)"

lemma length_b32_group: "length bs \<le> 5 \<Longrightarrow> length (b32_group bs) = 8"
  by (simp add: b32_group_def Let_def)

lemma length_base32: "length (base32_EncodeToString bs) = 8 * ((length bs + 4) div 5)"
proof (induction bs rule: base32_EncodeToString.induct)
  case (2 a b c d e rest)
  have "length (a # b # c # d # e # rest) + 4 = 5 + (length rest + 4)" by simp
  with 2 show ?case by (simp only: div_add_self1) (simp add: length_b32_group)
qed (simp_all add: length_b32_group)

section \<open>go-multibase\<close>

text \<open>
  The package \<open>github.com/multiformats/go-multibase\<close>, as the code calls it:
  \<open>EncoderByName\<close> (its error is dropped by the caller, so only the encoding code counts),
  \<open>Encode\<close>, \<open>Decode\<close> and the code \<open>Base58BTC\<close>.
\<close>

record multibase_lib =
  mb_EncoderByName :: "string \<Rightarrow> int"
  mb_Encode :: "int \<Rightarrow> bytes \<Rightarrow> string outcome"
  mb_Decode :: "string \<Rightarrow> (int \<times> bytes) outcome"
  mb_Base58BTC :: int

text \<open>
  Documented behaviour the code relies on: for the four bases it uses, encoding succeeds, the
  first character is the base's prefix, and decoding returns the base and the data.
\<close>

definition multibase_prefix :: "string \<Rightarrow> char option" where
  "multibase_prefix = map_of
    [(''base64url'', CHR ''u''), (''base58btc'', CHR ''z''), (''base32'', CHR ''b''), (''base16'', CHR ''f'')]"

definition multibase_laws :: "multibase_lib \<Rightarrow> bool" where
  "multibase_laws mb \<longleftrightarrow>
     mb_EncoderByName mb ''base58btc'' = mb_Base58BTC mb \<and>
     (\<forall>name p. multibase_prefix name = Some p \<longrightarrow>
        (\<forall>data. \<exists>s. mb_Encode mb (mb_EncoderByName mb name) data = Ok (p # s) \<and>
                    mb_Decode mb (p # s) = Ok (mb_EncoderByName mb name, data)))"

section \<open>internal/bases/bases.go\<close>

definition ToBase :: "multibase_lib \<Rightarrow> bytes \<Rightarrow> string \<Rightarrow> string outcome" where
  "ToBase mb data base =
     (case mb_Encode mb (mb_EncoderByName mb base) data of
        Err e \<Rightarrow> Err e
      | Panic \<Rightarrow> Panic
      | Ok ret \<Rightarrow> Ok ret)"

definition ToBase64Url :: "multibase_lib \<Rightarrow> bytes \<Rightarrow> string outcome" where
  "ToBase64Url mb data = ToBase mb data ''base64url''"

definition ToBase58BTC :: "multibase_lib \<Rightarrow> bytes \<Rightarrow> string outcome" where
  "ToBase58BTC mb data = ToBase mb data ''base58btc''"

definition ToBase32 :: "multibase_lib \<Rightarrow> bytes \<Rightarrow> string outcome" where
  "ToBase32 mb data = ToBase mb data ''base32''"

definition ToHex :: "multibase_lib \<Rightarrow> bytes \<Rightarrow> string outcome" where
  "ToHex mb data = ToBase mb data ''base16''"

lemma ToBase_Ok:
  assumes "multibase_laws mb" "multibase_prefix name = Some p"
  obtains s where "ToBase mb data name = Ok (p # s)"
    "mb_Decode mb (p # s) = Ok (mb_EncoderByName mb name, data)"
proof -
  from assms obtain s where "mb_Encode mb (mb_EncoderByName mb name) data = Ok (p # s)"
    "mb_Decode mb (p # s) = Ok (mb_EncoderByName mb name, data)"
    unfolding multibase_laws_def by blast
  then show thesis by (intro that) (simp_all add: ToBase_def)
qed

text \<open>
  A lawful instance, for the witnesses: the prefix character followed by the bytes as they are.
\<close>

definition plain_multibase :: multibase_lib where
  "plain_multibase =
     \<lparr>mb_EncoderByName = (\<lambda>name. case multibase_prefix name of Some p \<Rightarrow> of_char p | None \<Rightarrow> 0),
      mb_Encode = (\<lambda>code data. Ok (char_of code # string_of_bytes data)),
      mb_Decode = (\<lambda>s. case s of [] \<Rightarrow> Err (LibError ''empty'') | p # r \<Rightarrow> Ok (of_char p, bytes_of_string r)),
      mb_Base58BTC = 122\<rparr>"

lemma plain_multibase_laws: "multibase_laws plain_multibase"
  by (auto simp: multibase_laws_def plain_multibase_def multibase_prefix_def split: if_splits)

end
