(* ===== verification/Multihash.thy ===== *)
theory Multihash
  imports Endian Go_Types Base_Codecs
begin

text \<open>
  \<open>encoding/multihash.go\<close>, \<open>encoding/nodeid.go\<close> and \<open>ed25519/ed25519.go\<close>: multihashes,
  node identities and key pairs, with the text forms that serve as keys of the peer table,
  the routing table and the registry streams. Lemmas: the text forms round trip and are
  injective, and where the code panics.
\<close>

section \<open>Multihashes\<close>

record Multihash =
  fullBytes :: bytes

definition NewMultihash :: "bytes \<Rightarrow> Multihash" where
  "NewMultihash bs = \<lparr>fullBytes = bs\<rparr>"

definition FunctionType :: "Multihash \<Rightarrow> int outcome" where
  "FunctionType m = obind (go_index (fullBytes m) 0) (\<lambda>b. Ok (uint b))"

definition HashBytes :: "Multihash \<Rightarrow> bytes outcome" where
  "HashBytes m = go_from (fullBytes m) 1"

definition MultihashFromBytes :: "bytes \<Rightarrow> int \<Rightarrow> Multihash" where
  "MultihashFromBytes bs kind = NewMultihash (to_byte kind # bs)"

definition MultihashFromBase64Url :: "string \<Rightarrow> Multihash outcome" where
  "MultihashFromBase64Url hash = obind (base64url_DecodeString hash) (\<lambda>ret. Ok (NewMultihash ret))"

definition Multihash_ToBase64Url :: "Multihash \<Rightarrow> string outcome" where
  "Multihash_ToBase64Url m = Ok (base64url_EncodeToString (fullBytes m))"

definition Multihash_ToBase32 :: "Multihash \<Rightarrow> string outcome" where
  "Multihash_ToBase32 m = Ok (base32_EncodeToString (fullBytes m))"

definition Multihash_ToString :: "Multihash \<Rightarrow> string outcome" where
  "Multihash_ToString m = obind (FunctionType m) (\<lambda>t.
     if t = CIDTypeBridge then Ok (string_of_bytes (fullBytes m))
     else Multihash_ToBase64Url m)"

definition Multihash_Equals :: "Multihash \<Rightarrow> Multihash \<Rightarrow> bool" where
  "Multihash_Equals m other \<longleftrightarrow> fullBytes m = fullBytes other"

definition Multihash_HashCode :: "bytes \<Rightarrow> Multihash \<Rightarrow> int outcome" where
  "Multihash_HashCode spare m = obind (go_slice spare (fullBytes m) 0 4) (\<lambda>bs. Ok (HashCode bs))"

text \<open>The JSON hooks take and return the text without quotes.\<close>

definition Multihash_MarshalJSON :: "Multihash \<Rightarrow> bytes outcome" where
  "Multihash_MarshalJSON m = obind (Multihash_ToBase64Url m) (\<lambda>url. Ok (bytes_of_string url))"

definition Multihash_UnmarshalJSON :: "bytes \<Rightarrow> Multihash outcome" where
  "Multihash_UnmarshalJSON data = MultihashFromBase64Url (string_of_bytes data)"

lemma FunctionType_Cons [simp]: "FunctionType \<lparr>fullBytes = b # bs\<rparr> = Ok (uint b)"
  by (simp add: FunctionType_def)

lemma FunctionType_empty [simp]: "FunctionType \<lparr>fullBytes = []\<rparr> = Panic"
  by (simp add: FunctionType_def go_index_def)

lemma Multihash_ToString_cases:
  "Multihash_ToString m =
     (case fullBytes m of [] \<Rightarrow> Panic
      | b # bs \<Rightarrow> if uint b = CIDTypeBridge then Ok (string_of_bytes (b # bs))
                else Ok (base64url_EncodeToString (b # bs)))"
  by (auto simp: Multihash_ToString_def FunctionType_def Multihash_ToBase64Url_def go_index_def
      split: list.splits)

lemma Multihash_ToString_total: "fullBytes m \<noteq> [] \<Longrightarrow> \<exists>s. Multihash_ToString m = Ok s"
  by (auto simp: Multihash_ToString_cases split: list.splits)

lemma base64url_not_colon: "CHR '':'' \<notin> set (base64url_EncodeToString bs)"
proof
  assume "CHR '':'' \<in> set (base64url_EncodeToString bs)"
  then obtain n where n: "n < 64" "b64_char n = CHR '':''"
    using base64url_chars [of bs] by (auto simp: image_iff)
  then have "b64_value (CHR '':'') = Some n" using b64_value_char [OF n(1)] by simp
  then show False by (simp add: b64_value_def Let_def)
qed

lemma bridge_byte: "uint (b :: byte) = CIDTypeBridge \<longleftrightarrow> b = 0x3a"
proof
  assume "uint b = CIDTypeBridge"
  then have "uint b = uint (0x3a :: byte)" by (simp add: go_consts)
  then show "b = 0x3a" by (simp only: word_uint_eqI)
qed (simp add: go_consts)

lemma char_of_byte_colon: "char_of_byte 0x3a = CHR '':''"
proof -
  have "byte_of_char (CHR '':'') = 0x3a" by (simp add: byte_of_char_def)
  then show ?thesis by (metis char_of_byte_of_char)
qed

lemma Multihash_ToString_inj:
  assumes "Multihash_ToString m = Ok s" "Multihash_ToString m' = Ok s"
  shows "m = m'"
proof (cases m; cases m')
  fix bs bs'
  assume m: "m = \<lparr>fullBytes = bs\<rparr>" "m' = \<lparr>fullBytes = bs'\<rparr>"
  have colon: "c = CHR '':''" if "string_of_bytes ((0x3a :: byte) # x) = c # y" for c x y
    using that by (simp add: string_of_bytes_def char_of_byte_colon)
  have mixed: "string_of_bytes ((0x3a :: byte) # x) \<noteq> base64url_EncodeToString y" for x y
    using base64url_not_colon [of y] by (metis colon list.set_intros(1) list.exhaust
        length_string_bytes(2) length_greater_0_conv list.distinct(1))
  show "m = m'"
    using assms m mixed mixed [symmetric]
    by (auto simp: Multihash_ToString_cases bridge_byte b64.enc_inj
        split: list.splits if_splits)
qed

lemma Multihash_base64_roundtrip:
  "obind (Multihash_ToBase64Url m) MultihashFromBase64Url = Ok m"
  by (cases m) (simp add: Multihash_ToBase64Url_def MultihashFromBase64Url_def b64.dec_enc NewMultihash_def)

section \<open>Node identities\<close>

record NodeId =
  node_bytes :: bytes

definition NewNodeId :: "bytes \<Rightarrow> NodeId" where
  "NewNodeId bs = \<lparr>node_bytes = bs\<rparr>"

definition errorNotBase58BTC :: go_error where
  "errorNotBase58BTC = GoError ''not a base58btc string'' []"

definition DecodeNodeId :: "multibase_lib \<Rightarrow> string \<Rightarrow> NodeId outcome" where
  "DecodeNodeId mb nodeId = obind (mb_Decode mb nodeId) (\<lambda>(encoding, ret).
     if encoding \<noteq> mb_Base58BTC mb then Err errorNotBase58BTC else Ok (NewNodeId ret))"

text \<open>\<open>Equals\<close> takes any value and answers false for what is not a \<open>*NodeId\<close>.\<close>

datatype equals_arg = ArgNodeId NodeId | ArgOther

definition NodeId_Equals :: "NodeId \<Rightarrow> equals_arg \<Rightarrow> bool" where
  "NodeId_Equals nodeId other \<longleftrightarrow>
     (case other of ArgNodeId otherNodeId \<Rightarrow> node_bytes nodeId = node_bytes otherNodeId
      | ArgOther \<Rightarrow> False)"

definition NodeId_HashCode :: "bytes \<Rightarrow> NodeId \<Rightarrow> int outcome" where
  "NodeId_HashCode spare nodeId =
     obind (go_slice spare (node_bytes nodeId) 0 4) (\<lambda>bs. Ok (HashCode bs))"

definition NodeId_ToString :: "multibase_lib \<Rightarrow> NodeId \<Rightarrow> string outcome" where
  "NodeId_ToString mb nodeId = ToBase58BTC mb (node_bytes nodeId)"

lemma NodeId_ToString_decode:
  assumes "multibase_laws mb"
  obtains s where "NodeId_ToString mb n = Ok s" "DecodeNodeId mb s = Ok n"
proof -
  have "multibase_prefix ''base58btc'' = Some (CHR ''z'')" by (simp add: multibase_prefix_def)
  with assms obtain s where "ToBase mb (node_bytes n) ''base58btc'' = Ok (CHR ''z'' # s)"
    "mb_Decode mb (CHR ''z'' # s) = Ok (mb_EncoderByName mb ''base58btc'', node_bytes n)"
    by (rule ToBase_Ok)
  then show thesis
    using assms by (intro that [of "CHR ''z'' # s"])
      (simp_all add: NodeId_ToString_def ToBase58BTC_def DecodeNodeId_def multibase_laws_def NewNodeId_def)
qed

lemma NodeId_ToString_total: "multibase_laws mb \<Longrightarrow> \<exists>s. NodeId_ToString mb n = Ok s"
  by (metis NodeId_ToString_decode)

lemma NodeId_ToString_inj:
  "multibase_laws mb \<Longrightarrow> NodeId_ToString mb n = Ok s \<Longrightarrow> NodeId_ToString mb n' = Ok s \<Longrightarrow> n = n'"
  by (metis NodeId_ToString_decode outcome.inject(1))

lemma NodeId_HashCode_no_panic: "4 \<le> length (node_bytes n) \<Longrightarrow> NodeId_HashCode spare n \<noteq> Panic"
  by (simp add: NodeId_HashCode_def go_slice_within)

section \<open>Ed25519\<close>

text \<open>
  \<open>crypto/ed25519\<close>: the curve operations are a parameter; the length checks, by which
  \<open>Sign\<close> and \<open>Verify\<close> panic and \<open>Verify\<close> rejects, and \<open>PrivateKey.Public\<close>, which copies
  the second half of the key, are the standard library's.
\<close>

record ed25519_lib =
  ed_sign :: "bytes \<Rightarrow> bytes \<Rightarrow> bytes"
  ed_verify :: "bytes \<Rightarrow> bytes \<Rightarrow> bytes \<Rightarrow> bool"

definition ed25519_Sign :: "ed25519_lib \<Rightarrow> bytes \<Rightarrow> bytes \<Rightarrow> bytes outcome" where
  "ed25519_Sign ed priv msg = (if length priv = 64 then Ok (ed_sign ed priv msg) else Panic)"

definition ed25519_Verify :: "ed25519_lib \<Rightarrow> bytes \<Rightarrow> bytes \<Rightarrow> bytes \<Rightarrow> bool outcome" where
  "ed25519_Verify ed pub msg sig =
     (if length pub = 32 then Ok (length sig = 64 \<and> ed_verify ed pub msg sig) else Panic)"

definition ed25519_Public :: "bytes \<Rightarrow> bytes outcome" where
  "ed25519_Public priv = obind (go_from priv 32) (\<lambda>r. Ok (take 32 (r @ replicate 32 0)))"

record KeyPairEd25519 =
  kp_Bytes :: bytes

definition PublicKeyRaw :: "KeyPairEd25519 \<Rightarrow> bytes outcome" where
  "PublicKeyRaw kp = ed25519_Public (kp_Bytes kp)"

definition PublicKey :: "KeyPairEd25519 \<Rightarrow> bytes outcome" where
  "PublicKey kp = obind (PublicKeyRaw kp) (\<lambda>raw. Ok (ConcatBytes [[to_byte HashTypeEd25519], raw]))"

definition ExtractBytes :: "KeyPairEd25519 \<Rightarrow> bytes" where
  "ExtractBytes kp = kp_Bytes kp"

text \<open>
  A key pair is usable when it has the library's length and its signatures verify under the
  public half: what \<open>GenerateKey\<close> and \<open>NewKeyFromSeed\<close> document of the keys they return.
\<close>

definition usable_key :: "ed25519_lib \<Rightarrow> KeyPairEd25519 \<Rightarrow> bool" where
  "usable_key ed kp \<longleftrightarrow> length (kp_Bytes kp) = 64 \<and>
     (\<forall>msg. length (ed_sign ed (kp_Bytes kp) msg) = 64 \<and>
            ed_verify ed (drop 32 (kp_Bytes kp)) msg (ed_sign ed (kp_Bytes kp) msg))"

lemma PublicKey_usable:
  "usable_key ed kp \<Longrightarrow> PublicKey kp = Ok (0xed # drop 32 (kp_Bytes kp))"
  by (simp add: PublicKey_def PublicKeyRaw_def ed25519_Public_def usable_key_def ConcatBytes_def go_consts)

lemma sign_verify:
  assumes "usable_key ed kp"
  obtains sig where "ed25519_Sign ed (ExtractBytes kp) msg = Ok sig" "length sig = 64"
    "ed25519_Verify ed (drop 32 (kp_Bytes kp)) msg sig = Ok True"
  using assms by (simp add: usable_key_def ed25519_Sign_def ed25519_Verify_def ExtractBytes_def)

text \<open>A lawful instance for the witnesses: the signature is the public half, twice.\<close>

definition plain_ed25519 :: ed25519_lib where
  "plain_ed25519 = \<lparr>ed_sign = (\<lambda>priv msg. drop 32 priv @ drop 32 priv),
     ed_verify = (\<lambda>pub msg sig. sig = pub @ pub)\<rparr>"

lemma plain_usable_key: "length k = 64 \<Longrightarrow> usable_key plain_ed25519 \<lparr>kp_Bytes = k\<rparr>"
  by (simp add: usable_key_def plain_ed25519_def)

end
