(* ===== verification/Storage_Location.thy ===== *)
theory Storage_Location
  imports Structs Multihash
begin

text \<open>
  \<open>storage/location.go\<close>, \<open>storage/storage.go\<close>, \<open>storage/p2p.go\<close> and the parsing half of
  \<open>protocol/storage_location.go\<close>: storage locations, the signed message that announces one
  with its parser, and the nested map of locations kept per hash with its msgpack hooks.
  Lemmas: the announcement is read back by the parser, what the parser accepts is signed, and
  the location map round trips through the store up to the dynamic types msgpack forgets.
\<close>

section \<open>Locations\<close>

record StorageLocationImpl =
  sl_kind :: int
  sl_parts :: "string list"
  sl_binaryParts :: "bytes list"
  sl_expiry :: int
  sl_providerMessage :: bytes

definition NewStorageLocation :: "int \<Rightarrow> string list \<Rightarrow> int \<Rightarrow> StorageLocationImpl" where
  "NewStorageLocation Type Parts Expiry =
     \<lparr>sl_kind = Type, sl_parts = Parts, sl_binaryParts = [], sl_expiry = Expiry, sl_providerMessage = []\<rparr>"

definition SetProviderMessage :: "StorageLocationImpl \<Rightarrow> bytes \<Rightarrow> StorageLocationImpl" where
  "SetProviderMessage s msg = s\<lparr>sl_providerMessage := msg\<rparr>"

definition BytesURL :: "StorageLocationImpl \<Rightarrow> string outcome" where
  "BytesURL s = go_index (sl_parts s) 0"

definition OutboardBytesURL :: "StorageLocationImpl \<Rightarrow> string outcome" where
  "OutboardBytesURL s =
     (if length (sl_parts s) = 1 then obind (go_index (sl_parts s) 0) (\<lambda>p. Ok (p @ ''.obao''))
      else go_index (sl_parts s) 1)"

record SignedStorageLocationImpl =
  ssl_nodeID :: NodeId
  ssl_location :: StorageLocationImpl

definition NewSignedStorageLocation :: "NodeId \<Rightarrow> StorageLocationImpl \<Rightarrow> SignedStorageLocationImpl" where
  "NewSignedStorageLocation NodeID Location = \<lparr>ssl_nodeID = NodeID, ssl_location = Location\<rparr>"

section \<open>The announcement\<close>

definition provide_list :: "Multihash \<Rightarrow> StorageLocationImpl \<Rightarrow> bytes" where
  "provide_list hash location =
     [to_byte RecordTypeStorageLocation] @ fullBytes hash @ [to_byte (sl_kind location)]
     @ EncodeEndian (word_of_int (sl_expiry location)) 4
     @ [word_of_nat (length (sl_parts location))]
     @ concat (map (\<lambda>part. let bs = bytes_of_string part in
         EncodeEndian (word_of_nat (length bs)) 2 @ bs) (sl_parts location))
     @ [0]"

definition PrepareProvideMessage ::
  "ed25519_lib \<Rightarrow> KeyPairEd25519 \<Rightarrow> Multihash \<Rightarrow> StorageLocationImpl \<Rightarrow> bytes outcome" where
  "PrepareProvideMessage ed identity hash location =
     (let list = provide_list hash location in
      obind (ed25519_Sign ed (ExtractBytes identity) list) (\<lambda>signature.
      obind (PublicKey identity) (\<lambda>pk. Ok (list @ pk @ signature))))"

text \<open>
  The parts loop of the handler, with \<open>n\<close> parts to go. \<open>spare\<close> is what lies behind the
  message in its backing array, which the slice expressions may reach.
\<close>

primrec parse_parts ::
  "bytes \<Rightarrow> bytes \<Rightarrow> nat \<Rightarrow> nat \<Rightarrow> string list \<Rightarrow> (string list \<times> nat) outcome" where
  "parse_parts spare msg 0 cursor parts = Ok (parts, cursor)"
| "parse_parts spare msg (Suc n) cursor parts =
     obind (go_slice spare msg cursor (cursor + 2)) (\<lambda>lb.
       let len = unat (DecodeEndian lb); cursor = cursor + 2 in
       if length msg < cursor + len then Err (GoError ''Invalid message'' [])
       else obind (go_slice spare msg cursor (cursor + len)) (\<lambda>part.
         parse_parts spare msg n (cursor + len) (parts @ [string_of_bytes part])))"

text \<open>
  From the message to the arguments of \<open>AddStorageLocation\<close>: the hash, the announcing node
  and the location.
\<close>

definition parse_storage_location ::
  "ed25519_lib \<Rightarrow> bytes \<Rightarrow> bytes \<Rightarrow> (Multihash \<times> NodeId \<times> StorageLocationImpl) outcome" where
  "parse_storage_location ed spare msg =
     obind (go_slice spare msg 1 34) (\<lambda>hashBytes.
     obind (go_index msg 34) (\<lambda>typeOfData.
     obind (go_slice spare msg 35 39) (\<lambda>expiryBytes.
     obind (go_index msg 39) (\<lambda>partCount.
     obind (parse_parts spare msg (unat partCount) 40 []) (\<lambda>(parts, cursor).
     let cursor = cursor + 1 in
     obind (go_slice spare msg cursor (cursor + 33)) (\<lambda>publicKey.
     obind (go_from msg (cursor + 33)) (\<lambda>signature.
     obind (go_index publicKey 0) (\<lambda>kind.
       if uint kind \<noteq> HashTypeEd25519
       then Err (GoError ''Unsupported public key type'' [uint kind])
       else
     obind (go_slice spare msg 0 cursor) (\<lambda>signed.
     obind (obind (go_from publicKey 1) (\<lambda>pk. ed25519_Verify ed pk signed signature)) (\<lambda>ok.
       if \<not> ok then Err (GoError ''Signature verification failed'' [])
       else Ok (NewMultihash hashBytes, NewNodeId publicKey,
                NewStorageLocation (uint typeOfData) parts (uint (DecodeEndian expiryBytes)))))))))))))"

subsection \<open>The parser reads what the announcement writes\<close>

definition parts_bytes :: "string list \<Rightarrow> bytes" where
  "parts_bytes parts = concat (map (\<lambda>part. EncodeEndian (word_of_nat (length part)) 2 @ bytes_of_string part) parts)"

lemma parts_bytes_simps [simp]:
  "parts_bytes [] = []"
  "parts_bytes (p # ps) = EncodeEndian (word_of_nat (length p)) 2 @ bytes_of_string p @ parts_bytes ps"
  by (simp_all add: parts_bytes_def)

lemma decode_length2: "n < 65536 \<Longrightarrow> unat (DecodeEndian (EncodeEndian (word_of_nat n) 2)) = n"
  using DecodeEndian_EncodeEndian_small [of "word_of_nat n" 2] by (simp add: unat_of_nat)

lemma parse_parts_bytes:
  assumes "\<forall>p \<in> set ps. length p < 65536" "length pre = cursor"
  shows "parse_parts spare (pre @ parts_bytes ps @ rest) (length ps) cursor acc =
    Ok (acc @ ps, cursor + length (parts_bytes ps))"
  using assms
proof (induction ps arbitrary: pre cursor acc)
  case (Cons p ps)
  let ?l = "EncodeEndian (word_of_nat (length p)) 2" and ?b = "bytes_of_string p"
  let ?msg = "pre @ ?l @ ?b @ parts_bytes ps @ rest"
  have 1: "go_slice spare ?msg cursor (cursor + 2) = Ok ?l"
    using Cons.prems by (simp add: go_slice_within)
  have 2: "go_slice spare ?msg (cursor + 2) (cursor + 2 + length p) = Ok ?b"
    using Cons.prems by (simp add: go_slice_within)
  have "parse_parts spare ((pre @ ?l @ ?b) @ parts_bytes ps @ rest) (length ps) (cursor + 2 + length p) (acc @ [p])
      = Ok ((acc @ [p]) @ ps, cursor + 2 + length p + length (parts_bytes ps))"
    by (rule Cons.IH) (use Cons.prems in simp_all)
  then show ?case
    using Cons.prems 1 2 by (simp add: decode_length2 add.assoc)
qed simp

lemma provide_list_layout:
  "provide_list hash loc =
     0x05 # fullBytes hash @ to_byte (sl_kind loc) # EncodeEndian (word_of_int (sl_expiry loc)) 4
       @ word_of_nat (length (sl_parts loc)) # parts_bytes (sl_parts loc) @ [0]"
  by (simp add: provide_list_def parts_bytes_def Let_def go_consts)

lemma parse_storage_layout:
  assumes "length h = 33" "length eb = 4" "length pk = 32" "length ps < 256" "\<forall>p \<in> set ps. length p < 65536"
    and list: "list = c # h @ k # eb @ word_of_nat (length ps) # parts_bytes ps @ [0]"
    and "length sig = 64" "ed_verify ed pk list sig"
  shows "parse_storage_location ed spare (list @ (0xed # pk) @ sig) =
    Ok (NewMultihash h, NewNodeId (0xed # pk), NewStorageLocation (uint k) ps (uint (DecodeEndian eb)))"
proof -
  let ?n = "word_of_nat (length ps) :: byte"
  let ?msg = "list @ (0xed # pk) @ sig" and ?m = "length list"
  have n: "unat ?n = length ps" using assms by (simp add: unat_of_nat)
  have m: "?m = 41 + length (parts_bytes ps)" using assms by (simp add: list)
  have msg: "?msg = (c # h @ k # eb @ [?n]) @ parts_bytes ps @ (0 # (0xed # pk) @ sig)"
    by (simp add: list)
  have long: "40 \<le> length ?msg" by (simp add: m)
  have 1: "go_slice spare ?msg 1 34 = Ok h" "go_index ?msg 34 = Ok k"
    "go_slice spare ?msg 35 39 = Ok eb" "go_index ?msg 39 = Ok ?n"
    using assms(1,2) unfolding msg by (simp_all add: go_slice_within go_index_def nth_append)
  have 2: "parse_parts spare ?msg (unat ?n) 40 [] = Ok (ps, ?m - 1)"
    unfolding msg n using assms by (subst parse_parts_bytes) (simp_all add: m)
  have 3: "?m - 1 + 1 = ?m" by (simp add: m)
  have 4: "go_slice spare ?msg ?m (?m + 33) = Ok (0xed # pk)" "go_from ?msg (?m + 33) = Ok sig"
    "go_slice spare ?msg 0 ?m = Ok list"
    using assms(3) by (simp_all add: go_slice_within)
  show ?thesis
    using assms(3,7,8)
    by (simp only: parse_storage_location_def 1 2 3 4 obind_simps Let_def split)
      (simp add: HashTypeEd25519_def ed25519_Verify_def)
qed


subsection \<open>What the parser accepts is signed\<close>

lemma parse_parts_cursor: "parse_parts spare msg n cursor acc = Ok (ps, c) \<Longrightarrow> cursor \<le> c"
  by (induction n arbitrary: cursor acc) (fastforce simp: obind_eq_Ok Let_def split: if_splits)+

lemma parse_storage_Ok:
  assumes "parse_storage_location ed spare msg = Ok (h, node, loc)"
  obtains signed sig where "msg = signed @ node_bytes node @ sig" "41 \<le> length signed" "length sig = 64"
    "length (node_bytes node) = 33" "node_bytes node ! 0 = 0xed"
    "ed_verify ed (drop 1 (node_bytes node)) signed sig"
    "fullBytes h = take 33 (drop 1 signed)" "sl_kind loc = uint (signed ! 34)"
    "sl_expiry loc = uint (DecodeEndian (take 4 (drop 35 signed)))"
proof -
  from assms obtain hb k eb n ps c0 pk sig kind sg where
    hb: "go_slice spare msg 1 34 = Ok hb" and k: "go_index msg 34 = Ok k"
    and eb: "go_slice spare msg 35 39 = Ok eb"
    and ps: "parse_parts spare msg (unat (n :: byte)) 40 [] = Ok (ps, c0)"
    and pk: "go_slice spare msg (c0 + 1) (c0 + 1 + 33) = Ok pk"
    and sig: "go_from msg (c0 + 1 + 33) = Ok sig"
    and kind: "go_index pk 0 = Ok kind" "uint kind = HashTypeEd25519"
    and sg: "go_slice spare msg 0 (c0 + 1) = Ok sg"
    and ver: "obind (go_from pk 1) (\<lambda>p. ed25519_Verify ed p sg sig) = Ok True"
    and res: "h = NewMultihash hb" "node = NewNodeId pk" "loc = NewStorageLocation (uint k) ps (uint (DecodeEndian eb))"
    unfolding parse_storage_location_def Let_def
    by (auto simp: obind_eq_Ok split: if_splits prod.splits)
  have c: "40 \<le> c0" using parse_parts_cursor [OF ps] .
  have len: "c0 + 34 \<le> length msg" using sig by (auto simp: go_from_def split: if_splits)
  have sg': "sg = take (c0 + 1) msg" using sg len by (simp add: go_slice_within)
  have pk': "pk = take 33 (drop (c0 + 1) msg)" using pk len by (simp add: go_slice_within)
  have sig': "sig = drop (c0 + 34) msg" using sig len by (simp add: add.commute)
  have lpk: "length pk = 33" using pk' len by simp
  have "msg = sg @ pk @ sig"
  proof -
    have "drop (c0 + 1) msg = pk @ sig"
      unfolding pk' sig' by (rule drop_split) simp
    then show ?thesis by (metis sg' append_take_drop_id)
  qed
  moreover have "length sig = 64 \<and> ed_verify ed (drop 1 pk) sg sig"
    using ver lpk by (simp add: ed25519_Verify_def)
  moreover have "kind = 0xed"
  proof -
    have "uint kind = uint (0xed :: byte)" using kind(2) by (simp add: HashTypeEd25519_def)
    then show ?thesis by (simp only: word_uint_eqI)
  qed
  moreover have "kind = pk ! 0" using kind(1) lpk by simp
  moreover have "hb = take 33 (drop 1 sg)" "k = sg ! 34" "eb = take 4 (drop 35 sg)"
    using hb k eb c len by (simp_all add: sg' go_slice_within drop_take)
  ultimately show thesis
    using that [of sg sig] res lpk sg' c len by (simp add: NewNodeId_def NewMultihash_def NewStorageLocation_def)
qed


section \<open>The location map\<close>

text \<open>
  Locations by kind, node and field number. Fields are 1 (parts), 3 (expiry) and 4 (the
  announcement).
\<close>

type_synonym NodeDetailsStorage = "(int, goval) gomap"
type_synonym NodeStorage = "(string, NodeDetailsStorage) gomap"
type_synonym StorageLocationMap = "(int, NodeStorage) gomap"

definition NewStorageLocationMap :: StorageLocationMap where
  "NewStorageLocationMap = NewMap"

text \<open>\<open>v\<close>'s entries into \<open>m\<close>, one \<open>Put\<close> each, as the loops of the hooks do.\<close>

definition put_all :: "('k, 'v) gomap \<Rightarrow> ('k, 'v) gomap \<Rightarrow> ('k, 'v) gomap" where
  "put_all m v = fold (\<lambda>(k, x) acc. Map_Put acc k x) v m"

text \<open>The encoder copies two levels into a temporary map; the package encodes that map.\<close>

definition StorageLocationMap_EncodeMsgpack :: "(StorageLocationMap \<Rightarrow> bytes) \<Rightarrow> StorageLocationMap \<Rightarrow> bytes" where
  "StorageLocationMap_EncodeMsgpack enc s =
     enc (put_all NewMap (map (\<lambda>(storageKey, nodeStorages). (storageKey, put_all NewMap nodeStorages)) s))"

text \<open>The decoder merges what the package decodes into the map it is called on.\<close>

definition merge_node :: "NodeStorage \<Rightarrow> NodeStorage \<Rightarrow> NodeStorage" where
  "merge_node nodeStorage v =
     fold (\<lambda>(nk, nv) acc.
       Map_Put acc nk (put_all (case Map_Get acc nk of None \<Rightarrow> NewMap | Some d \<Rightarrow> d) nv)) v nodeStorage"

definition StorageLocationMap_DecodeMsgpack ::
  "(bytes \<Rightarrow> StorageLocationMap outcome) \<Rightarrow> StorageLocationMap \<Rightarrow> bytes \<Rightarrow> StorageLocationMap outcome" where
  "StorageLocationMap_DecodeMsgpack dec s bs =
     obind (dec bs) (\<lambda>temp. Ok (fold (\<lambda>(k, v) acc.
       Map_Put acc k (merge_node (case Map_Get acc k of None \<Rightarrow> NewMap | Some n \<Rightarrow> n) v)) temp s))"

text \<open>The map as its users see it: nested lookups.\<close>

definition node_view :: "NodeStorage \<Rightarrow> string \<Rightarrow> (int \<Rightarrow> goval option) option" where
  "node_view ns n = map_option Map_Get (Map_Get ns n)"

definition loc_view :: "StorageLocationMap \<Rightarrow> int \<Rightarrow> (string \<Rightarrow> (int \<Rightarrow> goval option) option) option" where
  "loc_view m t = map_option node_view (Map_Get m t)"

definition loc_wf :: "StorageLocationMap \<Rightarrow> bool" where
  "loc_wf m \<longleftrightarrow> map_inv m \<and>
     list_all (\<lambda>(t, ns). map_inv ns \<and> list_all (\<lambda>(n, d). map_inv d) ns) m"

text \<open>
  A slice of strings comes back as a slice of interfaces; bytes, strings and 64-bit integers
  keep their type.
\<close>

fun forget :: "goval \<Rightarrow> goval" where
  "forget (VStrings ss) = VSlice (map VStr ss)"
| "forget v = v"

definition forget_view :: "(int \<Rightarrow> (string \<Rightarrow> (int \<Rightarrow> goval option) option) option) \<Rightarrow>
    int \<Rightarrow> (string \<Rightarrow> (int \<Rightarrow> goval option) option) option" where
  "forget_view w = (\<lambda>t. map_option (\<lambda>ns n. map_option (\<lambda>d f. map_option forget (d f)) (ns n)) (w t))"

text \<open>
  What the package documents of encoding a map of maps and decoding into an empty one, for
  the sizes of the format and the values the repository stores.
\<close>

fun loc_value :: "goval \<Rightarrow> bool" where
  "loc_value (VStrings ss) = (length ss < 2 ^ 32 \<and> list_all (\<lambda>s. length s < 2 ^ 32) ss)"
| "loc_value (VSlice vs) = (length vs < 2 ^ 32 \<and>
     list_all (\<lambda>v. case v of VStr s \<Rightarrow> length s < 2 ^ 32 | _ \<Rightarrow> False) vs)"
| "loc_value (VBytes b) = (length b < 2 ^ 32)"
| "loc_value (VInt K_int64 i) = int64_range i"
| "loc_value _ = False"

definition details_ok :: "NodeDetailsStorage \<Rightarrow> bool" where
  "details_ok d \<longleftrightarrow> length d < 2 ^ 32 \<and> list_all (\<lambda>(f, v). int64_range f \<and> loc_value v) d"

definition node_ok :: "NodeStorage \<Rightarrow> bool" where
  "node_ok ns \<longleftrightarrow> length ns < 2 ^ 32 \<and> list_all (\<lambda>(n, d). length n < 2 ^ 32 \<and> details_ok d) ns"

definition loc_ok :: "StorageLocationMap \<Rightarrow> bool" where
  "loc_ok m \<longleftrightarrow> loc_wf m \<and> length m < 2 ^ 32 \<and> list_all (\<lambda>(t, ns). int64_range t \<and> node_ok ns) m"

definition locmap_laws :: "(StorageLocationMap \<Rightarrow> bytes) \<Rightarrow> (bytes \<Rightarrow> StorageLocationMap outcome) \<Rightarrow> bool" where
  "locmap_laws enc dec \<longleftrightarrow>
     (\<forall>m. loc_ok m \<longrightarrow> (\<exists>m'. dec (enc m) = Ok m' \<and> loc_view m' = forget_view (loc_view m))) \<and>
     (\<forall>bs m'. dec bs = Ok m' \<longrightarrow> loc_wf m' \<and> forget_view (loc_view m') = loc_view m')"

lemma put_all_fresh:
  "map_inv (m @ v) \<Longrightarrow> put_all m v = m @ v"
proof (induction v arbitrary: m)
  case (Cons x v)
  obtain k y where x: "x = (k, y)" by fastforce
  have "k \<notin> fst ` set m" using Cons.prems by (auto simp: map_inv_def x)
  then have "Map_Put m k y = m @ [x]"
    by (simp add: Map_Put_def x) (induction m, auto)
  then show ?case using Cons.IH [of "m @ [x]"] Cons.prems by (simp add: put_all_def x)
qed (simp add: put_all_def)

lemma put_all_New: "map_inv v \<Longrightarrow> put_all NewMap v = v"
  using put_all_fresh [of "[]" v] by (simp add: NewMap_def)

lemma merge_node_fresh:
  "map_inv (m @ v) \<Longrightarrow> list_all (\<lambda>(n, d). map_inv d) v \<Longrightarrow> merge_node m v = m @ v"
proof (induction v arbitrary: m)
  case (Cons x v)
  obtain k y where x: "x = (k, y)" by fastforce
  have k: "k \<notin> fst ` set m" using Cons.prems by (auto simp: map_inv_def x)
  then have "Map_Put m k y = m @ [x]"
    by (simp add: Map_Put_def x) (induction m, auto)
  moreover have "Map_Get m k = None" using k by (simp add: Map_Get_def map_of_eq_None_iff)
  ultimately show ?case using Cons.IH [of "m @ [x]"] Cons.prems
    by (simp add: merge_node_def x put_all_New)
qed (simp add: merge_node_def)

lemma merge_fresh:
  assumes "map_inv (m @ v)" "list_all (\<lambda>(t, ns). map_inv ns \<and> list_all (\<lambda>(n, d). map_inv d) ns) v"
  shows "fold (\<lambda>(k, v) acc. Map_Put acc k
    (merge_node (case Map_Get acc k of None \<Rightarrow> NewMap | Some n \<Rightarrow> n) v)) v m = m @ v"
  using assms
proof (induction v arbitrary: m)
  case (Cons x v)
  obtain k y where x: "x = (k, y)" by fastforce
  have k: "k \<notin> fst ` set m" using Cons.prems by (auto simp: map_inv_def x)
  then have "Map_Put m k y = m @ [x]"
    by (simp add: Map_Put_def x) (induction m, auto)
  moreover have "Map_Get m k = None" using k by (simp add: Map_Get_def map_of_eq_None_iff)
  moreover have "merge_node NewMap y = y"
    using merge_node_fresh [of "[]" y] Cons.prems by (simp add: NewMap_def x)
  ultimately show ?case using Cons.IH [of "m @ [x]"] Cons.prems by (simp add: x)
qed simp

lemma locmap_decode:
  assumes "locmap_laws enc dec" "dec bs = Ok m"
  shows "StorageLocationMap_DecodeMsgpack dec NewStorageLocationMap bs = Ok m \<and> loc_wf m \<and>
    forget_view (loc_view m) = loc_view m"
proof -
  have "loc_wf m" "forget_view (loc_view m) = loc_view m"
    using assms unfolding locmap_laws_def by blast+
  then show ?thesis
    using merge_fresh [of "[]" m] assms(2)
    by (simp add: StorageLocationMap_DecodeMsgpack_def NewStorageLocationMap_def NewMap_def loc_wf_def)
qed

lemma locmap_encode: "loc_wf m \<Longrightarrow> StorageLocationMap_EncodeMsgpack enc m = enc m"
proof -
  assume wf: "loc_wf m"
  then have "map (\<lambda>(k, ns). (k, put_all NewMap ns)) m = m"
    by (intro map_idI) (auto simp: loc_wf_def list_all_iff put_all_New)
  then show ?thesis
    using wf by (simp add: StorageLocationMap_EncodeMsgpack_def put_all_New loc_wf_def)
qed

lemma locmap_roundtrip:
  assumes "locmap_laws enc dec" "loc_ok m"
  obtains m' where "StorageLocationMap_DecodeMsgpack dec NewStorageLocationMap
      (StorageLocationMap_EncodeMsgpack enc m) = Ok m'" "loc_wf m'" "loc_view m' = forget_view (loc_view m)"
proof -
  from assms obtain m' where m': "dec (enc m) = Ok m'" "loc_view m' = forget_view (loc_view m)"
    unfolding locmap_laws_def by blast
  then show thesis
    using that locmap_decode [OF assms(1) m'(1)] assms(2) m' by (simp add: locmap_encode loc_ok_def)
qed


section \<open>A lawful instance\<close>

text \<open>For the witnesses: counted sequences over the widest msgpack forms.\<close>

definition put_seq :: "('a \<Rightarrow> bytes) \<Rightarrow> 'a list \<Rightarrow> bytes" where
  "put_seq e xs = rev (EncodeEndian (word_of_nat (length xs)) 4) @ concat (map e xs)"

primrec get_many :: "(bytes \<Rightarrow> ('a \<times> bytes) outcome) \<Rightarrow> nat \<Rightarrow> bytes \<Rightarrow> ('a list \<times> bytes) outcome" where
  "get_many d 0 bs = Ok ([], bs)"
| "get_many d (Suc n) bs = obind (d bs) (\<lambda>(x, r). obind (get_many d n r) (\<lambda>(xs, r'). Ok (x # xs, r')))"

definition get_seq :: "(bytes \<Rightarrow> ('a \<times> bytes) outcome) \<Rightarrow> bytes \<Rightarrow> ('a list \<times> bytes) outcome" where
  "get_seq d bs = obind (be_take 4 bs) (\<lambda>(n, r). get_many d (unat n) r)"

definition put_pair :: "('a \<Rightarrow> bytes) \<Rightarrow> ('b \<Rightarrow> bytes) \<Rightarrow> 'a \<times> 'b \<Rightarrow> bytes" where
  "put_pair e f = (\<lambda>(x, y). e x @ f y)"

definition get_pair ::
  "(bytes \<Rightarrow> ('a \<times> bytes) outcome) \<Rightarrow> (bytes \<Rightarrow> ('b \<times> bytes) outcome) \<Rightarrow> bytes \<Rightarrow> (('a \<times> 'b) \<times> bytes) outcome" where
  "get_pair d f bs = obind (d bs) (\<lambda>(x, r). obind (f r) (\<lambda>(y, r'). Ok ((x, y), r')))"

definition put_str :: "string \<Rightarrow> bytes" where "put_str s = wide_raw 0xdb (bytes_of_string s)"

definition get_str :: "bytes \<Rightarrow> (string \<times> bytes) outcome" where
  "get_str bs = obind (read_raw 0xdb bs) (\<lambda>(x, r). Ok (string_of_bytes x, r))"

fun put_val :: "goval \<Rightarrow> bytes" where
  "put_val (VStrings ss) = 1 # put_seq put_str ss"
| "put_val (VSlice vs) = 1 # put_seq put_str (map (\<lambda>v. case v of VStr s \<Rightarrow> s | _ \<Rightarrow> []) vs)"
| "put_val (VBytes b) = 2 # wide_raw 0xc6 b"
| "put_val (VInt k i) = 3 # wide_int i"
| "put_val _ = []"

definition get_val :: "bytes \<Rightarrow> (goval \<times> bytes) outcome" where
  "get_val bs = (case bs of [] \<Rightarrow> Err (LibError ''EOF'') | c # r \<Rightarrow>
     if c = 1 then obind (get_seq get_str r) (\<lambda>(ss, r'). Ok (VSlice (map VStr ss), r'))
     else if c = 2 then obind (read_raw 0xc6 r) (\<lambda>(b, r'). Ok (VBytes b, r'))
     else if c = 3 then obind (read_int r) (\<lambda>(i, r'). Ok (VInt K_int64 i, r'))
     else Err (LibError ''code''))"

definition forget_map :: "StorageLocationMap \<Rightarrow> StorageLocationMap" where
  "forget_map = map (\<lambda>(t, ns). (t, map (\<lambda>(n, d). (n, map (\<lambda>(f, v). (f, forget v)) d)) ns))"

definition plain_locmap_enc :: "StorageLocationMap \<Rightarrow> bytes" where
  "plain_locmap_enc = put_seq (put_pair wide_int (put_seq (put_pair put_str (put_seq (put_pair wide_int put_val)))))"

definition plain_locmap_dec :: "bytes \<Rightarrow> StorageLocationMap outcome" where
  "plain_locmap_dec bs = obind (get_seq (get_pair read_int (get_seq (get_pair get_str (get_seq (get_pair read_int get_val))))) bs)
     (\<lambda>(m, _). if loc_wf m \<and> forget_map m = m then Ok m else Err (LibError ''invalid''))"

lemma get_seq_put:
  assumes "length xs < 2 ^ 32" "\<And>x r. x \<in> set xs \<Longrightarrow> d (e x @ r) = Ok (f x, r)"
  shows "get_seq d (put_seq e xs @ r) = Ok (map f xs, r)"
proof -
  have len: "unat (word_of_nat (length xs) :: u64) = length xs" using assms(1) by (simp add: unat_of_nat)
  have "get_many d (length xs) (concat (map e xs) @ r) = Ok (map f xs, r)"
    using assms(2) by (induction xs) simp_all
  then show ?thesis using assms(1) len by (simp add: get_seq_def put_seq_def be_take_encoded)
qed

lemma get_pair_put:
  assumes "\<And>r. d (e x @ r) = Ok (x', r)" "\<And>r. f (g y @ r) = Ok (y', r)"
  shows "get_pair d f (put_pair e g (x, y) @ r) = Ok ((x', y'), r)"
  by (simp add: get_pair_def put_pair_def assms)

lemma get_str_put: "length s < 2 ^ 32 \<Longrightarrow> get_str (put_str s @ r) = Ok (s, r)"
  by (simp add: get_str_def put_str_def read_wide_raw)

lemma get_val_put: "loc_value v \<Longrightarrow> get_val (put_val v @ r) = Ok (forget v, r)"
proof (induction v rule: loc_value.induct)
  case (1 ss)
  have "get_seq get_str (put_seq put_str ss @ r) = Ok (map (\<lambda>s. s) ss, r)"
    by (rule get_seq_put) (use 1 in \<open>auto simp: get_str_put list_all_iff\<close>)
  then show ?case by (simp add: get_val_def)
next
  case (2 vs)
  let ?s = "\<lambda>v. case v of VStr s \<Rightarrow> s | _ \<Rightarrow> []"
  have "get_seq get_str (put_seq put_str (map ?s vs) @ r) = Ok (map (\<lambda>s. s) (map ?s vs), r)"
    by (rule get_seq_put) (use 2 in \<open>auto simp: get_str_put list_all_iff split: goval.splits\<close>)
  moreover have "map (VStr \<circ> ?s) vs = vs"
    using 2 by (intro map_idI) (auto simp: list_all_iff split: goval.splits)
  ultimately show ?case by (simp add: get_val_def)
qed (simp_all add: get_val_def read_wide_raw read_wide_int)

lemma Map_Get_map: "Map_Get (map (\<lambda>(k, v). (k, f v)) m) = (\<lambda>j. map_option f (Map_Get m j))"
  by (simp add: fun_eq_iff Map_Get_def map_of_map)

lemma fst_map_snd: "map fst (map (\<lambda>(k, v). (k, f v)) m) = map fst m"
  by (simp add: comp_def case_prod_unfold)

lemma forget_idem [simp]: "forget (forget v) = forget v"
  by (cases v) simp_all

lemma forget_map_wf: "loc_wf m \<Longrightarrow> loc_wf (forget_map m)"
  by (fastforce simp: loc_wf_def forget_map_def map_inv_def fst_map_snd list_all_iff simp del: map_map)

lemma forget_map_view: "loc_view (forget_map m) = forget_view (loc_view m)"
  by (simp add: fun_eq_iff loc_view_def node_view_def [abs_def] forget_view_def forget_map_def Map_Get_map
      option.map_comp comp_def)

lemma plain_locmap_laws: "locmap_laws plain_locmap_enc plain_locmap_dec"
proof -
  have "plain_locmap_dec (plain_locmap_enc m) = Ok (forget_map m)" if ok: "loc_ok m" for m
  proof -
    have details: "get_seq (get_pair read_int get_val) (put_seq (put_pair wide_int put_val) d @ r)
        = Ok (map (\<lambda>(f, v). (f, forget v)) d, r)" if "details_ok d" for d r
      using that by (intro get_seq_put) (auto simp: details_ok_def list_all_iff
          intro!: get_pair_put read_wide_int get_val_put)
    have nodes: "get_seq (get_pair get_str (get_seq (get_pair read_int get_val)))
        (put_seq (put_pair put_str (put_seq (put_pair wide_int put_val))) ns @ r)
        = Ok (map (\<lambda>(n, d). (n, map (\<lambda>(f, v). (f, forget v)) d)) ns, r)" if "node_ok ns" for ns r
      using that by (intro get_seq_put) (auto simp: node_ok_def list_all_iff
          intro!: get_pair_put get_str_put details)
    have "get_seq (get_pair read_int (get_seq (get_pair get_str (get_seq (get_pair read_int get_val)))))
        (plain_locmap_enc m @ []) = Ok (forget_map m, [])"
      unfolding plain_locmap_enc_def forget_map_def
      using ok by (intro get_seq_put) (auto simp: loc_ok_def list_all_iff
          intro!: get_pair_put read_wide_int nodes)
    moreover have "loc_wf (forget_map m)" using ok by (simp add: loc_ok_def forget_map_wf)
    moreover have "forget_map (forget_map m) = forget_map m"
      by (simp add: forget_map_def case_prod_unfold)
    ultimately show ?thesis by (simp add: plain_locmap_dec_def)
  qed
  note enc = this
  have "loc_wf m'" "forget_map m' = m'" if "plain_locmap_dec bs = Ok m'" for bs m'
    using that by (auto simp: plain_locmap_dec_def obind_eq_Ok split: if_splits)
  then have dec: "loc_wf m'" "forget_view (loc_view m') = loc_view m'"
    if "plain_locmap_dec bs = Ok m'" for bs m'
    using that forget_map_view by metis+
  show ?thesis
    unfolding locmap_laws_def using enc forget_map_view dec by blast
qed

lemma provide_message_kind:
  assumes "PrepareProvideMessage ed kp hash loc = Ok msg"
  obtains rest where "msg = 5 # rest"
  using assms by (auto simp: PrepareProvideMessage_def provide_list_def Let_def obind_eq_Ok go_consts)

lemma announcement_read:
  assumes "usable_key ed kp" "length (fullBytes hash) = 33" "0 \<le> kind" "kind < 256"
    and "length parts < 256" "\<forall>p \<in> set parts. length p < 65536"
  shows "\<exists>msg pk. PrepareProvideMessage ed kp hash (NewStorageLocation kind parts expiry) = Ok msg \<and>
    PublicKey kp = Ok pk \<and>
    (\<forall>spare. parse_storage_location ed spare msg =
      Ok (hash, NewNodeId pk, NewStorageLocation kind parts (expiry mod 2 ^ 32)))"
proof -
  let ?loc = "NewStorageLocation kind parts expiry"
  let ?list = "provide_list hash ?loc" and ?pk = "drop 32 (kp_Bytes kp)"
  obtain sig where sig: "ed25519_Sign ed (ExtractBytes kp) ?list = Ok sig" "length sig = 64"
    "ed25519_Verify ed ?pk ?list sig = Ok True"
    using assms(1) by (rule sign_verify)
  have pk: "length ?pk = 32" using assms(1) by (simp add: usable_key_def)
  have "uint (DecodeEndian (EncodeEndian v 4)) = uint v mod 2 ^ 32" for v :: u64
  proof -
    have "unat (word_of_nat (unat v mod 2 ^ 32) :: u64) = unat v mod 2 ^ 32"
      using mod_less_divisor [of "2 ^ 32" "unat v"] by (simp add: unat_of_nat)
    then have "unat (DecodeEndian (EncodeEndian v 4)) = unat v mod 2 ^ 32"
      by (simp add: DecodeEndian_EncodeEndian)
    then show ?thesis by (metis of_nat_mod of_nat_numeral of_nat_power uint_nat)
  qed
  also have "uint (word_of_int expiry :: u64) mod 2 ^ 32 = expiry mod 2 ^ 32"
    by (simp add: uint_word_of_int mod_mod_cancel)
  finally have expiry: "uint (DecodeEndian (EncodeEndian (word_of_int expiry) 4)) = expiry mod 2 ^ 32" .
  have "parse_storage_location ed spare (?list @ (0xed # ?pk) @ sig) =
      Ok (NewMultihash (fullBytes hash), NewNodeId (0xed # ?pk),
        NewStorageLocation (uint (to_byte kind)) parts
          (uint (DecodeEndian (EncodeEndian (word_of_int expiry) 4))))" for spare
    by (rule parse_storage_layout)
      (use assms pk sig in \<open>simp_all add: provide_list_layout NewStorageLocation_def ed25519_Verify_def\<close>)
  then show ?thesis
    using sig PublicKey_usable [OF assms(1)] assms(3,4)
    by (simp add: PrepareProvideMessage_def expiry uint_to_byte NewMultihash_def)
qed

section \<open>Properties\<close>

text \<open>
  C15: an announcement is read back by the handler's parser: for a usable key, a 33-byte hash,
  a one-byte kind, less than 256 parts and parts of less than 64 KiB, the message parses, with
  whatever lies behind it, to the hash, the announcing node and the location, with its expiry
  cut to 32 bits.
\<close>
theorem announcement_roundtrip:
  assumes "usable_key ed kp" "length (fullBytes hash) = 33" "0 \<le> kind" "kind < 256"
    and "length parts < 256" "\<forall>p \<in> set parts. length p < 65536"
  shows "\<exists>msg pk. PrepareProvideMessage ed kp hash (NewStorageLocation kind parts expiry) = Ok msg \<and>
    PublicKey kp = Ok pk \<and>
    parse_storage_location ed spare msg =
      Ok (hash, NewNodeId pk, NewStorageLocation kind parts (expiry mod 2 ^ 32))"
  using announcement_read [OF assms] by blast

theorem announcement_roundtrip_witness:
  "\<exists>msg pk. PrepareProvideMessage plain_ed25519 \<lparr>kp_Bytes = replicate 64 5\<rparr> (NewMultihash (replicate 33 1))
       (NewStorageLocation 3 [''https://a''] (2 ^ 32 + 7)) = Ok msg \<and>
     PublicKey \<lparr>kp_Bytes = replicate 64 5\<rparr> = Ok pk \<and>
     parse_storage_location plain_ed25519 [] msg =
       Ok (NewMultihash (replicate 33 1), NewNodeId pk, NewStorageLocation 3 [''https://a''] ((2 ^ 32 + 7) mod 2 ^ 32))"
  by (rule announcement_roundtrip [OF plain_usable_key]) (simp_all add: NewMultihash_def)

text \<open>
  C16: what the handler accepts is authentic. An accepted message is a signed part, the node's
  33-byte ed25519 identity and a 64-byte signature of the signed part under that identity, and
  hash, kind and expiry are those of the signed part.
\<close>
theorem announcement_authentic:
  assumes "parse_storage_location ed spare msg = Ok (hash, node, loc)"
  shows "\<exists>signed sig. msg = signed @ node_bytes node @ sig \<and> length sig = 64 \<and>
    length (node_bytes node) = 33 \<and> node_bytes node ! 0 = 0xed \<and>
    ed_verify ed (drop 1 (node_bytes node)) signed sig \<and>
    fullBytes hash = take 33 (drop 1 signed) \<and> sl_kind loc = uint (signed ! 34) \<and>
    sl_expiry loc = uint (DecodeEndian (take 4 (drop 35 signed)))"
  using assms by (rule parse_storage_Ok) blast

theorem announcement_authentic_witness:
  "\<exists>signed sig. (0x05 # replicate 33 1 @ 3 # replicate 4 2 @ 0 # [0]) @ (0xed # replicate 32 7) @ replicate 64 7
      = signed @ node_bytes (NewNodeId (0xed # replicate 32 7)) @ sig \<and>
     ed_verify plain_ed25519 (drop 1 (node_bytes (NewNodeId (0xed # replicate 32 7)))) signed sig"
proof -
  have "parse_storage_location plain_ed25519 []
      ((0x05 # replicate 33 1 @ 3 # replicate 4 2 @ 0 # [0]) @ (0xed # replicate 32 7) @ replicate 64 7) =
      Ok (NewMultihash (replicate 33 1), NewNodeId (0xed # replicate 32 7),
        NewStorageLocation (uint (3 :: byte)) [] (uint (DecodeEndian (replicate 4 2))))"
    by (rule parse_storage_layout) (simp_all add: plain_ed25519_def replicate_add [symmetric])
  from announcement_authentic [OF this] show ?thesis by blast
qed

end
