(* ===== verification/KV_Store.thy ===== *)
theory KV_Store
  imports Prelude
begin

text \<open>
  \<open>db/db.go\<close> and \<open>db/lru.go\<close>: the interfaces \<open>KVStore\<close> and \<open>Cache\<close>, each a record of its
  methods (the Go interface value) with a locale for the contract its clients rely on, and
  the LRU cache as a provider of \<open>Cache\<close>. The state a method call reads and changes is passed
  and returned.
\<close>

section \<open>The cache interface\<close>

record 'c Cache =
  ca_Get :: "bytes \<Rightarrow> 'c \<Rightarrow> bytes option \<times> 'c"
  ca_Put :: "bytes \<Rightarrow> bytes \<Rightarrow> 'c \<Rightarrow> 'c"
  ca_Delete :: "bytes \<Rightarrow> 'c \<Rightarrow> 'c"

text \<open>
  \<open>held\<close> is what the cache currently holds. A cache may forget entries at any call; it never
  answers with anything but the last value put and not deleted.
\<close>

locale byte_cache =
  fixes ca :: "'c Cache"
    and held :: "'c \<Rightarrow> bytes \<rightharpoonup> bytes"
    and cinv :: "'c \<Rightarrow> bool"
  assumes cache_get: "cinv s \<Longrightarrow> ca_Get ca k s = (r, s') \<Longrightarrow> r = held s k \<and> held s' \<subseteq>\<^sub>m held s \<and> cinv s'"
    and cache_put: "cinv s \<Longrightarrow> held (ca_Put ca k v s) \<subseteq>\<^sub>m (held s)(k \<mapsto> v) \<and> cinv (ca_Put ca k v s)"
    and cache_delete: "cinv s \<Longrightarrow> held (ca_Delete ca k s) \<subseteq>\<^sub>m (held s)(k := None) \<and> cinv (ca_Delete ca k s)"
begin

text \<open>A cache that is a part of a map stays one when the map and the cache change together.\<close>

lemma sound_get:
  "cinv s \<Longrightarrow> held s \<subseteq>\<^sub>m m \<Longrightarrow> ca_Get ca k s = (Some v, s') \<Longrightarrow> m k = Some v"
  by (metis cache_get map_le_def domI)

lemma sound_get_frame:
  "cinv s \<Longrightarrow> held s \<subseteq>\<^sub>m m \<Longrightarrow> ca_Get ca k s = (r, s') \<Longrightarrow> cinv s' \<and> held s' \<subseteq>\<^sub>m m"
  by (metis cache_get map_le_trans)

lemma sound_put:
  "cinv s \<Longrightarrow> held s \<subseteq>\<^sub>m m \<Longrightarrow> cinv (ca_Put ca k v s) \<and> held (ca_Put ca k v s) \<subseteq>\<^sub>m m(k \<mapsto> v)"
  by (metis cache_put map_le_trans map_le_upd)

lemma sound_delete:
  "cinv s \<Longrightarrow> held s \<subseteq>\<^sub>m m \<Longrightarrow> cinv (ca_Delete ca k s) \<and> held (ca_Delete ca k s) \<subseteq>\<^sub>m m(k := None)"
  by (metis cache_delete map_le_trans map_le_upd)

end

section \<open>The cache field of a store\<close>

text \<open>
  Both stores hold a cache that may be nil: a nil cache never hits and stores nothing.
\<close>

definition cache_lookup :: "'c Cache option \<Rightarrow> bytes \<Rightarrow> 'c \<Rightarrow> bytes option \<times> 'c" where
  "cache_lookup cache key cs = (case cache of None \<Rightarrow> (None, cs) | Some c \<Rightarrow> ca_Get c key cs)"

definition cache_store :: "'c Cache option \<Rightarrow> bytes \<Rightarrow> bytes \<Rightarrow> 'c \<Rightarrow> 'c" where
  "cache_store cache key val cs = (case cache of None \<Rightarrow> cs | Some c \<Rightarrow> ca_Put c key val cs)"

definition cache_drop :: "'c Cache option \<Rightarrow> bytes \<Rightarrow> 'c \<Rightarrow> 'c" where
  "cache_drop cache key cs = (case cache of None \<Rightarrow> cs | Some c \<Rightarrow> ca_Delete c key cs)"

text \<open>The cache keeps its contract and holds a part of the map \<open>m\<close>.\<close>

definition cache_sound :: "'c Cache option \<Rightarrow> 'c \<Rightarrow> (bytes \<rightharpoonup> bytes) \<Rightarrow> bool" where
  "cache_sound cache cs m \<longleftrightarrow>
     (case cache of None \<Rightarrow> True
      | Some c \<Rightarrow> (\<exists>held cinv. byte_cache c held cinv \<and> cinv cs \<and> held cs \<subseteq>\<^sub>m m))"

lemma cache_sound_lookup:
  assumes "cache_sound cache cs m" "cache_lookup cache k cs = (r, cs')"
  shows "cache_sound cache cs' m \<and> (\<forall>v. r = Some v \<longrightarrow> m k = Some v)"
  using assms unfolding cache_sound_def cache_lookup_def
  by (auto split: option.splits dest: byte_cache.sound_get byte_cache.sound_get_frame)

lemma cache_sound_store:
  "cache_sound cache cs m \<Longrightarrow> cache_sound cache (cache_store cache k v cs) (m(k \<mapsto> v))"
  unfolding cache_sound_def cache_store_def
  by (auto split: option.splits dest: byte_cache.sound_put)

lemma cache_sound_store_same:
  "cache_sound cache cs m \<Longrightarrow> m k = Some v \<Longrightarrow> cache_sound cache (cache_store cache k v cs) m"
  using cache_sound_store [of cache cs m k v] by (simp add: map_upd_triv)

lemma cache_sound_drop:
  "cache_sound cache cs m \<Longrightarrow> cache_sound cache (cache_drop cache k cs) (m(k := None))"
  unfolding cache_sound_def cache_drop_def
  by (auto split: option.splits dest: byte_cache.sound_delete)

section \<open>The LRU cache\<close>

text \<open>
  \<open>LRUCache\<close> wraps a third-party \<open>lru.Cache\<close>, whose methods are a parameter that the struct
  holds, with what they document: a hit is the last value added, an addition or an access may
  evict, and a removal removes.
\<close>

record 'l lru_lib =
  lru_Get :: "string \<Rightarrow> 'l \<Rightarrow> bytes option \<times> 'l"
  lru_Add :: "string \<Rightarrow> bytes \<Rightarrow> 'l \<Rightarrow> 'l"
  lru_Remove :: "string \<Rightarrow> 'l \<Rightarrow> 'l"
  lru_entries :: "'l \<Rightarrow> string \<rightharpoonup> bytes"

definition lru_laws :: "'l lru_lib \<Rightarrow> bool" where
  "lru_laws L \<longleftrightarrow>
     (\<forall>k s. fst (lru_Get L k s) = lru_entries L s k \<and> lru_entries L (snd (lru_Get L k s)) \<subseteq>\<^sub>m lru_entries L s) \<and>
     (\<forall>k v s. lru_entries L (lru_Add L k v s) \<subseteq>\<^sub>m (lru_entries L s)(k \<mapsto> v)) \<and>
     (\<forall>k s. lru_entries L (lru_Remove L k s) \<subseteq>\<^sub>m (lru_entries L s)(k := None))"

record 'l LRUCache =
  lc_lib :: "'l lru_lib"
  lc_cache :: 'l

definition LRUCache_Get :: "bytes \<Rightarrow> 'l LRUCache \<Rightarrow> bytes option \<times> 'l LRUCache" where
  "LRUCache_Get key c =
     (case lru_Get (lc_lib c) (string_of_bytes key) (lc_cache c) of
        (None, s) \<Rightarrow> (None, c\<lparr>lc_cache := s\<rparr>)
      | (Some value, s) \<Rightarrow> (Some value, c\<lparr>lc_cache := s\<rparr>))"

definition LRUCache_Put :: "bytes \<Rightarrow> bytes \<Rightarrow> 'l LRUCache \<Rightarrow> 'l LRUCache" where
  "LRUCache_Put key val c = c\<lparr>lc_cache := lru_Add (lc_lib c) (string_of_bytes key) val (lc_cache c)\<rparr>"

definition LRUCache_Delete :: "bytes \<Rightarrow> 'l LRUCache \<Rightarrow> 'l LRUCache" where
  "LRUCache_Delete key c = c\<lparr>lc_cache := lru_Remove (lc_lib c) (string_of_bytes key) (lc_cache c)\<rparr>"

definition LRUCache_methods :: "'l LRUCache Cache" where
  "LRUCache_methods = \<lparr>ca_Get = LRUCache_Get, ca_Put = LRUCache_Put, ca_Delete = LRUCache_Delete\<rparr>"

definition lru_held :: "'l LRUCache \<Rightarrow> bytes \<rightharpoonup> bytes" where
  "lru_held c = (\<lambda>k. lru_entries (lc_lib c) (lc_cache c) (string_of_bytes k))"

definition lru_inv :: "'l LRUCache \<Rightarrow> bool" where
  "lru_inv c \<longleftrightarrow> lru_laws (lc_lib c)"

lemma map_le_comp: "m \<subseteq>\<^sub>m m' \<Longrightarrow> (\<lambda>k. m (f k)) \<subseteq>\<^sub>m (\<lambda>k. m' (f k))"
  by (auto simp: map_le_def dom_def)

lemma upd_comp_inj: "inj f \<Longrightarrow> (\<lambda>k. (m(f j := v)) (f k)) = (\<lambda>k. m (f k))(j := v)"
  by (auto simp: fun_eq_iff inj_eq)

lemma inj_string_of_bytes: "inj string_of_bytes"
  by (simp add: inj_def)

interpretation lru: byte_cache LRUCache_methods lru_held lru_inv
proof
  fix s :: "'a LRUCache" and k r s'
  assume inv: "lru_inv s" and get: "ca_Get LRUCache_methods k s = (r, s')"
  obtain x t where xt: "lru_Get (lc_lib s) (string_of_bytes k) (lc_cache s) = (x, t)" by fastforce
  with get have "r = x" "s' = s\<lparr>lc_cache := t\<rparr>"
    by (auto simp: LRUCache_methods_def LRUCache_Get_def split: option.splits)
  moreover have "x = lru_entries (lc_lib s) (lc_cache s) (string_of_bytes k)"
    "lru_entries (lc_lib s) t \<subseteq>\<^sub>m lru_entries (lc_lib s) (lc_cache s)"
    using inv xt unfolding lru_inv_def lru_laws_def by (metis fst_conv snd_conv)+
  ultimately show "r = lru_held s k \<and> lru_held s' \<subseteq>\<^sub>m lru_held s \<and> lru_inv s'"
    using inv by (simp add: lru_held_def lru_inv_def map_le_comp)
next
  fix s :: "'a LRUCache" and k v
  assume inv: "lru_inv s"
  let ?e = "lru_entries (lc_lib s) (lc_cache s)"
  from inv have "lru_entries (lc_lib s) (lru_Add (lc_lib s) (string_of_bytes k) v (lc_cache s))
      \<subseteq>\<^sub>m ?e(string_of_bytes k \<mapsto> v)"
    by (simp add: lru_inv_def lru_laws_def)
  from map_le_comp [OF this, of string_of_bytes]
  show "lru_held (ca_Put LRUCache_methods k v s) \<subseteq>\<^sub>m (lru_held s)(k \<mapsto> v) \<and>
      lru_inv (ca_Put LRUCache_methods k v s)"
    using inv by (simp add: lru_held_def lru_inv_def LRUCache_methods_def LRUCache_Put_def
        upd_comp_inj inj_string_of_bytes del: fun_upd_apply)
next
  fix s :: "'a LRUCache" and k
  assume inv: "lru_inv s"
  let ?e = "lru_entries (lc_lib s) (lc_cache s)"
  from inv have "lru_entries (lc_lib s) (lru_Remove (lc_lib s) (string_of_bytes k) (lc_cache s))
      \<subseteq>\<^sub>m ?e(string_of_bytes k := None)"
    by (simp add: lru_inv_def lru_laws_def)
  from map_le_comp [OF this, of string_of_bytes]
  show "lru_held (ca_Delete LRUCache_methods k s) \<subseteq>\<^sub>m (lru_held s)(k := None) \<and>
      lru_inv (ca_Delete LRUCache_methods k s)"
    using inv by (simp add: lru_held_def lru_inv_def LRUCache_methods_def LRUCache_Delete_def
        upd_comp_inj inj_string_of_bytes del: fun_upd_apply)
qed

section \<open>The store interface\<close>

record 'b KVStore =
  kv_Get :: "bytes \<Rightarrow> 'b \<Rightarrow> bytes option outcome \<times> 'b"
  kv_Put :: "bytes \<Rightarrow> bytes \<Rightarrow> 'b \<Rightarrow> unit outcome \<times> 'b"
  kv_Delete :: "bytes \<Rightarrow> 'b \<Rightarrow> unit outcome \<times> 'b"

text \<open>
  The contract of an opened bucket: it is a map from keys to values; a call that succeeds acts
  as the map operation does; a write that errs (a timeout of a remote store, say) may or may
  not have been applied; no call panics. A nil value without an error is an absent key.
\<close>

locale kv_store =
  fixes kv :: "'b KVStore"
    and contents :: "'b \<Rightarrow> bytes \<rightharpoonup> bytes"
    and inv :: "'b \<Rightarrow> bool"
  assumes get_ok: "inv s \<Longrightarrow> kv_Get kv k s = (Ok x, s') \<Longrightarrow> x = contents s k"
    and get_frame: "inv s \<Longrightarrow> kv_Get kv k s = (g, s') \<Longrightarrow> g \<noteq> Panic \<and> inv s' \<and> contents s' = contents s"
    and put_ok: "inv s \<Longrightarrow> kv_Put kv k v s = (Ok u, s') \<Longrightarrow> contents s' = (contents s)(k \<mapsto> v)"
    and put_frame: "inv s \<Longrightarrow> kv_Put kv k v s = (r, s') \<Longrightarrow>
      r \<noteq> Panic \<and> inv s' \<and>
      (\<forall>e. r = Err e \<longrightarrow> contents s' = contents s \<or> contents s' = (contents s)(k \<mapsto> v))"
    and delete_ok: "inv s \<Longrightarrow> kv_Delete kv k s = (Ok u, s') \<Longrightarrow> contents s' = (contents s)(k := None)"
    and delete_frame: "inv s \<Longrightarrow> kv_Delete kv k s = (r, s') \<Longrightarrow>
      r \<noteq> Panic \<and> inv s' \<and>
      (\<forall>e. r = Err e \<longrightarrow> contents s' = contents s \<or> contents s' = (contents s)(k := None))"
begin

lemma get_cases:
  assumes "inv s"
  obtains s' where "kv_Get kv k s = (Ok (contents s k), s')" "inv s'" "contents s' = contents s"
    | e s' where "kv_Get kv k s = (Err e, s')" "inv s'" "contents s' = contents s"
proof -
  obtain r s' where g: "kv_Get kv k s = (r, s')" by fastforce
  then show thesis
    using get_frame [OF assms g] get_ok [OF assms] that by (cases r) auto
qed

lemma put_cases:
  assumes "inv s"
  obtains s' where "kv_Put kv k v s = (Ok (), s')" "inv s'" "contents s' = (contents s)(k \<mapsto> v)"
    | e s' where "kv_Put kv k v s = (Err e, s')" "inv s'"
      "contents s' = contents s \<or> contents s' = (contents s)(k \<mapsto> v)"
proof -
  obtain r s' where g: "kv_Put kv k v s = (r, s')" by fastforce
  then show thesis
    using put_frame [OF assms g] put_ok [OF assms] that by (cases r) auto
qed

lemma get_after_put:
  assumes "inv s" "kv_Put kv k v s = (Ok u, s')" "kv_Get kv k' s' = (Ok r, s'')"
  shows "r = (if k' = k then Some v else contents s k')"
  using get_ok [OF _ assms(3)] put_frame [OF assms(1,2)] put_ok [OF assms(1,2)] by simp

lemma get_after_delete:
  assumes "inv s" "kv_Delete kv k s = (Ok u, s')" "kv_Get kv k' s' = (Ok r, s'')"
  shows "r = (if k' = k then None else contents s k')"
  using get_ok [OF _ assms(3)] delete_frame [OF assms(1,2)] delete_ok [OF assms(1,2)] by simp

end


section \<open>Properties\<close>

text \<open>An engine without evictions, for the witnesses.\<close>

definition plain_lru :: "(string \<rightharpoonup> bytes) lru_lib" where
  "plain_lru = \<lparr>lru_Get = (\<lambda>k s. (s k, s)), lru_Add = (\<lambda>k v s. s(k \<mapsto> v)),
     lru_Remove = (\<lambda>k s. s(k := None)), lru_entries = (\<lambda>s. s)\<rparr>"

lemma plain_lru_laws: "lru_laws plain_lru"
  by (simp add: lru_laws_def plain_lru_def)

text \<open>
  The LRU cache never answers with a stale value. After \<open>Put\<close> a \<open>Get\<close> of the key misses
  or returns the value put, after \<open>Delete\<close> it misses, and any other key is answered as before
  or misses.
\<close>
lemma LRUCache_never_stale:
  assumes "lru_laws (lc_lib c)"
  shows "fst (LRUCache_Get k (LRUCache_Put k v c)) \<in> {None, Some v} \<and>
    fst (LRUCache_Get k (LRUCache_Delete k c)) = None \<and>
    (j \<noteq> k \<longrightarrow> fst (LRUCache_Get j (LRUCache_Put k v c)) \<in> {None, fst (LRUCache_Get j c)} \<and>
               fst (LRUCache_Get j (LRUCache_Delete k c)) \<in> {None, fst (LRUCache_Get j c)})"
proof -
  have inv: "lru_inv c" using assms by (simp add: lru_inv_def)
  have get: "fst (LRUCache_Get i s) = lru_held s i" if "lru_inv s" for i and s :: "'a LRUCache"
    using lru.cache_get [OF that, of i] by (simp add: LRUCache_methods_def) (metis prod.collapse)
  have sub: "m i \<in> {None, m' i}" if "m \<subseteq>\<^sub>m m'" for m m' :: "bytes \<rightharpoonup> bytes" and i
    using that by (auto simp: map_le_def dom_def)
  have put: "lru_inv (LRUCache_Put k v c)" "lru_held (LRUCache_Put k v c) \<subseteq>\<^sub>m (lru_held c)(k \<mapsto> v)"
    using lru.cache_put [OF inv, of k v] by (simp_all add: LRUCache_methods_def)
  have del: "lru_inv (LRUCache_Delete k c)" "lru_held (LRUCache_Delete k c) \<subseteq>\<^sub>m (lru_held c)(k := None)"
    using lru.cache_delete [OF inv, of k] by (simp_all add: LRUCache_methods_def)
  show ?thesis
    using sub [OF put(2), of k] sub [OF put(2), of j] sub [OF del(2), of k] sub [OF del(2), of j]
    by (auto simp: get put(1) del(1) inv)
qed

end
