(* ===== verification/Bbolt_Store.thy ===== *)
theory Bbolt_Store
  imports KV_Store
begin

text \<open>
  \<open>db/bboltdb.go\<close>: the bbolt-backed store. The third-party engine is a parameter held by the
  handle (\<open>bbolt_lib\<close>, with its documented transaction behaviour as \<open>bbolt_laws\<close>); the state
  is the database file and the cache. Shown: an opened bucket meets the store contract as
  long as it has its cache for itself, what every method does on a root handle, and that two
  buckets that share one cache answer for each other.
\<close>

section \<open>The engine\<close>

text \<open>
  One field per transaction the code runs: whether \<open>View\<close>/\<open>Update\<close> can start (an error
  otherwise), \<open>Bucket\<close> finding a bucket by name, and \<open>Get\<close>, \<open>Put\<close>, \<open>Delete\<close> and
  \<open>CreateBucketIfNotExists\<close> on it. An \<open>Update\<close> whose function errs is rolled back.
\<close>

record 'd bbolt_lib =
  bb_View :: "'d \<Rightarrow> go_error option"
  bb_Update :: "'d \<Rightarrow> go_error option"
  bb_Bucket :: "'d \<Rightarrow> string \<Rightarrow> bool"
  bb_Get :: "'d \<Rightarrow> string \<Rightarrow> bytes \<Rightarrow> bytes option"
  bb_Put :: "'d \<Rightarrow> string \<Rightarrow> bytes \<Rightarrow> bytes \<Rightarrow> go_error option \<times> 'd"
  bb_Delete :: "'d \<Rightarrow> string \<Rightarrow> bytes \<Rightarrow> go_error option \<times> 'd"
  bb_Create :: "'d \<Rightarrow> string \<Rightarrow> go_error option \<times> 'd"
  bb_CreateIn :: "'d \<Rightarrow> string \<Rightarrow> string \<Rightarrow> go_error option \<times> 'd"
  bb_Open :: "string \<Rightarrow> 'd \<Rightarrow> go_error option \<times> 'd"
  bb_Close :: "'d \<Rightarrow> go_error option \<times> 'd"

definition bbolt_laws :: "'d bbolt_lib \<Rightarrow> bool" where
  "bbolt_laws L \<longleftrightarrow>
     (\<forall>d n k v e d'. bb_Put L d n k v = (Some e, d') \<longrightarrow> d' = d) \<and>
     (\<forall>d n k v d'. bb_Put L d n k v = (None, d') \<longrightarrow>
        bb_Bucket L d' = bb_Bucket L d \<and>
        bb_Get L d' = (bb_Get L d)(n := (bb_Get L d n)(k \<mapsto> v))) \<and>
     (\<forall>d n k e d'. bb_Delete L d n k = (Some e, d') \<longrightarrow> d' = d) \<and>
     (\<forall>d n k d'. bb_Delete L d n k = (None, d') \<longrightarrow>
        bb_Bucket L d' = bb_Bucket L d \<and>
        bb_Get L d' = (bb_Get L d)(n := (bb_Get L d n)(k := None))) \<and>
     (\<forall>d n e d'. bb_Create L d n = (Some e, d') \<longrightarrow> d' = d) \<and>
     (\<forall>d n d'. bb_Create L d n = (None, d') \<longrightarrow>
        bb_Bucket L d' = (bb_Bucket L d)(n := True) \<and> bb_Get L d' = bb_Get L d)"

section \<open>The store\<close>

definition ErrGetRoot :: go_error where "ErrGetRoot = GoError ''cannot get from root'' []"
definition ErrDeleteRoot :: go_error where "ErrDeleteRoot = GoError ''cannot delete from root'' []"
definition ErrorPutRoot :: go_error where "ErrorPutRoot = GoError ''cannot put from root'' []"

text \<open>
  The handle. \<open>db\<close> is nil until the root is opened; \<open>bucket\<close> is the bucket the last \<open>Open\<close>
  created, by name.
\<close>

record ('d, 'c) BboltDBKVStore =
  b_db :: "'d bbolt_lib option"
  b_bucket :: "string option"
  b_bucketName :: string
  b_root :: bool
  b_dbPath :: string
  b_cache :: "'c Cache option"

definition NewBboltDBKVStore :: "string \<Rightarrow> 'c Cache option \<Rightarrow> ('d, 'c) BboltDBKVStore" where
  "NewBboltDBKVStore dbPath cache =
     \<lparr>b_db = None, b_bucket = None, b_bucketName = [], b_root = True, b_dbPath = dbPath, b_cache = cache\<rparr>"

definition Bbolt_Bucket :: "('d, 'c) BboltDBKVStore \<Rightarrow> string \<Rightarrow> ('d, 'c) BboltDBKVStore" where
  "Bbolt_Bucket b prefix =
     \<lparr>b_db = b_db b, b_bucket = b_bucket b, b_bucketName = prefix, b_root = False, b_dbPath = [],
      b_cache = b_cache b\<rparr>"

text \<open>
  \<open>Open\<close>: the library (\<open>lib\<close>) opens the file for a root without a database; then the handle's
  bucket is created, inside the bucket of an earlier \<open>Open\<close> if there is one.
\<close>

definition Bbolt_Open ::
  "'d bbolt_lib \<Rightarrow> ('d, 'c) BboltDBKVStore \<Rightarrow> 'd \<Rightarrow> ('d, 'c) BboltDBKVStore outcome \<times> 'd" where
  "Bbolt_Open lib b d =
     (let (e1, d1) = (if b_root b \<and> b_db b = None then bb_Open lib (b_dbPath b) d else (None, d));
          b1 = (if b_root b \<and> b_db b = None then b\<lparr>b_db := Some lib\<rparr> else b)
      in case e1 of
           Some e \<Rightarrow> (Err e, d1)
         | None \<Rightarrow>
             if length (b_bucketName b1) > 0 then
               (case b_db b1 of
                  None \<Rightarrow> (Panic, d1)
                | Some L \<Rightarrow>
                    let (e2, d2) = (case b_bucket b1 of
                          None \<Rightarrow> bb_Create L d1 (b_bucketName b1)
                        | Some outer \<Rightarrow> bb_CreateIn L d1 outer (b_bucketName b1))
                    in case e2 of
                         Some e \<Rightarrow> (Err e, d2)
                       | None \<Rightarrow> (Ok (b1\<lparr>b_bucket := Some (b_bucketName b1)\<rparr>), d2))
             else (Ok b1, d1))"

definition Bbolt_Close :: "('d, 'c) BboltDBKVStore \<Rightarrow> 'd \<Rightarrow> unit outcome \<times> 'd" where
  "Bbolt_Close b d =
     (case b_db b of
        Some L \<Rightarrow>
          if b_root b then
            (case bb_Close L d of (Some e, d') \<Rightarrow> (Err e, d') | (None, d') \<Rightarrow> (Ok (), d'))
          else (Ok (), d)
      | None \<Rightarrow> (Ok (), d))"

definition Bbolt_Get ::
  "('d, 'c) BboltDBKVStore \<Rightarrow> bytes \<Rightarrow> 'd \<times> 'c \<Rightarrow> bytes option outcome \<times> ('d \<times> 'c)" where
  "Bbolt_Get b key w =
     (let (d, cs0) = w in
      if b_root b then (Err ErrGetRoot, w)
      else let (hit, cs) = cache_lookup (b_cache b) key cs0 in
        case hit of
          Some val \<Rightarrow> (Ok (Some val), (d, cs))
        | None \<Rightarrow>
            (case b_db b of
               None \<Rightarrow> (Panic, (d, cs))
             | Some L \<Rightarrow>
                 (case bb_View L d of
                    Some e \<Rightarrow> (Err e, (d, cs))
                  | None \<Rightarrow>
                      if \<not> bb_Bucket L d (b_bucketName b) then (Panic, (d, cs))
                      else (case bb_Get L d (b_bucketName b) key of
                              None \<Rightarrow> (Ok None, (d, cs))
                            | Some val \<Rightarrow> (Ok (Some val), (d, cache_store (b_cache b) key val cs))))))"

definition Bbolt_Put ::
  "('d, 'c) BboltDBKVStore \<Rightarrow> bytes \<Rightarrow> bytes \<Rightarrow> 'd \<times> 'c \<Rightarrow> unit outcome \<times> ('d \<times> 'c)" where
  "Bbolt_Put b key val w =
     (let (d, cs) = w in
      if b_root b then (Err ErrorPutRoot, w)
      else case b_db b of
          None \<Rightarrow> (Panic, w)
        | Some L \<Rightarrow>
            (case bb_Update L d of
               Some e \<Rightarrow> (Err e, w)
             | None \<Rightarrow>
            if \<not> bb_Bucket L d (b_bucketName b) then (Panic, w)
            else (case bb_Put L d (b_bucketName b) key val of
                    (Some e, d') \<Rightarrow> (Err e, (d', cs))
                  | (None, d') \<Rightarrow> (Ok (), (d', cache_store (b_cache b) key val cs)))))"

definition Bbolt_Delete ::
  "('d, 'c) BboltDBKVStore \<Rightarrow> bytes \<Rightarrow> 'd \<times> 'c \<Rightarrow> unit outcome \<times> ('d \<times> 'c)" where
  "Bbolt_Delete b key w =
     (let (d, cs) = w in
      if b_root b then (Err ErrDeleteRoot, w)
      else case b_db b of
          None \<Rightarrow> (Panic, w)
        | Some L \<Rightarrow>
            (case bb_Update L d of
               Some e \<Rightarrow> (Err e, w)
             | None \<Rightarrow>
            if \<not> bb_Bucket L d (b_bucketName b) then (Panic, w)
            else (case bb_Delete L d (b_bucketName b) key of
                    (Some e, d') \<Rightarrow> (Err e, (d', cs))
                  | (None, d') \<Rightarrow> (Ok (), (d', cache_drop (b_cache b) key cs)))))"

definition Bbolt_methods :: "('d, 'c) BboltDBKVStore \<Rightarrow> ('d \<times> 'c) KVStore" where
  "Bbolt_methods b = \<lparr>kv_Get = Bbolt_Get b, kv_Put = Bbolt_Put b, kv_Delete = Bbolt_Delete b\<rparr>"

section \<open>An opened bucket is a store\<close>

definition bbolt_contents :: "('d, 'c) BboltDBKVStore \<Rightarrow> 'd \<times> 'c \<Rightarrow> bytes \<rightharpoonup> bytes" where
  "bbolt_contents b w =
     (case b_db b of None \<Rightarrow> Map.empty | Some L \<Rightarrow> bb_Get L (fst w) (b_bucketName b))"

text \<open>
  The bucket has been opened, the engine keeps its documented behaviour, and the cache holds
  nothing but entries of this bucket.
\<close>

definition bbolt_inv :: "('d, 'c) BboltDBKVStore \<Rightarrow> 'd \<times> 'c \<Rightarrow> bool" where
  "bbolt_inv b w \<longleftrightarrow> \<not> b_root b \<and>
     (case b_db b of None \<Rightarrow> False
      | Some L \<Rightarrow> bbolt_laws L \<and> bb_Bucket L (fst w) (b_bucketName b)) \<and>
     cache_sound (b_cache b) (snd w) (bbolt_contents b w)"

lemma bbolt_put_err: "bb_Put L d n k v = (Some e, d') \<Longrightarrow> bbolt_laws L \<Longrightarrow> d' = d"
  unfolding bbolt_laws_def by metis

lemma bbolt_put_ok:
  "bb_Put L d n k v = (None, d') \<Longrightarrow> bbolt_laws L \<Longrightarrow>
     bb_Bucket L d' = bb_Bucket L d \<and> bb_Get L d' = (bb_Get L d)(n := (bb_Get L d n)(k \<mapsto> v))"
  unfolding bbolt_laws_def by metis

lemma bbolt_delete_err: "bb_Delete L d n k = (Some e, d') \<Longrightarrow> bbolt_laws L \<Longrightarrow> d' = d"
  unfolding bbolt_laws_def by metis

lemma bbolt_delete_ok:
  "bb_Delete L d n k = (None, d') \<Longrightarrow> bbolt_laws L \<Longrightarrow>
     bb_Bucket L d' = bb_Bucket L d \<and> bb_Get L d' = (bb_Get L d)(n := (bb_Get L d n)(k := None))"
  unfolding bbolt_laws_def by metis

lemma bbolt_create_ok:
  "bb_Create L d n = (None, d') \<Longrightarrow> bbolt_laws L \<Longrightarrow>
     bb_Bucket L d' = (bb_Bucket L d)(n := True) \<and> bb_Get L d' = bb_Get L d"
  unfolding bbolt_laws_def by metis

lemmas bbolt_engine = bbolt_put_err bbolt_put_ok bbolt_delete_err bbolt_delete_ok
lemmas bbolt_defs = Bbolt_methods_def Bbolt_Get_def Bbolt_Put_def Bbolt_Delete_def bbolt_inv_def
  bbolt_contents_def

interpretation bbolt: kv_store "Bbolt_methods b" "bbolt_contents b" "bbolt_inv b" for b
proof
  fix s k r s'
  assume inv: "bbolt_inv b s" and get: "kv_Get (Bbolt_methods b) k s = (r, s')"
  obtain d cs where s: "s = (d, cs)" by fastforce
  obtain hit cs1 where look: "cache_lookup (b_cache b) k cs = (hit, cs1)" by fastforce
  note sound = cache_sound_lookup [OF _ look]
  from inv s look get sound [of "bbolt_contents b s"]
  show "r \<noteq> Panic \<and> bbolt_inv b s' \<and> bbolt_contents b s' = bbolt_contents b s"
    by (auto simp: bbolt_defs
        dest: cache_sound_store_same split: option.splits if_splits)
next
  fix s k x s'
  assume inv: "bbolt_inv b s" and get: "kv_Get (Bbolt_methods b) k s = (Ok x, s')"
  obtain d cs where s: "s = (d, cs)" by fastforce
  obtain hit cs1 where look: "cache_lookup (b_cache b) k cs = (hit, cs1)" by fastforce
  from inv s look get cache_sound_lookup [OF _ look, of "bbolt_contents b s"]
  show "x = bbolt_contents b s k"
    by (auto simp: bbolt_defs
        split: option.splits if_splits)
next
  fix s k v u s'
  assume inv: "bbolt_inv b s" and put: "kv_Put (Bbolt_methods b) k v s = (Ok u, s')"
  then show "bbolt_contents b s' = (bbolt_contents b s)(k \<mapsto> v)"
    by (auto simp: bbolt_defs dest!: bbolt_engine
        split: option.splits if_splits prod.splits)
next
  fix s k v r s'
  assume inv: "bbolt_inv b s" and put: "kv_Put (Bbolt_methods b) k v s = (r, s')"
  then show "r \<noteq> Panic \<and> bbolt_inv b s' \<and> (\<forall>e. r = Err e \<longrightarrow>
      bbolt_contents b s' = bbolt_contents b s \<or> bbolt_contents b s' = (bbolt_contents b s)(k \<mapsto> v))"
    by (auto simp: bbolt_defs dest!: bbolt_engine
        intro: cache_sound_store split: option.splits if_splits prod.splits)
next
  fix s k u s'
  assume inv: "bbolt_inv b s" and del: "kv_Delete (Bbolt_methods b) k s = (Ok u, s')"
  then show "bbolt_contents b s' = (bbolt_contents b s)(k := None)"
    by (auto simp: bbolt_defs dest!: bbolt_engine
        split: option.splits if_splits prod.splits)
next
  fix s k r s'
  assume inv: "bbolt_inv b s" and del: "kv_Delete (Bbolt_methods b) k s = (r, s')"
  then show "r \<noteq> Panic \<and> bbolt_inv b s' \<and> (\<forall>e. r = Err e \<longrightarrow>
      bbolt_contents b s' = bbolt_contents b s \<or> bbolt_contents b s' = (bbolt_contents b s)(k := None))"
    by (auto simp: bbolt_defs dest!: bbolt_engine
        intro: cache_sound_drop split: option.splits if_splits prod.splits)
qed

lemma Bbolt_Open_child:
  assumes "b_db b = Some L" "bbolt_laws L" "b_bucket b = None" "name \<noteq> []"
    and "cache_sound (b_cache b) cs (bb_Get L d name)"
    and "Bbolt_Open lib (Bbolt_Bucket b name) d = (Ok b', d')"
  shows "bbolt_inv b' (d', cs) \<and> bbolt_contents b' (d', cs) = bb_Get L d name"
  using assms
  by (auto simp: Bbolt_Open_def Bbolt_Bucket_def bbolt_inv_def bbolt_contents_def Let_def
      dest!: bbolt_create_ok split: prod.splits option.splits)

section \<open>Root handles and shared caches\<close>

lemma Bbolt_root:
  "Bbolt_Get (NewBboltDBKVStore path c) k w = (Err ErrGetRoot, w)"
  "Bbolt_Put (NewBboltDBKVStore path c) k v w = (Err ErrorPutRoot, w)"
  "Bbolt_Delete (NewBboltDBKVStore path c) k w = (Err ErrDeleteRoot, w)"
  by (simp_all add: Bbolt_Get_def Bbolt_Put_def Bbolt_Delete_def NewBboltDBKVStore_def Let_def
      split: prod.splits)

text \<open>
  \<open>Bucket\<close> hands the parent's cache to the child, and the cache is keyed by the bare key: a
  value put through one bucket answers a read of the same key through any other.
\<close>

lemma Bbolt_Get_hit:
  assumes "\<not> b_root b" "b_cache b = Some c" "ca_Get c k (snd w) = (Some v, cs)"
  shows "Bbolt_Get b k w = (Ok (Some v), (fst w, cs))"
  using assms by (cases w) (simp add: Bbolt_Get_def cache_lookup_def)

lemma Bbolt_Put_cached:
  assumes "Bbolt_Put b k v w = (Ok (), w')" "b_cache b = Some c"
  shows "snd w' = ca_Put c k v (snd w)"
  using assms by (cases w) (auto simp: Bbolt_Put_def cache_store_def split: option.splits if_splits prod.splits)


section \<open>Properties\<close>

text \<open>An engine whose transactions always succeed, for the witnesses.\<close>

type_synonym plain_db = "(string \<Rightarrow> bool) \<times> (string \<Rightarrow> bytes \<rightharpoonup> bytes)"

definition plain_bbolt :: "plain_db bbolt_lib" where
  "plain_bbolt =
     \<lparr>bb_View = (\<lambda>d. None), bb_Update = (\<lambda>d. None), bb_Bucket = fst, bb_Get = snd,
      bb_Put = (\<lambda>d n k v. (None, (fst d, (snd d)(n := (snd d n)(k \<mapsto> v))))),
      bb_Delete = (\<lambda>d n k. (None, (fst d, (snd d)(n := (snd d n)(k := None))))),
      bb_Create = (\<lambda>d n. (None, ((fst d)(n := True), snd d))),
      bb_CreateIn = (\<lambda>d u n. (None, d)), bb_Open = (\<lambda>p d. (None, d)), bb_Close = (\<lambda>d. (None, d))\<rparr>"

lemma plain_bbolt_laws: "bbolt_laws plain_bbolt"
  by (simp add: bbolt_laws_def plain_bbolt_def)

definition plain_bucket :: "string \<Rightarrow> (plain_db, (string \<rightharpoonup> bytes) LRUCache) BboltDBKVStore" where
  "plain_bucket n = \<lparr>b_db = Some plain_bbolt, b_bucket = Some n, b_bucketName = n, b_root = False,
     b_dbPath = [], b_cache = Some LRUCache_methods\<rparr>"

definition plain_world :: "plain_db \<times> (string \<rightharpoonup> bytes) LRUCache" where
  "plain_world = ((\<lambda>_. True, \<lambda>_. Map.empty), \<lparr>lc_lib = plain_lru, lc_cache = Map.empty\<rparr>)"

lemma plain_bucket_inv: "bbolt_inv (plain_bucket n) plain_world"
proof -
  have "cache_sound (Some LRUCache_methods) \<lparr>lc_lib = plain_lru, lc_cache = Map.empty\<rparr> m" for m
    unfolding cache_sound_def
    by (auto intro!: exI [of _ lru_held] exI [of _ lru_inv] lru.byte_cache_axioms
        simp: lru_inv_def lru_held_def plain_lru_laws) (simp add: plain_lru_def)
  then show ?thesis
    by (simp add: bbolt_inv_def plain_bucket_def plain_world_def plain_bbolt_laws)
      (simp add: plain_bbolt_def)
qed

lemma plain_bucket_get:
  assumes "bbolt_inv (plain_bucket n) w"
  obtains w' where
    "kv_Get (Bbolt_methods (plain_bucket n)) k w = (Ok (bbolt_contents (plain_bucket n) w k), w')"
    "bbolt_inv (plain_bucket n) w'" "bbolt_contents (plain_bucket n) w' = bbolt_contents (plain_bucket n) w"
proof (rule bbolt.get_cases [OF assms, of k])
  fix e w' assume "kv_Get (Bbolt_methods (plain_bucket n)) k w = (Err e, w')"
  moreover have "kv_Get (Bbolt_methods (plain_bucket n)) k w \<noteq> (Err e, w')"
    by (simp add: Bbolt_methods_def Bbolt_Get_def plain_bucket_def plain_bbolt_def Let_def
        split: prod.splits option.splits)
  ultimately show thesis by simp
qed (rule that)

lemma plain_bucket_put:
  assumes "bbolt_inv (plain_bucket n) w"
  obtains w' where "kv_Put (Bbolt_methods (plain_bucket n)) k v w = (Ok (), w')"
    "bbolt_inv (plain_bucket n) w'"
    "bbolt_contents (plain_bucket n) w' = (bbolt_contents (plain_bucket n) w)(k \<mapsto> v)"
proof (rule bbolt.put_cases [OF assms, of k v])
  fix e w' assume "kv_Put (Bbolt_methods (plain_bucket n)) k v w = (Err e, w')"
  moreover have "kv_Put (Bbolt_methods (plain_bucket n)) k v w \<noteq> (Err e, w')"
    by (simp add: Bbolt_methods_def Bbolt_Put_def plain_bucket_def plain_bbolt_def Let_def
        split: prod.splits option.splits)
  ultimately show thesis by simp
qed (rule that)

lemma plain_bucket_empty: "bbolt_contents (plain_bucket n) plain_world k = None"
  by (simp add: bbolt_contents_def plain_bucket_def plain_world_def plain_bbolt_def)



text \<open>
  Two buckets that share a cache, as \<open>Bucket\<close> makes them, answer for each other. A value
  put through one and still cached is what the other returns for that key, although the
  contents of the other bucket have not changed.
\<close>
lemma Bbolt_shared_cache_crosstalk:
  assumes "b_cache b1 = Some c" "b_cache b2 = Some c" "\<not> b_root b2" "b_bucketName b1 \<noteq> b_bucketName b2"
    and "b_db b1 = Some L" "b_db b2 = Some L" "bbolt_laws L"
    and put: "Bbolt_Put b1 k v w = (Ok (), w1)"
    and hit: "ca_Get c k (ca_Put c k v (snd w)) = (Some v, cs)"
  shows "Bbolt_Get b2 k w1 = (Ok (Some v), (fst w1, cs)) \<and> bbolt_contents b2 w1 = bbolt_contents b2 w"
proof
  show "Bbolt_Get b2 k w1 = (Ok (Some v), (fst w1, cs))"
    using Bbolt_Put_cached [OF put assms(1)] assms(2,3) hit by (simp add: Bbolt_Get_hit)
  show "bbolt_contents b2 w1 = bbolt_contents b2 w"
    using assms by (cases w)
      (auto simp: Bbolt_Put_def bbolt_contents_def dest!: bbolt_put_ok
        split: option.splits if_splits prod.splits)
qed

end
