(* ===== verification/Etcd_Store.thy ===== *)
theory Etcd_Store
  imports KV_Store
begin

text \<open>
  \<open>db/etcd.go\<close>: the etcd-backed store. The client is a parameter held by the handle
  (\<open>etcd_lib\<close>, documented behaviour \<open>etcd_laws\<close>); a write that errs may have reached the
  cluster. Shown: a store without a cache, or one whose failed writes are never applied,
  meets the store contract, and sibling buckets have disjoint key spaces.
\<close>

section \<open>The client\<close>

record 'e etcd_lib =
  et_Get :: "'e \<Rightarrow> int \<Rightarrow> string \<Rightarrow> bytes list outcome"
  et_Put :: "'e \<Rightarrow> int \<Rightarrow> string \<Rightarrow> string \<Rightarrow> go_error option \<times> 'e"
  et_Delete :: "'e \<Rightarrow> int \<Rightarrow> string \<Rightarrow> go_error option \<times> 'e"
  et_Close :: "'e \<Rightarrow> go_error option \<times> 'e"
  et_data :: "'e \<Rightarrow> string \<rightharpoonup> bytes"

text \<open>
  \<open>Get\<close> of one key answers with at most one entry (\<open>resp.Kvs\<close>, its values here).
\<close>

definition etcd_laws :: "'e etcd_lib \<Rightarrow> bool" where
  "etcd_laws L \<longleftrightarrow>
     (\<forall>e t k. et_Get L e t k \<noteq> Panic) \<and>
     (\<forall>e t k kvs. et_Get L e t k = Ok kvs \<longrightarrow> kvs = (case et_data L e k of None \<Rightarrow> [] | Some v \<Rightarrow> [v])) \<and>
     (\<forall>e t k v r e'. et_Put L e t k v = (r, e') \<longrightarrow>
        et_data L e' = (et_data L e)(k \<mapsto> bytes_of_string v) \<or> r \<noteq> None \<and> et_data L e' = et_data L e) \<and>
     (\<forall>e t k r e'. et_Delete L e t k = (r, e') \<longrightarrow>
        et_data L e' = (et_data L e)(k := None) \<or> r \<noteq> None \<and> et_data L e' = et_data L e)"

text \<open>No write is applied and reported as failed.\<close>

definition etcd_definite :: "'e etcd_lib \<Rightarrow> bool" where
  "etcd_definite L \<longleftrightarrow>
     (\<forall>e t k v err e'. et_Put L e t k v = (Some err, e') \<longrightarrow> et_data L e' = et_data L e) \<and>
     (\<forall>e t k err e'. et_Delete L e t k = (Some err, e') \<longrightarrow> et_data L e' = et_data L e)"

section \<open>The store\<close>

definition defaultTimeout :: int where "defaultTimeout = 10 * 1000000000"

record ('e, 'c) EtcdKVStore =
  e_client :: "'e etcd_lib"
  e_prefix :: string
  e_bucketName :: string
  e_timeout :: int
  e_cache :: "'c Cache option"

definition NewEtcdKVStore ::
  "'e etcd_lib \<Rightarrow> string \<Rightarrow> 'c Cache option \<Rightarrow> int \<Rightarrow> ('e, 'c) EtcdKVStore" where
  "NewEtcdKVStore client prefix cache timeout =
     \<lparr>e_client = client, e_prefix = prefix, e_bucketName = [],
      e_timeout = (if timeout = 0 then defaultTimeout else timeout), e_cache = cache\<rparr>"

definition getKey :: "('e, 'c) EtcdKVStore \<Rightarrow> bytes \<Rightarrow> string" where
  "getKey e key = e_prefix e @ ''/'' @ e_bucketName e @ ''/'' @ string_of_bytes key"

definition Etcd_Open :: "('e, 'c) EtcdKVStore \<Rightarrow> 'e \<Rightarrow> unit outcome \<times> 'e" where
  "Etcd_Open e s = (Ok (), s)"

definition Etcd_Close :: "('e, 'c) EtcdKVStore \<Rightarrow> 'e \<Rightarrow> unit outcome \<times> 'e" where
  "Etcd_Close e s =
     (case et_Close (e_client e) s of (Some err, s') \<Rightarrow> (Err err, s') | (None, s') \<Rightarrow> (Ok (), s'))"

definition Etcd_Get ::
  "('e, 'c) EtcdKVStore \<Rightarrow> bytes \<Rightarrow> 'e \<times> 'c \<Rightarrow> bytes option outcome \<times> ('e \<times> 'c)" where
  "Etcd_Get e key w =
     (let (d, cs0) = w; (hit, cs) = cache_lookup (e_cache e) key cs0 in
      case hit of
        Some val \<Rightarrow> (Ok (Some val), (d, cs))
      | None \<Rightarrow>
          (case et_Get (e_client e) d (e_timeout e) (getKey e key) of
             Err err \<Rightarrow> (Err err, (d, cs))
           | Panic \<Rightarrow> (Panic, (d, cs))
           | Ok [] \<Rightarrow> (Ok None, (d, cs))
           | Ok (val # _) \<Rightarrow> (Ok (Some val), (d, cache_store (e_cache e) key val cs))))"

definition Etcd_Put ::
  "('e, 'c) EtcdKVStore \<Rightarrow> bytes \<Rightarrow> bytes \<Rightarrow> 'e \<times> 'c \<Rightarrow> unit outcome \<times> ('e \<times> 'c)" where
  "Etcd_Put e key val w =
     (let (d, cs) = w in
      case et_Put (e_client e) d (e_timeout e) (getKey e key) (string_of_bytes val) of
        (Some err, d') \<Rightarrow> (Err err, (d', cs))
      | (None, d') \<Rightarrow> (Ok (), (d', cache_store (e_cache e) key val cs)))"

definition Etcd_Delete ::
  "('e, 'c) EtcdKVStore \<Rightarrow> bytes \<Rightarrow> 'e \<times> 'c \<Rightarrow> unit outcome \<times> ('e \<times> 'c)" where
  "Etcd_Delete e key w =
     (let (d, cs) = w in
      case et_Delete (e_client e) d (e_timeout e) (getKey e key) of
        (Some err, d') \<Rightarrow> (Err err, (d', cs))
      | (None, d') \<Rightarrow> (Ok (), (d', cache_drop (e_cache e) key cs)))"

definition Etcd_Bucket :: "('e, 'c) EtcdKVStore \<Rightarrow> string \<Rightarrow> ('e, 'c) EtcdKVStore outcome" where
  "Etcd_Bucket e prefix =
     (if CHR ''/'' \<in> set prefix then Err (GoError ''bucket name cannot contain /'' [])
      else Ok \<lparr>e_client = e_client e, e_prefix = e_prefix e @ ''/'' @ prefix, e_bucketName = prefix,
               e_timeout = e_timeout e, e_cache = e_cache e\<rparr>)"

definition Etcd_methods :: "('e, 'c) EtcdKVStore \<Rightarrow> ('e \<times> 'c) KVStore" where
  "Etcd_methods e = \<lparr>kv_Get = Etcd_Get e, kv_Put = Etcd_Put e, kv_Delete = Etcd_Delete e\<rparr>"

section \<open>The store contract\<close>

definition etcd_contents :: "('e, 'c) EtcdKVStore \<Rightarrow> 'e \<times> 'c \<Rightarrow> bytes \<rightharpoonup> bytes" where
  "etcd_contents e w = (\<lambda>k. et_data (e_client e) (fst w) (getKey e k))"

definition etcd_inv :: "('e, 'c) EtcdKVStore \<Rightarrow> 'e \<times> 'c \<Rightarrow> bool" where
  "etcd_inv e w \<longleftrightarrow> etcd_laws (e_client e) \<and> (e_cache e = None \<or> etcd_definite (e_client e)) \<and>
     cache_sound (e_cache e) (snd w) (etcd_contents e w)"

lemma inj_getKey: "inj (getKey e)"
  by (auto simp: inj_def getKey_def)

lemma getKey_eq [simp]: "getKey e k = getKey e k' \<longleftrightarrow> k = k'"
  using inj_getKey [of e] by (simp add: inj_eq)

lemma getKey_upd: "(\<lambda>k. (m(getKey e j := x)) (getKey e k)) = (\<lambda>k. m (getKey e k))(j := x)"
  by (rule upd_comp_inj) (rule inj_getKey)

lemma etcd_get_ok:
  "et_Get L d t k = Ok kvs \<Longrightarrow> etcd_laws L \<Longrightarrow> kvs = (case et_data L d k of None \<Rightarrow> [] | Some v \<Rightarrow> [v])"
  unfolding etcd_laws_def by metis

lemma etcd_get_no_panic: "etcd_laws L \<Longrightarrow> et_Get L d t k \<noteq> Panic"
  unfolding etcd_laws_def by metis

lemma etcd_put_ok:
  "et_Put L d t k v = (None, d') \<Longrightarrow> etcd_laws L \<Longrightarrow> et_data L d' = (et_data L d)(k \<mapsto> bytes_of_string v)"
  unfolding etcd_laws_def by metis

lemma etcd_put_err:
  "et_Put L d t k v = (Some err, d') \<Longrightarrow> etcd_laws L \<Longrightarrow>
     et_data L d' = et_data L d \<or> et_data L d' = (et_data L d)(k \<mapsto> bytes_of_string v) \<and> \<not> etcd_definite L"
  unfolding etcd_laws_def etcd_definite_def by metis

lemma etcd_delete_ok:
  "et_Delete L d t k = (None, d') \<Longrightarrow> etcd_laws L \<Longrightarrow> et_data L d' = (et_data L d)(k := None)"
  unfolding etcd_laws_def by metis

lemma etcd_delete_err:
  "et_Delete L d t k = (Some err, d') \<Longrightarrow> etcd_laws L \<Longrightarrow>
     et_data L d' = et_data L d \<or> et_data L d' = (et_data L d)(k := None) \<and> \<not> etcd_definite L"
  unfolding etcd_laws_def etcd_definite_def by metis

lemmas etcd_client = etcd_put_ok etcd_put_err etcd_delete_ok etcd_delete_err etcd_get_ok
lemmas etcd_defs = Etcd_methods_def Etcd_Get_def Etcd_Put_def Etcd_Delete_def etcd_inv_def etcd_contents_def

lemma cache_sound_None [simp]: "cache_sound None cs m"
  by (simp add: cache_sound_def)

interpretation etcd: kv_store "Etcd_methods e" "etcd_contents e" "etcd_inv e" for e
proof
  fix s k r s'
  assume inv: "etcd_inv e s" and get: "kv_Get (Etcd_methods e) k s = (r, s')"
  obtain d cs where s: "s = (d, cs)" by fastforce
  obtain hit cs1 where look: "cache_lookup (e_cache e) k cs = (hit, cs1)" by fastforce
  from inv s look get cache_sound_lookup [OF _ look, of "etcd_contents e s"]
  show "r \<noteq> Panic \<and> etcd_inv e s' \<and> etcd_contents e s' = etcd_contents e s"
    by (auto simp: etcd_defs etcd_get_no_panic dest!: etcd_get_ok intro: cache_sound_store_same
        split: option.splits outcome.splits list.splits)
next
  fix s k x s'
  assume inv: "etcd_inv e s" and get: "kv_Get (Etcd_methods e) k s = (Ok x, s')"
  obtain d cs where s: "s = (d, cs)" by fastforce
  obtain hit cs1 where look: "cache_lookup (e_cache e) k cs = (hit, cs1)" by fastforce
  from inv s look get cache_sound_lookup [OF _ look, of "etcd_contents e s"]
  show "x = etcd_contents e s k"
    by (auto simp: etcd_defs dest!: etcd_get_ok split: option.splits outcome.splits list.splits)
next
  fix s k v u s'
  assume inv: "etcd_inv e s" and put: "kv_Put (Etcd_methods e) k v s = (Ok u, s')"
  then show "etcd_contents e s' = (etcd_contents e s)(k \<mapsto> v)"
    by (auto simp: etcd_defs fun_eq_iff dest!: etcd_put_ok split: option.splits prod.splits)
next
  fix s k v r s'
  assume inv: "etcd_inv e s" and put: "kv_Put (Etcd_methods e) k v s = (r, s')"
  obtain d cs where s: "s = (d, cs)" by fastforce
  obtain q d' where q: "et_Put (e_client e) d (e_timeout e) (getKey e k) (string_of_bytes v) = (q, d')"
    by fastforce
  have upd: "(\<lambda>j. ((et_data (e_client e) d)(getKey e k \<mapsto> v)) (getKey e j)) =
      (\<lambda>j. et_data (e_client e) d (getKey e j))(k \<mapsto> v)" by (rule getKey_upd)
  show "r \<noteq> Panic \<and> etcd_inv e s' \<and> (\<forall>er. r = Err er \<longrightarrow>
      etcd_contents e s' = etcd_contents e s \<or> etcd_contents e s' = (etcd_contents e s)(k \<mapsto> v))"
  proof (cases q)
    case None
    with inv put s q show ?thesis
      by (auto simp: etcd_defs upd simp del: fun_upd_apply dest!: etcd_put_ok intro: cache_sound_store)
  next
    case (Some err)
    with inv put s q show ?thesis
      by (auto simp: etcd_defs upd simp del: fun_upd_apply dest!: etcd_put_err)
  qed
next
  fix s k u s'
  assume inv: "etcd_inv e s" and del: "kv_Delete (Etcd_methods e) k s = (Ok u, s')"
  then show "etcd_contents e s' = (etcd_contents e s)(k := None)"
    by (auto simp: etcd_defs fun_eq_iff dest!: etcd_delete_ok split: option.splits prod.splits)
next
  fix s k r s'
  assume inv: "etcd_inv e s" and del: "kv_Delete (Etcd_methods e) k s = (r, s')"
  obtain d cs where s: "s = (d, cs)" by fastforce
  obtain q d' where q: "et_Delete (e_client e) d (e_timeout e) (getKey e k) = (q, d')" by fastforce
  have upd: "(\<lambda>j. ((et_data (e_client e) d)(getKey e k := None)) (getKey e j)) =
      (\<lambda>j. et_data (e_client e) d (getKey e j))(k := None)" by (rule getKey_upd)
  show "r \<noteq> Panic \<and> etcd_inv e s' \<and> (\<forall>er. r = Err er \<longrightarrow>
      etcd_contents e s' = etcd_contents e s \<or> etcd_contents e s' = (etcd_contents e s)(k := None))"
  proof (cases q)
    case None
    with inv del s q show ?thesis
      by (auto simp: etcd_defs upd simp del: fun_upd_apply dest!: etcd_delete_ok intro: cache_sound_drop)
  next
    case (Some err)
    with inv del s q show ?thesis
      by (auto simp: etcd_defs upd simp del: fun_upd_apply dest!: etcd_delete_err)
  qed
qed

section \<open>Key spaces of sibling buckets\<close>

lemma split_at_slash:
  "CHR ''/'' \<notin> set a \<Longrightarrow> CHR ''/'' \<notin> set b \<Longrightarrow> a @ CHR ''/'' # x = b @ CHR ''/'' # y \<Longrightarrow> a = b"
proof (induction a arbitrary: b)
  case Nil
  then show ?case by (cases b) auto
next
  case (Cons c a)
  then show ?case by (cases b) auto
qed

lemma Etcd_siblings_disjoint:
  assumes "Etcd_Bucket e n = Ok e1" "Etcd_Bucket e m = Ok e2" "n \<noteq> m"
  shows "getKey e1 k \<noteq> getKey e2 j"
  using assms split_at_slash [of n m]
  by (auto simp: Etcd_Bucket_def getKey_def split: if_splits)


section \<open>Properties\<close>

definition plain_etcd :: "(string \<rightharpoonup> bytes) etcd_lib" where
  "plain_etcd =
     \<lparr>et_Get = (\<lambda>d t k. Ok (case d k of None \<Rightarrow> [] | Some v \<Rightarrow> [v])),
      et_Put = (\<lambda>d t k v. (None, d(k \<mapsto> bytes_of_string v))),
      et_Delete = (\<lambda>d t k. (None, d(k := None))), et_Close = (\<lambda>d. (None, d)), et_data = (\<lambda>d. d)\<rparr>"

lemma plain_etcd_laws: "etcd_laws plain_etcd"
  by (simp add: etcd_laws_def plain_etcd_def)

text \<open>
  Sibling buckets of the etcd store are separate maps: without a cache, a write or a
  delete through one changes what it says in its own bucket and leaves its sibling alone,
  whether or not it errs.
\<close>
lemma Etcd_siblings_separate:
  assumes "Etcd_Bucket e n = Ok e1" "Etcd_Bucket e m = Ok e2" "n \<noteq> m"
    and "etcd_laws (e_client e)" "e_cache e = None"
    and "(r, w') = Etcd_Put e1 k v w \<or> (r, w') = Etcd_Delete e1 k w"
  shows "etcd_contents e2 w' = etcd_contents e2 w \<and>
    (r = Ok () \<and> (r, w') = Etcd_Put e1 k v w \<longrightarrow> etcd_contents e1 w' = (etcd_contents e1 w)(k \<mapsto> v))"
proof
  have e: "e_client e1 = e_client e" "e_client e2 = e_client e" "e_cache e1 = None"
    using assms by (auto simp: Etcd_Bucket_def split: if_splits)
  then have inv: "etcd_inv e1 w" using assms by (simp add: etcd_inv_def)
  have ne: "getKey e2 j \<noteq> getKey e1 k" for j
    using Etcd_siblings_disjoint [OF assms(1-3)] by metis
  show "etcd_contents e2 w' = etcd_contents e2 w"
    using assms(4,6) e ne
    by (cases w) (auto simp: Etcd_Put_def Etcd_Delete_def etcd_contents_def fun_eq_iff
        dest!: etcd_client split: prod.splits option.splits)
  show "r = Ok () \<and> (r, w') = Etcd_Put e1 k v w \<longrightarrow> etcd_contents e1 w' = (etcd_contents e1 w)(k \<mapsto> v)"
    using etcd.put_ok [OF inv, of k v "()" w'] by (auto simp: Etcd_methods_def)
qed

end
