(* ===== verification/Node_Votes.thy ===== *)
theory Node_Votes
  imports Complex_Main "HOL-Library.Multiset" Bbolt_Store Etcd_Store Msgpack_Lib Multihash
begin

text \<open>
  \<open>service/vote.go\<close>, \<open>CalculateNodeScore\<close> of \<open>protocol/protocol.go\<close> and the voting part of
  \<open>service/default/p2p.go\<close>: the votes on a node, kept in the \<open>nodes\<close> bucket of the store
  under the node's identity, its score, and sorting nodes by score. The functions take the
  opened bucket and the local identity that \<open>Init\<close> leaves in the service. A Go \<open>int\<close> is an
  integer in the 64-bit range; \<open>float64\<close> is the reals, without rounding.
\<close>

section \<open>Votes\<close>

record NodeVotesImpl =
  nv_good :: int
  nv_bad :: int

definition NewNodeVotes :: NodeVotesImpl where
  "NewNodeVotes = \<lparr>nv_good = 0, nv_bad = 0\<rparr>"

definition NodeVotes_EncodeMsgpack :: "msgpack_lib \<Rightarrow> NodeVotesImpl \<Rightarrow> bytes" where
  "NodeVotes_EncodeMsgpack mp n = mp_EncodeInt mp (nv_good n) @ mp_EncodeInt mp (nv_bad n)"

definition NodeVotes_DecodeMsgpack :: "msgpack_lib \<Rightarrow> bytes \<Rightarrow> (NodeVotesImpl \<times> bytes) outcome" where
  "NodeVotes_DecodeMsgpack mp bs =
     obind (mp_DecodeInt mp bs) (\<lambda>(g, r).
     obind (mp_DecodeInt mp r) (\<lambda>(b, r').
       Ok (\<lparr>nv_good = g, nv_bad = b\<rparr>, r')))"

definition Upvote :: "NodeVotesImpl \<Rightarrow> NodeVotesImpl" where
  "Upvote n = n\<lparr>nv_good := int64_wrap (nv_good n + 1)\<rparr>"

definition Downvote :: "NodeVotesImpl \<Rightarrow> NodeVotesImpl" where
  "Downvote n = n\<lparr>nv_bad := int64_wrap (nv_bad n + 1)\<rparr>"

definition CalculateNodeScore :: "int \<Rightarrow> int \<Rightarrow> real" where
  "CalculateNodeScore goodResponses badResponses =
     (let totalVotes = int64_wrap (goodResponses + badResponses) in
      if totalVotes = 0 then 1 / 2
      else let average = real_of_int goodResponses / real_of_int totalVotes
        in average - (average - 1 / 2) * 2 powr (- ln (real_of_int (int64_wrap (totalVotes + 1)))))"

section \<open>The voting part of the p2p service\<close>

definition readNodeVotes ::
  "msgpack_lib \<Rightarrow> 's KVStore \<Rightarrow> NodeId \<Rightarrow> 's \<Rightarrow> NodeVotesImpl outcome \<times> 's" where
  "readNodeVotes mp kv nodeId s =
     sbind (kv_Get kv (node_bytes nodeId) s) (\<lambda>value s'.
       case value of
         None \<Rightarrow> (Ok NewNodeVotes, s')
       | Some v \<Rightarrow> (obind (NodeVotes_DecodeMsgpack mp v) (\<lambda>(score, _). Ok score), s'))"

definition saveNodeVotes ::
  "msgpack_lib \<Rightarrow> 's KVStore \<Rightarrow> NodeId \<Rightarrow> NodeVotesImpl \<Rightarrow> 's \<Rightarrow> unit outcome \<times> 's" where
  "saveNodeVotes mp kv nodeId votes s =
     kv_Put kv (node_bytes nodeId) (NodeVotes_EncodeMsgpack mp votes) s"

definition vote :: "msgpack_lib \<Rightarrow> 's KVStore \<Rightarrow> NodeId \<Rightarrow> bool \<Rightarrow> 's \<Rightarrow> unit outcome \<times> 's" where
  "vote mp kv nodeId upvote s =
     sbind (readNodeVotes mp kv nodeId s) (\<lambda>votes s'.
       saveNodeVotes mp kv nodeId (if upvote then Upvote votes else Downvote votes) s')"

definition UpVote :: "msgpack_lib \<Rightarrow> 's KVStore \<Rightarrow> NodeId \<Rightarrow> 's \<Rightarrow> unit outcome \<times> 's" where
  "UpVote mp kv nodeId s = vote mp kv nodeId True s"

definition DownVote :: "msgpack_lib \<Rightarrow> 's KVStore \<Rightarrow> NodeId \<Rightarrow> 's \<Rightarrow> unit outcome \<times> 's" where
  "DownVote mp kv nodeId s = vote mp kv nodeId False s"

text \<open>The score comes with the error: a failed read scores one half.\<close>

definition GetNodeScore ::
  "msgpack_lib \<Rightarrow> 's KVStore \<Rightarrow> NodeId \<Rightarrow> NodeId \<Rightarrow> 's \<Rightarrow> (real \<times> go_error option) outcome \<times> 's" where
  "GetNodeScore mp kv localNodeID nodeId s =
     (if NodeId_Equals nodeId (ArgNodeId localNodeID) then (Ok (1, None), s)
      else case readNodeVotes mp kv nodeId s of
          (Err e, s') \<Rightarrow> (Ok (1 / 2, Some e), s')
        | (Panic, s') \<Rightarrow> (Panic, s')
        | (Ok score, s') \<Rightarrow> (Ok (CalculateNodeScore (nv_good score) (nv_bad score), None), s'))"

text \<open>
  The loop over the nodes: it fills the map of scores, keyed by hash code, and keeps the last
  error. \<open>spare\<close> is what lies behind each identity in its backing array.
\<close>

primrec score_nodes ::
  "msgpack_lib \<Rightarrow> 's KVStore \<Rightarrow> NodeId \<Rightarrow> (NodeId \<Rightarrow> bytes) \<Rightarrow> NodeId list \<Rightarrow>
   (int \<rightharpoonup> real) \<times> go_error option \<Rightarrow> 's \<Rightarrow> ((int \<rightharpoonup> real) \<times> go_error option) outcome \<times> 's" where
  "score_nodes mp kv self spare [] acc s = (Ok acc, s)"
| "score_nodes mp kv self spare (n # ns) acc s =
     sbind (GetNodeScore mp kv self n s) (\<lambda>(score, err) s'.
       sbind (NodeId_HashCode (spare n) n, s') (\<lambda>code s''.
         score_nodes mp kv self spare ns
           (case err of
              Some e \<Rightarrow> ((fst acc)(code \<mapsto> 0), Some e)
            | None \<Rightarrow> ((fst acc)(code \<mapsto> score), snd acc)) s''))"

text \<open>
  \<open>sort.Slice\<close> is not stable: it is a parameter that permutes the slice so that no element
  is less than one before it. A missing map entry reads as 0.
\<close>

type_synonym slice_sorter = "(NodeId \<Rightarrow> real) \<Rightarrow> NodeId list \<Rightarrow> NodeId list"

definition sorter_laws :: "slice_sorter \<Rightarrow> bool" where
  "sorter_laws srt \<longleftrightarrow>
     (\<forall>f xs. mset (srt f xs) = mset xs \<and> sorted_wrt (\<lambda>x y. f y \<le> f x) (srt f xs))"

definition SortNodesByScore ::
  "msgpack_lib \<Rightarrow> 's KVStore \<Rightarrow> slice_sorter \<Rightarrow> NodeId \<Rightarrow> (NodeId \<Rightarrow> bytes) \<Rightarrow> NodeId list \<Rightarrow> 's \<Rightarrow>
   (NodeId list \<times> go_error option) outcome \<times> 's" where
  "SortNodesByScore mp kv srt self spare nodes s =
     sbind (score_nodes mp kv self spare nodes (Map.empty, None) s) (\<lambda>(scores, err) s'.
       (Ok (srt (\<lambda>n. case NodeId_HashCode (spare n) n of
                       Ok c \<Rightarrow> (case scores c of None \<Rightarrow> 0 | Some x \<Rightarrow> x) | _ \<Rightarrow> 0) nodes, err), s'))"

section \<open>Counting\<close>

text \<open>The votes a store holds on a node: none without an entry, or with one that does not decode.\<close>

definition votes_in :: "msgpack_lib \<Rightarrow> (bytes \<rightharpoonup> bytes) \<Rightarrow> NodeId \<Rightarrow> NodeVotesImpl outcome" where
  "votes_in mp m n = (case m (node_bytes n) of
     None \<Rightarrow> Ok NewNodeVotes
   | Some v \<Rightarrow> obind (NodeVotes_DecodeMsgpack mp v) (\<lambda>(score, _). Ok score))"

definition score_in :: "msgpack_lib \<Rightarrow> (bytes \<rightharpoonup> bytes) \<Rightarrow> NodeId \<Rightarrow> NodeId \<Rightarrow> real" where
  "score_in mp m self n =
     (if n = self then 1 else case votes_in mp m n of
        Ok v \<Rightarrow> CalculateNodeScore (nv_good v) (nv_bad v) | _ \<Rightarrow> 1 / 2)"

definition valid_votes :: "NodeVotesImpl \<Rightarrow> bool" where
  "valid_votes v \<longleftrightarrow> int64_range (nv_good v) \<and> int64_range (nv_bad v)"

lemma NodeVotes_decode_encode:
  "msgpack_laws mp \<Longrightarrow> valid_votes v \<Longrightarrow>
     NodeVotes_DecodeMsgpack mp (NodeVotes_EncodeMsgpack mp v) = Ok (v, [])"
  using msgpack_int [of mp "nv_good v" "mp_EncodeInt mp (nv_bad v)"]
    msgpack_int [of mp "nv_bad v" "[]"]
  by (simp add: NodeVotes_DecodeMsgpack_def NodeVotes_EncodeMsgpack_def valid_votes_def)

lemma valid_cast_vote [simp]:
  "valid_votes v \<Longrightarrow> valid_votes (Upvote v)" "valid_votes v \<Longrightarrow> valid_votes (Downvote v)"
  by (simp_all add: valid_votes_def Upvote_def Downvote_def)

lemma votes_in_valid: "msgpack_laws mp \<Longrightarrow> votes_in mp m n = Ok v \<Longrightarrow> valid_votes v"
  by (auto simp: votes_in_def NodeVotes_DecodeMsgpack_def obind_eq_Ok valid_votes_def NewNodeVotes_def
      int64_range_def [of 0] dest: msgpack_int_range split: option.splits)

lemma NodeId_Equals_iff [simp]: "NodeId_Equals n (ArgNodeId m) \<longleftrightarrow> n = m"
  by (cases n; cases m) (simp add: NodeId_Equals_def)

lemma node_bytes_eq [simp]: "node_bytes n = node_bytes m \<longleftrightarrow> n = (m :: NodeId)"
  by (cases n; cases m) simp

lemma votes_in_saved:
  "msgpack_laws mp \<Longrightarrow> valid_votes v \<Longrightarrow>
     votes_in mp (m(node_bytes n \<mapsto> NodeVotes_EncodeMsgpack mp v)) k = (if k = n then Ok v else votes_in mp m k)"
  by (simp add: votes_in_def NodeVotes_decode_encode)

context kv_store
begin

lemma readNodeVotes_Ok:
  assumes "inv s" "readNodeVotes mp kv n s = (Ok v, s')"
  shows "votes_in mp (contents s) n = Ok v \<and> inv s' \<and> contents s' = contents s"
  by (rule get_cases [OF assms(1), of "node_bytes n"])
    (use assms(2) in \<open>auto simp: readNodeVotes_def votes_in_def split: option.splits\<close>)

lemma readNodeVotes_frame:
  assumes "inv s" "readNodeVotes mp kv n s = (r, s')"
  shows "inv s' \<and> contents s' = contents s"
  by (rule get_cases [OF assms(1), of "node_bytes n"])
    (use assms(2) in \<open>auto simp: readNodeVotes_def split: option.splits\<close>)

lemma vote_Ok:
  assumes "inv s" "msgpack_laws mp" "vote mp kv n up s = (Ok (), s')"
  obtains v where "votes_in mp (contents s) n = Ok v" "inv s'"
    "\<And>k. votes_in mp (contents s') k =
       (if k = n then Ok (if up then Upvote v else Downvote v) else votes_in mp (contents s) k)"
proof -
  from assms(3) obtain v s1 where rd: "readNodeVotes mp kv n s = (Ok v, s1)"
    and wr: "kv_Put kv (node_bytes n) (NodeVotes_EncodeMsgpack mp (if up then Upvote v else Downvote v)) s1
      = (Ok (), s')"
    by (auto simp: vote_def saveNodeVotes_def sbind_eq_Ok)
  from readNodeVotes_Ok [OF assms(1) rd]
  have v: "votes_in mp (contents s) n = Ok v" and s1: "inv s1" "contents s1 = contents s" by auto
  have "valid_votes v" using votes_in_valid [OF assms(2) v] .
  then have valid: "valid_votes (if up then Upvote v else Downvote v)" by simp
  have "inv s'" using put_frame [OF s1(1) wr] by simp
  then show thesis
    using put_ok [OF s1(1) wr] v s1(2) by (intro that) (simp_all add: votes_in_saved [OF assms(2) valid])
qed

lemma vote_Err:
  assumes "inv s" "msgpack_laws mp" "vote mp kv n up s = (Err e, s')"
  shows "inv s' \<and> (\<forall>k. k \<noteq> n \<longrightarrow> votes_in mp (contents s') k = votes_in mp (contents s) k)"
proof -
  obtain r s1 where rd: "readNodeVotes mp kv n s = (r, s1)" by fastforce
  note s1 = readNodeVotes_frame [OF assms(1) rd]
  show ?thesis
  proof (cases r)
    case (Ok v)
    with assms(3) rd have "kv_Put kv (node_bytes n)
        (NodeVotes_EncodeMsgpack mp (if up then Upvote v else Downvote v)) s1 = (Err e, s')"
      by (simp add: vote_def saveNodeVotes_def)
    from put_frame [OF conjunct1 [OF s1] this] s1 show ?thesis by (auto simp: votes_in_def)
  qed (use assms(3) rd s1 in \<open>auto simp: vote_def\<close>)
qed

lemma GetNodeScore_Ok:
  assumes "inv s" "GetNodeScore mp kv self n s = (Ok (x, None), s')"
  shows "x = score_in mp (contents s) self n \<and> inv s' \<and> contents s' = contents s"
  using assms readNodeVotes_Ok [OF assms(1)]
  by (cases "readNodeVotes mp kv n s")
    (auto simp: GetNodeScore_def score_in_def split: if_splits outcome.splits)

lemma GetNodeScore_frame:
  assumes "inv s" "GetNodeScore mp kv self n s = (r, s')"
  shows "inv s' \<and> contents s' = contents s"
  using assms readNodeVotes_frame [OF assms(1)]
  by (cases "readNodeVotes mp kv n s") (auto simp: GetNodeScore_def split: if_splits outcome.splits)

end


section \<open>The score\<close>

text \<open>With \<open>n\<close> votes the average is pulled towards one half by \<open>2 ^ (- ln (n + 1))\<close>.\<close>

lemma score_weight:
  assumes "0 \<le> g" "0 \<le> b" "0 < g + b" "g + b < 2 ^ 63 - 1"
  obtains w where "0 < w" "w < 1"
    "CalculateNodeScore g b - 1 / 2 = (real_of_int g / real_of_int (g + b) - 1 / 2) * (1 - w)"
proof -
  let ?n = "g + b" and ?w = "2 powr (- ln (real_of_int (g + b + 1)))"
  have "int64_range ?n" "int64_range (?n + 1)" using assms by (simp_all add: int64_range_def)
  then have "CalculateNodeScore g b - 1 / 2 = (real_of_int g / real_of_int ?n - 1 / 2) * (1 - ?w)"
    using assms by (simp add: CalculateNodeScore_def Let_def algebra_simps)
  moreover have "0 < ln (real_of_int (?n + 1))"
    using assms by (intro ln_gt_zero) linarith
  then have "?w < 1" by (simp add: powr_less_one)
  ultimately show thesis by (intro that [of ?w]) simp_all
qed

lemma score_bounds:
  assumes "0 \<le> g" "0 \<le> b" "g + b < 2 ^ 63 - 1"
  shows "0 < CalculateNodeScore g b \<and> CalculateNodeScore g b < 1"
proof (cases "g + b = 0")
  case True
  then have "CalculateNodeScore g b = 1 / 2" by (simp add: CalculateNodeScore_def int64_range_def)
  then show ?thesis by simp
next
  case False
  with assms obtain w where w: "0 < w" "w < 1"
    and sc: "CalculateNodeScore g b - 1 / 2 = (real_of_int g / real_of_int (g + b) - 1 / 2) * (1 - w)"
    by (metis score_weight add_nonneg_nonneg order_le_less)
  let ?a = "real_of_int g / real_of_int (g + b) - 1 / 2"
  have "- (1 / 2) \<le> ?a" "?a \<le> 1 / 2" using assms False by (simp_all add: divide_le_eq)
  then have "\<bar>?a\<bar> \<le> 1 / 2" by (intro abs_leI) linarith+
  then have "\<bar>?a\<bar> * (1 - w) \<le> 1 / 2 * (1 - w)" using w by (intro mult_right_mono) auto
  moreover have "1 / 2 * (1 - w) < 1 / 2" using w by simp
  ultimately have "\<bar>?a\<bar> * (1 - w) < 1 / 2" by linarith
  then have "\<bar>CalculateNodeScore g b - 1 / 2\<bar> < 1 / 2" using w by (simp add: sc abs_mult del: of_int_add)
  then show ?thesis by (simp only: abs_less_iff) linarith
qed

lemma score_above_half:
  assumes "0 \<le> g" "0 \<le> b" "g + b < 2 ^ 63 - 1"
  shows "1 / 2 < CalculateNodeScore g b \<longleftrightarrow> b < g"
proof (cases "g + b = 0")
  case True
  then have "CalculateNodeScore g b = 1 / 2" by (simp add: CalculateNodeScore_def int64_range_def)
  then show ?thesis using True assms by simp
next
  case False
  with assms obtain w where w: "0 < w" "w < 1"
    and sc: "CalculateNodeScore g b - 1 / 2 = (real_of_int g / real_of_int (g + b) - 1 / 2) * (1 - w)"
    by (metis score_weight add_nonneg_nonneg order_le_less)
  have "1 / 2 < CalculateNodeScore g b \<longleftrightarrow> 0 < CalculateNodeScore g b - 1 / 2" by simp
  also have "\<dots> \<longleftrightarrow> 0 < real_of_int g / real_of_int (g + b) - 1 / 2"
    unfolding sc using w by (simp add: zero_less_mult_iff)
  also have "\<dots> \<longleftrightarrow> b < g" using assms False by (simp add: less_divide_eq)
  finally show ?thesis .
qed


section \<open>Sorting\<close>

lemma sorter_permutes: "sorter_laws srt \<Longrightarrow> mset (srt f xs) = mset xs"
  and sorter_sorted: "sorter_laws srt \<Longrightarrow> sorted_wrt (\<lambda>x y. f y \<le> f x) (srt f xs)"
  by (simp_all add: sorter_laws_def)

definition code_of :: "(NodeId \<Rightarrow> bytes) \<Rightarrow> NodeId \<Rightarrow> int" where
  "code_of spare n = (case NodeId_HashCode (spare n) n of Ok c \<Rightarrow> c | _ \<Rightarrow> 0)"

context kv_store
begin

lemma score_nodes_Ok:
  assumes "inv s" "score_nodes mp kv self spare ns acc s = (Ok (m, None), s')"
  shows "snd acc = None \<and> inv s' \<and> contents s' = contents s \<and>
    (\<forall>n \<in> set ns. NodeId_HashCode (spare n) n = Ok (code_of spare n)) \<and>
    m = fst acc ++ map_of (rev (map (\<lambda>n. (code_of spare n, score_in mp (contents s) self n)) ns))"
  using assms
proof (induction ns arbitrary: acc s)
  case (Cons n ns)
  from Cons.prems obtain x err s1 c where sc: "GetNodeScore mp kv self n s = (Ok (x, err), s1)"
    and c: "NodeId_HashCode (spare n) n = Ok c"
    and rest: "score_nodes mp kv self spare ns (case err of Some e \<Rightarrow> ((fst acc)(c \<mapsto> 0), Some e)
        | None \<Rightarrow> ((fst acc)(c \<mapsto> x), snd acc)) s1 = (Ok (m, None), s')"
    by (auto simp: sbind_eq_Ok)
  from GetNodeScore_frame [OF Cons.prems(1) sc] have s1: "inv s1" "contents s1 = contents s" by auto
  note IH = Cons.IH [OF s1(1) rest]
  have err: "err = None" using IH by (cases err) auto
  with sc have "x = score_in mp (contents s) self n"
    using GetNodeScore_Ok [OF Cons.prems(1)] by blast
  moreover have "code_of spare n = c" by (simp add: code_of_def c)
  ultimately show ?case using IH err c s1(2) by (simp del: fun_upd_apply)
qed (simp add: prod_eq_iff)

lemma SortNodesByScore_Ok:
  assumes "inv s" "sorter_laws srt" "inj_on (code_of spare) (set nodes)"
    and "SortNodesByScore mp kv srt self spare nodes s = (Ok (out, None), s')"
  shows "mset out = mset nodes \<and>
    sorted_wrt (\<lambda>x y. score_in mp (contents s) self y \<le> score_in mp (contents s) self x) out"
proof -
  let ?sc = "score_in mp (contents s) self"
  from assms(4) obtain m where m: "score_nodes mp kv self spare nodes (Map.empty, None) s = (Ok (m, None), s')"
    and out: "out = srt (\<lambda>n. case NodeId_HashCode (spare n) n of
        Ok c \<Rightarrow> (case m c of None \<Rightarrow> 0 | Some x \<Rightarrow> x) | _ \<Rightarrow> 0) nodes"
    by (auto simp: SortNodesByScore_def sbind_eq_Ok)
  note S = score_nodes_Ok [OF assms(1) m]
  have look: "m (code_of spare n) = Some (?sc n)" if "n \<in> set nodes" for n
  proof -
    have "map_of (map (\<lambda>n. (code_of spare n, ?sc n)) (rev nodes)) (code_of spare n) = Some (?sc n)"
      using that assms(3) by (induction nodes rule: rev_induct) (auto simp: inj_on_def)
    then show ?thesis using S by (simp add: rev_map map_add_def)
  qed
  let ?f = "\<lambda>n. case NodeId_HashCode (spare n) n of Ok c \<Rightarrow> (case m c of None \<Rightarrow> 0 | Some x \<Rightarrow> x) | _ \<Rightarrow> 0"
  have f: "?f n = ?sc n" if "n \<in> set nodes" for n
    using look [OF that] S that by simp
  have perm: "mset out = mset nodes" and sorted: "sorted_wrt (\<lambda>x y. ?f y \<le> ?f x) out"
    unfolding out using assms(2) by (rule sorter_permutes, rule sorter_sorted)
  have "set out = set nodes" using perm by (metis set_mset_mset)
  with sorted have "sorted_wrt (\<lambda>x y. ?sc y \<le> ?sc x) out"
    using f by (intro sorted_wrt_mono_rel [OF _ sorted]) auto
  with perm show ?thesis by blast
qed

end


section \<open>Properties\<close>

text \<open>
  A vote that is reported as cast is counted once, for its node only: any later read of
  a node's votes gives what was read before, with one more vote of the given kind if it is the
  node voted on.
\<close>
lemma vote_is_counted:
  assumes "bbolt_inv b w" "msgpack_laws mp"
    and "readNodeVotes mp (Bbolt_methods b) k w = (Ok v, w0)"
    and "vote mp (Bbolt_methods b) n up w0 = (Ok (), w1)"
    and "readNodeVotes mp (Bbolt_methods b) k w1 = (Ok v', w2)"
  shows "v' = (if k = n then if up then Upvote v else Downvote v else v)"
proof -
  note before = bbolt.readNodeVotes_Ok [OF assms(1,3)]
  obtain u where "votes_in mp (bbolt_contents b w0) n = Ok u" "bbolt_inv b w1"
    "\<And>k. votes_in mp (bbolt_contents b w1) k =
       (if k = n then Ok (if up then Upvote u else Downvote u) else votes_in mp (bbolt_contents b w0) k)"
    using before assms(2,4) by (metis bbolt.vote_Ok)
  then show ?thesis using before bbolt.readNodeVotes_Ok [OF _ assms(5)] by (auto split: if_splits)
qed

text \<open>
  The score of a node with votes is strictly between 0 and 1 (1 is kept for the local
  node), and above one half exactly when the good votes are in the majority.
\<close>
lemma node_score_bounds:
  assumes "0 \<le> good" "0 \<le> bad" "good + bad < 2 ^ 63 - 1"
  shows "0 < CalculateNodeScore good bad \<and> CalculateNodeScore good bad < 1 \<and>
    (1 / 2 < CalculateNodeScore good bad \<longleftrightarrow> bad < good)"
  using score_bounds [OF assms] score_above_half [OF assms] by simp

text \<open>
  C39: when no read errs and no two of the nodes share a hash code, \<open>SortNodesByScore\<close>
  returns the nodes rearranged so that their scores do not increase.
\<close>
theorem SortNodesByScore_descending:
  assumes "etcd_inv e w" "sorter_laws srt" "inj_on (code_of spare) (set nodes)"
    and "SortNodesByScore mp (Etcd_methods e) srt self spare nodes w = (Ok (out, None), w')"
  shows "mset out = mset nodes \<and>
    sorted_wrt (\<lambda>x y. score_in mp (etcd_contents e w) self y \<le> score_in mp (etcd_contents e w) self x) out"
  using assms by (rule etcd.SortNodesByScore_Ok)

definition plain_sorter :: slice_sorter where
  "plain_sorter f xs = rev (sort_key f xs)"

lemma plain_sorter_laws: "sorter_laws plain_sorter"
proof -
  have "sorted_wrt (\<lambda>x y. f y \<le> f x) (rev (sort_key f xs))" for f :: "NodeId \<Rightarrow> real" and xs
    using sorted_sort_key [of f xs] by (simp add: sorted_wrt_rev sorted_map)
  then show ?thesis by (simp add: sorter_laws_def plain_sorter_def)
qed

theorem SortNodesByScore_descending_witness:
  "\<exists>out w'. SortNodesByScore wide_msgpack (Etcd_methods (NewEtcdKVStore plain_etcd ''s5'' None 0)) plain_sorter
       (NewNodeId [1, 0, 0, 0]) (\<lambda>_. []) [NewNodeId [2, 0, 0, 0], NewNodeId [1, 0, 0, 0]] (Map.empty, ())
       = (Ok (out, None), w') \<and> mset out = {#NewNodeId [1, 0, 0, 0], NewNodeId [2, 0, 0, 0]#}"
proof -
  let ?e = "NewEtcdKVStore plain_etcd ''s5'' (None :: unit Cache option) 0"
  let ?ns = "[NewNodeId [2, 0, 0, 0], NewNodeId [1, 0, 0, 0]]"
  have code: "NodeId_HashCode [] (NewNodeId [a, 0, 0, 0]) = Ok (uint a)" for a
    by (simp add: NodeId_HashCode_def NewNodeId_def go_slice_def HashCode_def)
  have inj: "inj_on (code_of (\<lambda>_. [])) (set ?ns)"
    by (auto simp: inj_on_def code_of_def code)
  have inv: "etcd_inv ?e (Map.empty, ())"
    using plain_etcd_laws by (simp add: etcd_inv_def NewEtcdKVStore_def)
  have get: "readNodeVotes wide_msgpack (Etcd_methods ?e) n (Map.empty, ()) = (Ok NewNodeVotes, (Map.empty, ()))" for n
    by (simp add: readNodeVotes_def Etcd_methods_def Etcd_Get_def NewEtcdKVStore_def plain_etcd_def
        cache_lookup_def)
  have score: "\<exists>x. GetNodeScore wide_msgpack (Etcd_methods ?e) l n (Map.empty, ()) = (Ok (x, None), (Map.empty, ()))"
    for l n by (simp add: GetNodeScore_def get)
  obtain x y where xy: "GetNodeScore wide_msgpack (Etcd_methods ?e) (NewNodeId [1, 0, 0, 0]) (NewNodeId [2, 0, 0, 0])
      (Map.empty, ()) = (Ok (x, None), (Map.empty, ()))"
    "GetNodeScore wide_msgpack (Etcd_methods ?e) (NewNodeId [1, 0, 0, 0]) (NewNodeId [1, 0, 0, 0])
      (Map.empty, ()) = (Ok (y, None), (Map.empty, ()))"
    using score by metis
  obtain out w' where run: "SortNodesByScore wide_msgpack (Etcd_methods ?e) plain_sorter
      (NewNodeId [1, 0, 0, 0]) (\<lambda>_. []) ?ns (Map.empty, ()) = (Ok (out, None), w')"
    by (simp add: SortNodesByScore_def code xy)
  have "mset out = {#NewNodeId [1, 0, 0, 0], NewNodeId [2, 0, 0, 0]#}"
    using SortNodesByScore_descending [OF inv plain_sorter_laws inj run] by (simp add: add_mset_commute)
  with run show ?thesis by blast
qed

end
