(* ===== verification/CID.thy ===== *)
theory CID
  imports Multihash
begin

text \<open>
  \<open>encoding/multibase.go\<close>, \<open>encoding/encoding.go\<close>, \<open>encoding/cid.go\<close> and
  \<open>encoding/encrypted_cid.go\<close>: content identifiers, their byte form and its parser, the
  registry and text forms, and encrypted identifiers. Lemmas: every parser outcome, the
  round trips (and the one the bridge type does not have), and the panics.
\<close>

section \<open>encoding/multibase.go\<close>

definition ErrMultibaseEncodingNotSupported :: go_error where
  "ErrMultibaseEncodingNotSupported = GoError ''multibase encoding not supported'' []"

definition errMultibaseDecodeZeroLength :: go_error where
  "errMultibaseDecodeZeroLength = GoError ''cannot decode multibase for zero length string'' []"

definition MultibaseDecodeString :: "multibase_lib \<Rightarrow> string \<Rightarrow> bytes outcome" where
  "MultibaseDecodeString mb data =
     (case data of
        [] \<Rightarrow> Err errMultibaseDecodeZeroLength
      | c # _ \<Rightarrow>
          if c \<in> {CHR ''z'', CHR ''f'', CHR ''u'', CHR ''b''}
          then obind (mb_Decode mb data) (\<lambda>(_, bs). Ok bs)
          else if c = CHR '':'' then Ok (bytes_of_string data)
          else Err ErrMultibaseEncodingNotSupported)"

text \<open>
  The methods of \<open>multibaseImpl\<close>, over the bytes its \<open>Encoder\<close> yields.
\<close>

definition multibase_ToHex :: "multibase_lib \<Rightarrow> bytes \<Rightarrow> string outcome" where
  "multibase_ToHex mb bs = ToHex mb bs"

definition multibase_ToBase32 :: "multibase_lib \<Rightarrow> bytes \<Rightarrow> string outcome" where
  "multibase_ToBase32 mb bs = ToBase32 mb bs"

definition multibase_ToBase64Url :: "multibase_lib \<Rightarrow> bytes \<Rightarrow> string outcome" where
  "multibase_ToBase64Url mb bs = ToBase64Url mb bs"

definition multibase_ToBase58 :: "multibase_lib \<Rightarrow> bytes \<Rightarrow> string outcome" where
  "multibase_ToBase58 mb bs = ToBase58BTC mb bs"

definition multibase_ToString :: "multibase_lib \<Rightarrow> bytes \<Rightarrow> string outcome" where
  "multibase_ToString mb bs = multibase_ToBase58 mb bs"

section \<open>encoding/encoding.go\<close>

definition strip_quotes :: "string \<Rightarrow> string" where
  "strip_quotes s =
     (if length s \<ge> 2 \<and> s ! 0 = CHR 0x22 \<and> s ! (length s - 1) = CHR 0x22
      then take (length s - 2) (drop 1 s) else s)"

definition UnmarshalBase64UrlJSON :: "multibase_lib \<Rightarrow> bytes \<Rightarrow> bytes outcome" where
  "UnmarshalBase64UrlJSON mb data =
     (let strData = strip_quotes (string_of_bytes data) in
      if strData = ''null'' then Ok []
      else case MultibaseDecodeString mb strData of
          Ok decodedData \<Rightarrow> Ok decodedData
        | Panic \<Rightarrow> Panic
        | Err err \<Rightarrow>
            if err \<noteq> ErrMultibaseEncodingNotSupported then Err err
            else base64url_DecodeString strData)"

section \<open>encoding/cid.go\<close>

record CID =
  cid_Type :: int
  cid_Hash :: Multihash
  cid_Size :: u64

definition errEmptyBytes :: go_error where "errEmptyBytes = GoError ''empty bytes'' []"
definition errInvalidInputType :: go_error where
  "errInvalidInputType = GoError ''invalid input type for bytes'' []"

definition NewCID :: "int \<Rightarrow> Multihash \<Rightarrow> u64 \<Rightarrow> CID" where
  "NewCID Type Hash Size = \<lparr>cid_Type = Type, cid_Hash = Hash, cid_Size = Size\<rparr>"

definition getPrefixBytes :: "CID \<Rightarrow> bytes" where
  "getPrefixBytes cid = [to_byte (cid_Type cid)]"

text \<open>The loop that removes the zero bytes at the end of the encoded size.\<close>

function strip_zeros :: "bytes \<Rightarrow> bytes" where
  "strip_zeros bs = (if 0 < length bs \<and> bs ! (length bs - 1) = 0
                     then strip_zeros (take (length bs - 1) bs) else bs)"
  by pat_completeness auto
termination
  by (relation "measure length") auto

declare strip_zeros.simps [simp del]

definition ToBytes :: "CID \<Rightarrow> bytes" where
  "ToBytes cid =
     (if cid_Type cid = CIDTypeBridge then fullBytes (cid_Hash cid)
      else if cid_Type cid = CIDTypeRaw then
        (let sizeBytes = strip_zeros (EncodeEndian (cid_Size cid) 8);
             sizeBytes' = (if length sizeBytes = 0 then [0] else sizeBytes)
         in ConcatBytes [getPrefixBytes cid, fullBytes (cid_Hash cid), sizeBytes'])
      else ConcatBytes [getPrefixBytes cid, fullBytes (cid_Hash cid)])"

definition initCID :: "bytes \<Rightarrow> bytes \<Rightarrow> CID outcome" where
  "initCID spare bs =
     (if length bs = 0 then Err errEmptyBytes
      else let cidType = uint (bs ! 0) in
        if cidType = CIDTypeBridge then
          obind (go_slice spare bs 1 35) (\<lambda>h. Ok (NewCID cidType (NewMultihash h) 0))
        else if length bs < 34 then Err (GoError ''invalid cid'' [])
        else obind (go_slice spare bs 1 34) (\<lambda>hashBytes.
          let hash = NewMultihash hashBytes;
              sz = (if length bs > 34 then DecodeEndian (drop 34 bs) else 0)
          in if CIDTypeMap cidType = None then Err (GoError ''invalid cid type'' [cidType])
             else Ok (NewCID cidType hash sz)))"

definition CIDFromBytes :: "bytes \<Rightarrow> bytes \<Rightarrow> CID outcome" where
  "CIDFromBytes spare bs = initCID spare bs"

definition CIDFromString :: "multibase_lib \<Rightarrow> bytes \<Rightarrow> string \<Rightarrow> CID outcome" where
  "CIDFromString mb spare cid = obind (MultibaseDecodeString mb cid) (initCID spare)"

definition CIDFromRegistry :: "bytes \<Rightarrow> bytes \<Rightarrow> CID outcome" where
  "CIDFromRegistry spare bs =
     (if length bs = 0 then Err errEmptyBytes
      else if RegistryTypeMap (uint (bs ! 0)) = None
        then Err (GoError ''invalid registry type'' [uint (bs ! 0)])
      else initCID spare (drop 1 bs))"

text \<open>The dynamic type of an \<open>interface{}\<close> argument: a string, bytes, or anything else.\<close>

datatype bytes_arg = ArgString string | ArgBytes bytes | ArgUnsupported

definition CIDFromHash :: "bytes_arg \<Rightarrow> u64 \<Rightarrow> int \<Rightarrow> int \<Rightarrow> CID outcome" where
  "CIDFromHash arg sz cidType hashType =
     obind (case arg of ArgString v \<Rightarrow> hex_DecodeString v | ArgBytes v \<Rightarrow> Ok v
            | ArgUnsupported \<Rightarrow> Err errInvalidInputType) (\<lambda>byteSlice.
       if CIDTypeMap cidType = None then Err (GoError ''invalid hash type'' [cidType])
       else Ok (NewCID cidType (MultihashFromBytes byteSlice hashType) sz))"

definition CIDVerify :: "multibase_lib \<Rightarrow> bytes \<Rightarrow> bytes_arg \<Rightarrow> bool outcome" where
  "CIDVerify mb spare arg =
     (case (case arg of ArgString v \<Rightarrow> MultibaseDecodeString mb v | ArgBytes v \<Rightarrow> Ok v
            | ArgUnsupported \<Rightarrow> Err errInvalidInputType) of
        Panic \<Rightarrow> Panic
      | Err _ \<Rightarrow> Ok False
      | Ok byteSlice \<Rightarrow>
          (case initCID spare byteSlice of Ok _ \<Rightarrow> Ok True | Err _ \<Rightarrow> Ok False | Panic \<Rightarrow> Panic))"

definition CopyWith :: "CID \<Rightarrow> int \<Rightarrow> u64 \<Rightarrow> CID outcome" where
  "CopyWith cid newType newSize =
     (let t = (if newType = 0 then cid_Type cid else newType) in
      if CIDTypeMap t = None then Err (GoError ''invalid cid type'' [t])
      else Ok (NewCID t (cid_Hash cid) newSize))"

definition ToRegistryEntry :: "CID \<Rightarrow> bytes" where
  "ToRegistryEntry cid = ConcatBytes [[to_byte RegistryTypeCID], ToBytes cid]"

definition ToRegistryCID :: "CID \<Rightarrow> bytes outcome" where
  "ToRegistryCID cid = obind (CopyWith cid CIDTypeResolver (cid_Size cid)) (\<lambda>c. Ok (ToBytes c))"

definition CID_ToString :: "multibase_lib \<Rightarrow> CID \<Rightarrow> string outcome" where
  "CID_ToString mb cid =
     (if cid_Type cid = CIDTypeBridge then Multihash_ToString (cid_Hash cid)
      else ToBase58BTC mb (ToBytes cid))"

definition CID_Equals :: "CID \<Rightarrow> CID \<Rightarrow> bool" where
  "CID_Equals cid other \<longleftrightarrow> ToBytes cid = ToBytes other"

definition CID_HashCode :: "CID \<Rightarrow> int" where
  "CID_HashCode cid =
     (let full = ToBytes cid in
      if length full < 4 then 0
      else uint (full ! 0) + push_bit 8 (uint (full ! 1)) + push_bit 16 (uint (full ! 2))
         + push_bit 24 (uint (full ! 3)))"

definition CID_UnmarshalJSON :: "multibase_lib \<Rightarrow> bytes \<Rightarrow> bytes \<Rightarrow> CID outcome" where
  "CID_UnmarshalJSON mb spare data = obind (UnmarshalBase64UrlJSON mb data) (CIDFromBytes spare)"

definition CIDFromRegistryPublicKey :: "bytes_arg \<Rightarrow> CID outcome" where
  "CIDFromRegistryPublicKey pubkey = CIDFromHash pubkey 0 CIDTypeResolver HashTypeEd25519"

subsection \<open>The byte form\<close>

text \<open>The identifiers that the byte form represents faithfully: every type but the bridge.\<close>

definition valid_cid :: "CID \<Rightarrow> bool" where
  "valid_cid cid \<longleftrightarrow> CIDTypeMap (cid_Type cid) \<noteq> None \<and> cid_Type cid \<noteq> CIDTypeBridge \<and>
     length (fullBytes (cid_Hash cid)) = 33 \<and> (cid_Type cid = CIDTypeRaw \<or> cid_Size cid = 0)"

definition size_tail :: "CID \<Rightarrow> bytes" where
  "size_tail cid =
     (if cid_Type cid = CIDTypeRaw
      then (let t = strip_zeros (EncodeEndian (cid_Size cid) 8) in if t = [] then [0] else t) else [])"

lemma strip_zeros_append: "\<exists>n. bs = strip_zeros bs @ replicate n 0"
proof (induction bs rule: strip_zeros.induct)
  case (1 bs)
  show ?case
  proof (cases "0 < length bs \<and> bs ! (length bs - 1) = 0")
    case True
    then obtain n where n: "take (length bs - 1) bs = strip_zeros bs @ replicate n 0"
      using 1 by (auto simp: strip_zeros.simps [of bs])
    have "bs = take (length bs - 1) bs @ [0]"
      using True by (metis append_butlast_last_id butlast_conv_take last_conv_nth length_greater_0_conv)
    with n have "bs = strip_zeros bs @ replicate (Suc n) 0"
      by (metis append_assoc replicate_append_same replicate_Suc)
    then show ?thesis ..
  next
    case False
    then have "strip_zeros bs = bs" by (subst strip_zeros.simps, subst if_not_P [OF False]) (rule refl)
    then have "bs = strip_zeros bs @ replicate 0 0" by simp
    then show ?thesis ..
  qed
qed

lemma DecodeEndian_strip_zeros [simp]: "DecodeEndian (strip_zeros bs) = DecodeEndian bs"
  by (metis strip_zeros_append DecodeEndian_trailing_zeros)

lemma DecodeEndian_empty [simp]: "DecodeEndian [] = 0"
  by (simp add: DecodeEndian_value)

lemma DecodeEndian_size_tail:
  "cid_Type cid = CIDTypeRaw \<or> cid_Size cid = 0 \<Longrightarrow> DecodeEndian (size_tail cid) = cid_Size cid"
proof -
  have full: "DecodeEndian (EncodeEndian v 8) = v" for v
    using le8.dec_enc [of v] by simp
  have "DecodeEndian (if t = [] then [0] else t) = DecodeEndian t" for t
    by (simp add: DecodeEndian_value)
  then show "cid_Type cid = CIDTypeRaw \<or> cid_Size cid = 0 \<Longrightarrow> ?thesis"
    by (auto simp: size_tail_def Let_def full)
qed

lemma ToBytes_layout:
  "cid_Type cid \<noteq> CIDTypeBridge \<Longrightarrow>
     ToBytes cid = to_byte (cid_Type cid) # fullBytes (cid_Hash cid) @ size_tail cid"
  by (simp add: ToBytes_def size_tail_def getPrefixBytes_def ConcatBytes_def Let_def)

lemma initCID_layout:
  assumes "length h = 33" "uint b \<noteq> CIDTypeBridge" "CIDTypeMap (uint b) \<noteq> None"
  shows "initCID spare (b # h @ r) = Ok (NewCID (uint b) (NewMultihash h) (DecodeEndian r))"
  using assms by (auto simp: initCID_def go_slice_def Let_def)

lemma initCID_ToBytes: "valid_cid cid \<Longrightarrow> initCID spare (ToBytes cid) = Ok cid"
proof -
  assume v: "valid_cid cid"
  then have "uint (to_byte (cid_Type cid)) = cid_Type cid"
    using CIDTypeMap_bound [of "cid_Type cid"] by (intro uint_to_byte) (auto simp: valid_cid_def)
  with v show ?thesis
    by (simp add: valid_cid_def ToBytes_layout initCID_layout DecodeEndian_size_tail NewCID_def NewMultihash_def)
qed

interpretation cid: byte_codec ToBytes "initCID spare" valid_cid for spare
  by unfold_locales (rule initCID_ToBytes)

lemma length_strip_zeros: "length (strip_zeros bs) \<le> length bs"
  using strip_zeros_append [of bs] by (metis length_append le_add1)

lemma length_ToRegistryEntry: "valid_cid c \<Longrightarrow> length (ToRegistryEntry c) \<le> 43"
  using length_strip_zeros [of "EncodeEndian (cid_Size c) 8"]
  by (auto simp: valid_cid_def ToRegistryEntry_def ConcatBytes_def ToBytes_layout size_tail_def Let_def)

text \<open>Every outcome of the parser.\<close>

lemma initCID_cases:
  "initCID spare bs =
     (if bs = [] then Err errEmptyBytes
      else if bs ! 0 = 0x3a then
        (if 35 \<le> length bs + length spare
         then Ok \<lparr>cid_Type = CIDTypeBridge, cid_Hash = \<lparr>fullBytes = take 34 (tl bs @ spare)\<rparr>, cid_Size = 0\<rparr>
         else Panic)
      else if length bs < 34 then Err (GoError ''invalid cid'' [])
      else if CIDTypeMap (uint (bs ! 0)) = None
        then Err (GoError ''invalid cid type'' [uint (bs ! 0)])
      else Ok \<lparr>cid_Type = uint (bs ! 0), cid_Hash = \<lparr>fullBytes = take 33 (tl bs)\<rparr>,
               cid_Size = DecodeEndian (drop 34 bs)\<rparr>)"
  by (cases bs) (auto simp: initCID_def go_slice_def Let_def bridge_byte NewCID_def NewMultihash_def,
      simp_all add: CIDTypeBridge_def)

lemma initCID_panics_iff:
  "initCID spare bs = Panic \<longleftrightarrow> bs \<noteq> [] \<and> bs ! 0 = 0x3a \<and> length bs + length spare < 35"
  by (auto simp: initCID_cases)

lemma initCID_Ok_valid:
  assumes "initCID spare bs = Ok cid" "bs ! 0 \<noteq> 0x3a"
  shows "length bs \<ge> 34" "cid_Type cid = uint (bs ! 0)" "CIDTypeMap (cid_Type cid) \<noteq> None"
    "cid_Type cid \<noteq> CIDTypeBridge" "fullBytes (cid_Hash cid) = take 33 (drop 1 bs)"
    "length (fullBytes (cid_Hash cid)) = 33"
  using assms by (auto simp: initCID_cases bridge_byte drop_Suc split: if_splits)

text \<open>Parsing and printing again gives a normal form that parses to the same identifier.\<close>

lemma initCID_stable:
  assumes "initCID spare bs = Ok cid" "bs ! 0 \<noteq> 0x3a"
  shows "initCID spare' (ToBytes cid) =
    Ok (if cid_Type cid = CIDTypeRaw then cid else cid\<lparr>cid_Size := 0\<rparr>)"
proof -
  let ?c = "if cid_Type cid = CIDTypeRaw then cid else cid\<lparr>cid_Size := 0\<rparr>"
  from initCID_Ok_valid [OF assms] have "valid_cid ?c" by (auto simp: valid_cid_def)
  moreover have "ToBytes cid = ToBytes ?c"
    by (simp add: ToBytes_def getPrefixBytes_def)
  ultimately show ?thesis by (metis initCID_ToBytes)
qed

lemma CID_ToString_roundtrip:
  assumes "multibase_laws mb" "valid_cid cid"
  obtains s where "CID_ToString mb cid = Ok s" "CIDFromString mb spare s = Ok cid"
proof -
  have "multibase_prefix ''base58btc'' = Some (CHR ''z'')" by (simp add: multibase_prefix_def)
  with assms(1) obtain s where "ToBase mb (ToBytes cid) ''base58btc'' = Ok (CHR ''z'' # s)"
    "mb_Decode mb (CHR ''z'' # s) = Ok (mb_EncoderByName mb ''base58btc'', ToBytes cid)"
    by (rule ToBase_Ok)
  then show thesis
    using assms(2) by (intro that [of "CHR ''z'' # s"])
      (simp_all add: CID_ToString_def ToBase58BTC_def CIDFromString_def MultibaseDecodeString_def
        valid_cid_def initCID_ToBytes)
qed

section \<open>encoding/encrypted_cid.go\<close>

record EncryptedCID =
  encryptedBlobHash :: Multihash
  OriginalCID :: CID
  encryptionAlgorithm :: byte
  padding :: u64
  chunkSizeAsPowerOf2 :: int
  encryptionKey :: bytes

definition NewEncryptedCID ::
  "Multihash \<Rightarrow> CID \<Rightarrow> bytes \<Rightarrow> u64 \<Rightarrow> int \<Rightarrow> byte \<Rightarrow> EncryptedCID" where
  "NewEncryptedCID blobHash originalCID key pad chunk alg =
     \<lparr>encryptedBlobHash = blobHash, OriginalCID = originalCID, encryptionAlgorithm = alg,
      padding = pad, chunkSizeAsPowerOf2 = chunk, encryptionKey = key\<rparr>"

definition EncryptedCIDFromBytes :: "bytes \<Rightarrow> bytes \<Rightarrow> EncryptedCID outcome" where
  "EncryptedCIDFromBytes spare data =
     obind (go_index data 0) (\<lambda>b0.
     if uint b0 \<noteq> CIDTypeEncryptedStatic then Err (GoError ''Invalid CID type'' [])
     else obind (obind (go_from data 72) (CIDFromBytes spare)) (\<lambda>cid.
     obind (go_slice spare data 3 36) (\<lambda>blob.
     obind (go_slice spare data 36 68) (\<lambda>key.
     obind (go_slice spare data 68 72) (\<lambda>padBytes.
     obind (go_index data 2) (\<lambda>chunk.
     obind (go_index data 1) (\<lambda>alg.
       Ok (NewEncryptedCID (NewMultihash blob) cid key (DecodeEndian padBytes) (uint chunk) alg))))))))"

definition DecodeEncryptedCID :: "multibase_lib \<Rightarrow> bytes \<Rightarrow> string \<Rightarrow> EncryptedCID outcome" where
  "DecodeEncryptedCID mb spare cid =
     obind (MultibaseDecodeString mb cid) (EncryptedCIDFromBytes spare)"

text \<open>\<open>1 << uint(n)\<close> on a 64-bit \<open>int\<close>: zero from 64 on, and negative counts are huge.\<close>

definition ChunkSize :: "EncryptedCID \<Rightarrow> int" where
  "ChunkSize c =
     (let n = chunkSizeAsPowerOf2 c in
      if n < 0 \<or> 64 \<le> n then 0 else sint (push_bit (nat n) (1 :: u64)))"

definition EncryptedCID_ToBytes :: "EncryptedCID \<Rightarrow> bytes" where
  "EncryptedCID_ToBytes c =
     [to_byte CIDTypeEncryptedStatic, encryptionAlgorithm c, to_byte (chunkSizeAsPowerOf2 c)]
     @ fullBytes (encryptedBlobHash c) @ encryptionKey c @ EncodeEndian (padding c) 4
     @ ToBytes (OriginalCID c)"

definition EncryptedCID_ToString :: "multibase_lib \<Rightarrow> EncryptedCID \<Rightarrow> string outcome" where
  "EncryptedCID_ToString mb c = multibase_ToString mb (EncryptedCID_ToBytes c)"

definition EncryptedCID_UnmarshalJSON ::
  "multibase_lib \<Rightarrow> bytes \<Rightarrow> bytes \<Rightarrow> EncryptedCID outcome" where
  "EncryptedCID_UnmarshalJSON mb spare data =
     obind (UnmarshalBase64UrlJSON mb data) (EncryptedCIDFromBytes spare)"

definition valid_ecid :: "EncryptedCID \<Rightarrow> bool" where
  "valid_ecid c \<longleftrightarrow> length (fullBytes (encryptedBlobHash c)) = 33 \<and> length (encryptionKey c) = 32 \<and>
     unat (padding c) < 256 ^ 4 \<and> 0 \<le> chunkSizeAsPowerOf2 c \<and> chunkSizeAsPowerOf2 c < 256 \<and>
     valid_cid (OriginalCID c)"

lemma EncryptedCIDFromBytes_layout:
  assumes "length blob = 33" "length key = 32" "length pad = 4"
  shows "EncryptedCIDFromBytes spare (0xae # alg # chunk # blob @ key @ pad @ rest) =
    obind (CIDFromBytes spare rest) (\<lambda>cid.
      Ok (NewEncryptedCID (NewMultihash blob) cid key (DecodeEndian pad) (uint chunk) alg))"
  using assms
  by (cases "CIDFromBytes spare rest")
    (simp_all add: EncryptedCIDFromBytes_def go_slice_def go_consts)

lemma EncryptedCIDFromBytes_ToBytes:
  assumes "valid_ecid c"
  shows "EncryptedCIDFromBytes spare (EncryptedCID_ToBytes c) = Ok c"
  using assms
  by (simp add: valid_ecid_def EncryptedCID_ToBytes_def EncryptedCIDFromBytes_layout CIDFromBytes_def
      initCID_ToBytes le4.dec_enc [simplified] uint_to_byte NewEncryptedCID_def NewMultihash_def
      CIDTypeEncryptedStatic_def)

interpretation ecid: byte_codec EncryptedCID_ToBytes "EncryptedCIDFromBytes spare" valid_ecid for spare
  by unfold_locales (rule EncryptedCIDFromBytes_ToBytes)


lemma CIDFromRegistry_entry: "valid_cid c \<Longrightarrow> CIDFromRegistry spare (ToRegistryEntry c) = Ok c"
  using cid.dec_enc [of c spare]
  by (simp add: CIDFromRegistry_def CIDFromBytes_def ToRegistryEntry_def ConcatBytes_def RegistryTypeMap_def go_consts)

section \<open>Properties\<close>



text \<open>
  The base58 text form is read back by \<open>CIDFromString\<close>.
\<close>
lemma CID_text_roundtrip:
  assumes "multibase_laws mb" "valid_cid c"
  shows "\<exists>s. CID_ToString mb c = Ok s \<and> CIDFromString mb spare s = Ok c"
  using assms by (metis CID_ToString_roundtrip)

text \<open>
  When the parser returns, errs and panics. It accepts exactly a known type byte followed
  by at least 33 bytes, or a bridge byte with 34 bytes in reach; the only panic is the slice
  expression \<open>bytes[1:35]\<close> of a bridge identifier that is too short.
\<close>
lemma initCID_outcomes:
  "(initCID spare bs = Panic \<longleftrightarrow> bs \<noteq> [] \<and> bs ! 0 = 0x3a \<and> length bs + length spare < 35) \<and>
   ((\<exists>c. initCID spare bs = Ok c) \<longleftrightarrow>
      bs \<noteq> [] \<and> (if bs ! 0 = 0x3a then 35 \<le> length bs + length spare
                  else 34 \<le> length bs \<and> CIDTypeMap (uint (bs ! 0)) \<noteq> None))"
  by (auto simp: initCID_cases)

text \<open>
  Parsing is stable. Whatever an accepted byte string looks like (a size with zero bytes
  at the end, bytes behind the hash of a type without a size), printing the result gives a
  form that parses to the same identifier, without the size when the type carries none.
\<close>
lemma CID_reparse_stable:
  assumes "initCID spare bs = Ok c" "bs ! 0 \<noteq> 0x3a"
  shows "initCID spare' (ToBytes c) = Ok (if cid_Type c = CIDTypeRaw then c else c\<lparr>cid_Size := 0\<rparr>)"
  using assms by (rule initCID_stable)

text \<open>
  On the identifiers with a byte form \<open>Equals\<close> is equality, and equal identifiers have
  the same hash code.
\<close>
lemma CID_Equals_iff:
  assumes "valid_cid c" "valid_cid d"
  shows "(CID_Equals c d \<longleftrightarrow> c = d) \<and> (CID_Equals c d \<longrightarrow> CID_HashCode c = CID_HashCode d)"
  using assms cid.enc_inj [of c d] by (simp add: CID_Equals_def CID_HashCode_def)

text \<open>
  A bridge identifier has no byte round trip. Reading \<open>':'\<close> and 34 bytes gives an
  identifier whose byte form is those 34 bytes, without the type byte that \<open>CIDFromBytes\<close>
  looks for, and whose registry form is therefore that of another identifier or of none.
\<close>
lemma bridge_CID_loses_type:
  assumes "length h = 34" "h ! 0 \<noteq> 0x3a"
  shows "\<exists>c. CIDFromBytes spare (0x3a # h) = Ok c \<and> cid_Type c = CIDTypeBridge \<and> ToBytes c = h \<and>
    CIDFromBytes spare' (ToBytes c) \<noteq> Ok c"
proof -
  let ?c = "NewCID CIDTypeBridge (NewMultihash h) 0"
  have "CIDFromBytes spare (0x3a # h) = Ok ?c"
    using assms by (simp add: CIDFromBytes_def initCID_cases NewCID_def NewMultihash_def)
  moreover have "cid_Type ?c = CIDTypeBridge" "ToBytes ?c = h"
    by (simp_all add: NewCID_def ToBytes_def NewMultihash_def)
  moreover have "CIDFromBytes spare' h \<noteq> Ok ?c"
    using assms by (auto simp: CIDFromBytes_def initCID_cases NewCID_def bridge_byte split: if_splits)
  ultimately show ?thesis by metis
qed

text \<open>
  Encrypted identifiers: the byte form is read back unchanged for every identifier with a
  33-byte hash, a 32-byte key, a padding below \<open>2^32\<close> and a one-byte chunk exponent.
\<close>
lemma EncryptedCID_roundtrip:
  assumes "valid_ecid c"
  shows "EncryptedCIDFromBytes spare (EncryptedCID_ToBytes c) = Ok c"
  by (rule ecid.dec_enc) (rule assms)

definition sample_ecid :: EncryptedCID where
  "sample_ecid = NewEncryptedCID (NewMultihash (replicate 33 2))
     (NewCID CIDTypeRaw (NewMultihash (replicate 33 1)) 5) (replicate 32 3) 17 18 0xa6"

text \<open>
  The encrypted parser panics exactly on an empty input, on an input with the right type
  byte that ends before the original identifier, and where that identifier is a bridge one
  that is too short.
\<close>
lemma EncryptedCIDFromBytes_panics_iff:
  "EncryptedCIDFromBytes spare data = Panic \<longleftrightarrow>
     data = [] \<or> data ! 0 = 0xae \<and>
       (length data < 72 \<or> length data \<noteq> 72 \<and> data ! 72 = 0x3a \<and> length data + length spare < 107)"
proof -
  have type_byte: "uint b = CIDTypeEncryptedStatic \<longleftrightarrow> b = 0xae" for b :: byte
  proof
    assume "uint b = CIDTypeEncryptedStatic"
    then have "uint b = uint (0xae :: byte)" by (simp add: go_consts)
    then show "b = 0xae" by (simp only: word_uint_eqI)
  qed (simp add: go_consts)
  consider "data = []" | "data \<noteq> []" "data ! 0 \<noteq> 0xae" | "data \<noteq> []" "data ! 0 = 0xae" "length data < 72"
    | "data \<noteq> []" "data ! 0 = 0xae" "72 \<le> length data" by linarith
  then show ?thesis
  proof cases
    case 4
    then have "EncryptedCIDFromBytes spare data = Panic \<longleftrightarrow> initCID spare (drop 72 data) = Panic"
      by (cases "initCID spare (drop 72 data)")
        (simp_all add: EncryptedCIDFromBytes_def type_byte go_slice_within CIDFromBytes_def)
    also have "\<dots> \<longleftrightarrow> length data \<noteq> 72 \<and> data ! 72 = 0x3a \<and> length data + length spare < 107"
      using 4 unfolding initCID_panics_iff by auto
    finally show ?thesis using 4 by simp
  qed (simp_all add: EncryptedCIDFromBytes_def type_byte go_index_def go_from_def)
qed

end
