(* ===== verification/Registry_Entry.thy ===== *)
theory Registry_Entry
  imports Multihash
begin

text \<open>
  \<open>protocol/registry.go\<close>: signed registry entries, the bytes that are signed and verified, and
  the wire form with its parser. Lemmas: every parser outcome, the two round trips, that
  signing binds revision and data, and that a signed entry verifies.
\<close>

section \<open>Entries\<close>

record SignedRegistryEntry =
  sre_pk :: bytes
  sre_revision :: u64
  sre_data :: bytes
  sre_signature :: bytes

definition NewSignedRegistryEntry :: "bytes \<Rightarrow> u64 \<Rightarrow> bytes \<Rightarrow> bytes \<Rightarrow> SignedRegistryEntry" where
  "NewSignedRegistryEntry pk revision data signature =
     \<lparr>sre_pk = pk, sre_revision = revision, sre_data = data, sre_signature = signature\<rparr>"

text \<open>A nil public key is \<open>None\<close>. The data length is cut to one byte.\<close>

definition MarshalRegistryEntry :: "bytes option \<Rightarrow> bytes \<Rightarrow> u64 \<Rightarrow> bytes" where
  "MarshalRegistryEntry pk data revision =
     [to_byte RecordTypeRegistryEntry]
     @ (case pk of None \<Rightarrow> [] | Some p \<Rightarrow> p)
     @ EncodeEndian revision 8
     @ [word_of_nat (length data)]
     @ data"

definition MarshalSignedRegistryEntry :: "SignedRegistryEntry \<Rightarrow> bytes" where
  "MarshalSignedRegistryEntry sre =
     MarshalRegistryEntry (Some (sre_pk sre)) (sre_data sre) (sre_revision sre) @ sre_signature sre"

definition SignRegistryEntry ::
  "ed25519_lib \<Rightarrow> KeyPairEd25519 \<Rightarrow> bytes \<Rightarrow> u64 \<Rightarrow> SignedRegistryEntry outcome" where
  "SignRegistryEntry ed kp data revision =
     (let buffer = MarshalRegistryEntry None data revision in
      obind (ed25519_Sign ed (ExtractBytes kp) buffer) (\<lambda>signature.
      obind (PublicKey kp) (\<lambda>pk.
        Ok (NewSignedRegistryEntry pk revision data signature))))"

record RegistryEntryImpl =
  re_kp :: KeyPairEd25519
  re_data :: bytes
  re_revision :: u64

definition RegistryEntry_Sign :: "ed25519_lib \<Rightarrow> RegistryEntryImpl \<Rightarrow> SignedRegistryEntry outcome" where
  "RegistryEntry_Sign ed r = SignRegistryEntry ed (re_kp r) (re_data r) (re_revision r)"

definition VerifyRegistryEntry :: "ed25519_lib \<Rightarrow> SignedRegistryEntry \<Rightarrow> bool outcome" where
  "VerifyRegistryEntry ed sre =
     (let buffer = MarshalRegistryEntry None (sre_data sre) (sre_revision sre) in
      obind (go_from (sre_pk sre) 1) (\<lambda>publicKey.
        ed25519_Verify ed publicKey buffer (sre_signature sre)))"

definition err_invalid_entry :: go_error where
  "err_invalid_entry = GoError ''Invalid registry entry'' []"
definition err_entry_signature :: go_error where
  "err_entry_signature = GoError ''Invalid signature'' []"

definition UnmarshalSignedRegistryEntry :: "bytes \<Rightarrow> SignedRegistryEntry outcome" where
  "UnmarshalSignedRegistryEntry event =
     (if length event < 43 then Err err_invalid_entry
      else obind (go_index event 42) (\<lambda>l.
        let dataLength = unat l in
        if length event < 43 + dataLength then Err err_invalid_entry
        else obind (go_slice [] event 1 34) (\<lambda>pk.
             obind (go_slice [] event 34 42) (\<lambda>revisionBytes.
             let revision = DecodeEndian revisionBytes; signatureStart = 43 + dataLength in
             if signatureStart < length event then
               obind (go_from event signatureStart) (\<lambda>signature.
               obind (go_slice [] event 43 signatureStart) (\<lambda>data.
                 Ok (NewSignedRegistryEntry pk revision data signature)))
             else Err err_entry_signature))))"

section \<open>The wire form\<close>

text \<open>The entries whose wire form can be read back.\<close>

definition wire_entry :: "SignedRegistryEntry \<Rightarrow> bool" where
  "wire_entry sre \<longleftrightarrow> length (sre_pk sre) = 33 \<and> length (sre_data sre) < 256 \<and> sre_signature sre \<noteq> []"

lemma Unmarshal_layout:
  assumes "length pk = 33" "length rb = 8" "length data = unat l" "sig \<noteq> []"
  shows "UnmarshalSignedRegistryEntry (t # pk @ rb @ l # data @ sig) =
    Ok (NewSignedRegistryEntry pk (DecodeEndian rb) data sig)"
proof -
  let ?e = "t # pk @ rb @ l # data @ sig"
  have "?e ! 42 = l" using assms by (simp add: nth_append)
  moreover have "drop (43 + unat l) ((t # pk @ rb @ l # data) @ sig) = sig"
    by (rule drop_prefix) (use assms in simp)
  moreover have "take (unat l) (drop 43 ?e) = data"
    "take 33 (drop 1 ?e) = pk" "take 8 (drop 34 ?e) = rb"
    using assms by (simp_all flip: assms(3))
  ultimately show ?thesis
    using assms
    by (simp add: UnmarshalSignedRegistryEntry_def go_slice_def Let_def del: drop_Suc_Cons take_Suc_Cons)
qed

lemma MarshalSigned_layout:
  "MarshalSignedRegistryEntry sre =
     0x07 # sre_pk sre @ EncodeEndian (sre_revision sre) 8
       @ word_of_nat (length (sre_data sre)) # sre_data sre @ sre_signature sre"
  by (simp add: MarshalSignedRegistryEntry_def MarshalRegistryEntry_def go_consts)

lemma Unmarshal_Marshal:
  assumes "wire_entry sre"
  shows "UnmarshalSignedRegistryEntry (MarshalSignedRegistryEntry sre) = Ok sre"
proof -
  have "unat (word_of_nat (length (sre_data sre)) :: byte) = length (sre_data sre)"
    using assms by (simp add: wire_entry_def unat_of_nat)
  then show ?thesis
    using assms le8.dec_enc
    by (simp add: MarshalSigned_layout Unmarshal_layout wire_entry_def NewSignedRegistryEntry_def)
qed

interpretation entry: byte_codec MarshalSignedRegistryEntry UnmarshalSignedRegistryEntry wire_entry
  by unfold_locales (rule Unmarshal_Marshal)

lemma Unmarshal_cases:
  "UnmarshalSignedRegistryEntry event =
     (if length event < 43 \<or> length event < 43 + unat (event ! 42) then Err err_invalid_entry
      else if length event = 43 + unat (event ! 42) then Err err_entry_signature
      else Ok \<lparr>sre_pk = take 33 (drop 1 event), sre_revision = DecodeEndian (take 8 (drop 34 event)),
               sre_data = take (unat (event ! 42)) (drop 43 event),
               sre_signature = drop (43 + unat (event ! 42)) event\<rparr>)"
  by (auto simp: UnmarshalSignedRegistryEntry_def go_slice_within Let_def NewSignedRegistryEntry_def)

lemma Unmarshal_no_panic: "UnmarshalSignedRegistryEntry event \<noteq> Panic"
  by (simp add: Unmarshal_cases)

lemma Unmarshal_Ok_wire: "UnmarshalSignedRegistryEntry event = Ok sre \<Longrightarrow> wire_entry sre"
  by (auto simp: Unmarshal_cases wire_entry_def split: if_splits)

text \<open>Printing a parsed entry gives the message back, but for its unchecked first byte.\<close>

lemma Marshal_Unmarshal:
  assumes "UnmarshalSignedRegistryEntry event = Ok sre"
  shows "MarshalSignedRegistryEntry sre = 0x07 # tl event"
proof -
  let ?l = "event ! 42" and ?d = "drop 43 event"
  from assms have len: "length event > 43 + unat ?l"
    and sre: "sre = \<lparr>sre_pk = take 33 (drop 1 event), sre_revision = DecodeEndian (take 8 (drop 34 event)),
      sre_data = take (unat ?l) ?d, sre_signature = drop (unat ?l) ?d\<rparr>"
    by (auto simp: Unmarshal_cases add.commute split: if_splits)
  have rev: "EncodeEndian (DecodeEndian (take 8 (drop 34 event))) 8 = take 8 (drop 34 event)"
    using EncodeEndian_DecodeEndian [of "take 8 (drop 34 event)"] len by simp
  have "tl event = take 33 (drop 1 event) @ drop 34 event"
    using drop_split [of 1 33 34 event] by (simp add: drop_Suc)
  also have "drop 34 event = take 8 (drop 34 event) @ drop 42 event"
    by (rule drop_split) simp
  also have "drop 42 event = ?l # ?d"
    using len Cons_nth_drop_Suc [of 42 event] by simp
  also have "?d = take (unat ?l) ?d @ drop (unat ?l) ?d" by (rule append_take_drop_id [symmetric])
  finally show ?thesis using rev len
    by (simp add: sre MarshalSigned_layout)
qed

section \<open>Signatures\<close>

text \<open>The signed bytes determine the revision and the data, of any length.\<close>

lemma MarshalRegistryEntry_inj:
  assumes "MarshalRegistryEntry None data r = MarshalRegistryEntry None data' r'"
  shows "data = data' \<and> r = r'"
proof -
  from assms have "EncodeEndian r 8 @ word_of_nat (length data) # data =
      EncodeEndian r' 8 @ word_of_nat (length data') # data'"
    by (simp add: MarshalRegistryEntry_def)
  then have "EncodeEndian r 8 = EncodeEndian r' 8" "data = data'" by simp_all
  then show ?thesis using le8.enc_inj by blast
qed

lemma Sign_Verify:
  assumes "usable_key ed kp"
  obtains sre where "SignRegistryEntry ed kp data revision = Ok sre"
    "VerifyRegistryEntry ed sre = Ok True" "sre_revision sre = revision" "sre_data sre = data"
    "sre_pk sre = 0xed # drop 32 (kp_Bytes kp)" "length (sre_signature sre) = 64"
proof -
  obtain sig where "ed25519_Sign ed (ExtractBytes kp) (MarshalRegistryEntry None data revision) = Ok sig"
    "length sig = 64"
    "ed25519_Verify ed (drop 32 (kp_Bytes kp)) (MarshalRegistryEntry None data revision) sig = Ok True"
    using assms by (rule sign_verify)
  then show thesis
    using PublicKey_usable [OF assms]
    by (intro that [of "NewSignedRegistryEntry (0xed # drop 32 (kp_Bytes kp)) revision data sig"])
      (simp_all add: SignRegistryEntry_def VerifyRegistryEntry_def NewSignedRegistryEntry_def Let_def)
qed


section \<open>Properties\<close>

text \<open>
  An entry with a 33-byte public key, less than 256 data bytes and a signature is read
  back from its wire form unchanged.
\<close>
lemma entry_wire_roundtrip:
  assumes "length (sre_pk sre) = 33" "length (sre_data sre) < 256" "sre_signature sre \<noteq> []"
  shows "UnmarshalSignedRegistryEntry (MarshalSignedRegistryEntry sre) = Ok sre"
  by (rule entry.dec_enc) (simp add: wire_entry_def assms)

text \<open>
  An entry with 256 data bytes or more does not survive its wire form: the length is
  cut to one byte, and the parser returns another entry or an error.
\<close>
lemma long_entry_lost:
  assumes "256 \<le> length (sre_data sre)"
  shows "UnmarshalSignedRegistryEntry (MarshalSignedRegistryEntry sre) \<noteq> Ok sre"
  using assms Unmarshal_Ok_wire [of "MarshalSignedRegistryEntry sre" sre] by (auto simp: wire_entry_def)

text \<open>
  The parser never panics, and what it accepts prints back to the message it read, byte
  for byte but for the record type in front, which the parser does not look at.
\<close>
lemma entry_parse_print:
  "UnmarshalSignedRegistryEntry event \<noteq> Panic \<and>
   (\<forall>sre. UnmarshalSignedRegistryEntry event = Ok sre \<longrightarrow>
      MarshalSignedRegistryEntry sre = 0x07 # tl event)"
  by (simp add: Unmarshal_no_panic Marshal_Unmarshal)

text \<open>
  Signing and verifying agree. An entry signed with a usable key has the key pair's
  public key, the given revision and data, verifies, and (with less than 256 data bytes) still
  does after it has been sent and read back.
\<close>
lemma signed_entry_verifies:
  assumes "usable_key ed kp" "length data < 256"
  shows "\<exists>sre. SignRegistryEntry ed kp data revision = Ok sre \<and> PublicKey kp = Ok (sre_pk sre) \<and>
    sre_revision sre = revision \<and> sre_data sre = data \<and>
    obind (UnmarshalSignedRegistryEntry (MarshalSignedRegistryEntry sre)) (VerifyRegistryEntry ed) = Ok True"
proof -
  from assms(1) obtain sre where sre: "SignRegistryEntry ed kp data revision = Ok sre"
    "VerifyRegistryEntry ed sre = Ok True" "sre_revision sre = revision" "sre_data sre = data"
    "sre_pk sre = 0xed # drop 32 (kp_Bytes kp)" "length (sre_signature sre) = 64"
    by (rule Sign_Verify)
  moreover have "length (kp_Bytes kp) = 64" using assms(1) by (simp add: usable_key_def)
  ultimately have "wire_entry sre" using assms(2) by (auto simp: wire_entry_def)
  then show ?thesis using sre PublicKey_usable [OF assms(1)] entry.dec_enc by auto
qed

text \<open>
  A signature binds the revision and the data of an entry: the bytes that \<open>Sign\<close> signs
  and \<open>Verify\<close> checks differ when either differs, for data of any length.
\<close>
lemma signed_bytes_determine_entry:
  "MarshalRegistryEntry None data r = MarshalRegistryEntry None data' r' \<longleftrightarrow> data = data' \<and> r = r'"
  using MarshalRegistryEntry_inj by auto

end
