(* ===== verification/Node_World.thy ===== *)
theory Node_World
  imports Storage_Location Node_Votes CID Registry_Entry
begin

text \<open>
  \<open>net/peer.go\<close>, \<open>net/ws.go\<close> and the state the services of a node share: the peers (objects on
  the heap, shared by the tables that hold them), the tables of the p2p and the registry
  service, the store, the goroutines that have been started (\<open>w_tasks\<close>), the peers whose messages
  are read (\<open>w_listening\<close>), and logs of what was dialled and what was written to which peer. What the node gets from
  outside (stores, transport, libraries, configuration) is one record, \<open>env\<close>.
\<close>

section \<open>Peers\<close>

text \<open>
  A parsed \<open>url.URL\<close>, as far as the code looks at it: the scheme, and the user name with the
  password, if one is set.
\<close>

record URL =
  url_Scheme :: string
  url_User :: "(string \<times> string option) option"
  url_Rest :: string

text \<open>
  A \<open>*NodeId\<close> is compared by address in the sets of the routing table: a pointer is an address
  with the identity it points to, which is never changed.
\<close>

type_synonym node_ptr = "nat \<times> NodeId"

text \<open>A \<open>WebSocketPeer\<close> with its \<open>BasePeer\<close>; a reference to one is a number.\<close>

record Peer =
  pe_connectionURIs :: "URL list"
  pe_isConnected :: bool
  pe_challenge :: bytes
  pe_id :: "node_ptr option"
  pe_handshaked :: bool
  pe_abuser :: bool
  pe_ip :: string

type_synonym peer_ref = nat

text \<open>A message written to a peer, with whether the write succeeded.\<close>

record wire_event =
  we_peer :: peer_ref
  we_message :: bytes
  we_sent :: bool

section \<open>The state of a node\<close>

text \<open>
  A goroutine that has been started and has not run yet: \<open>OnNewPeer\<close> on a new connection, or
  \<open>ConnectToNode\<close> on an initial peer.
\<close>

datatype go_task = Go_OnNewPeer peer_ref bool | Go_Connect "URL list"

record 's world =
  w_store :: 's
  w_heap :: "peer_ref \<Rightarrow> Peer"
  w_wire :: "wire_event list"
  w_closed :: "peer_ref list"
  w_next :: nat
  w_started :: bool
  w_starting :: bool
  w_localNodeID :: "node_ptr option"
  w_reconnectDelay :: "(string, goval) gomap"
  w_peers :: "(string, peer_ref) gomap"
  w_peersPending :: "(string, peer_ref) gomap"
  w_outgoingPeerBlocklist :: "(string, bool) gomap"
  w_incomingPeerBlockList :: "(string, bool) gomap"
  w_incomingIPBlocklist :: "(string, bool) gomap"
  w_outgoingPeerFailures :: "(string, goval) gomap"
  w_hashQueryRoutingTable :: "(string, node_ptr option goset) gomap"
  w_streams :: "(string, nat list) gomap"
  w_subs :: "(string, Multihash) gomap"
  w_inited :: bool
  w_dials :: "URL list"
  w_tasks :: "go_task list"
  w_listening :: "(peer_ref \<times> bool) list"
  w_fired :: "(string \<times> SignedRegistryEntry) list"
  w_connections :: int
  w_waiting :: "peer_ref list"
  w_hungup :: "peer_ref list"

text \<open>
  \<open>w_connections\<close> is the counter of the wait group \<open>connections\<close>, which counts the goroutines that
  run \<open>OnNewPeer\<close>; \<open>w_waiting\<close> are those of them that wait for their listener, and \<open>w_hungup\<close> the
  peers whose \<open>OnClose\<close> has run.
\<close>

definition Tracker_Add :: "'s world \<Rightarrow> 's world" where
  "Tracker_Add w = w\<lparr>w_connections := w_connections w + 1\<rparr>"

declare Tracker_Add_def [simp]

text \<open>A counter that falls below zero panics.\<close>

definition Tracker_Done :: "'s world \<Rightarrow> unit outcome \<times> 's world" where
  "Tracker_Done w =
     (let w = w\<lparr>w_connections := w_connections w - 1\<rparr> in (if w_connections w < 0 then Panic else Ok (), w))"

definition WaitOnConnectedPeers :: "'s world \<Rightarrow> bool" where
  "WaitOnConnectedPeers w \<longleftrightarrow> w_connections w = 0"

text \<open>The interface \<open>ProviderStore\<close>.\<close>

record provider_store =
  ps_CanProvide :: "Multihash \<Rightarrow> int list \<Rightarrow> bool"
  ps_Provide :: "Multihash \<Rightarrow> int list \<Rightarrow> StorageLocationImpl outcome"

text \<open>
  What surrounds the node. \<open>v_send\<close> is the outcome of the next write to a peer, given what
  was written so far; \<open>v_spare\<close> is what lies behind a slice in its backing array; \<open>v_others\<close> is
  what other goroutines do while one sleeps. \<open>v_dial\<close> yields the socket of a new peer (its
  remote address) or an error, given the attempts so far. \<open>v_openDB\<close> opens the database,
  \<open>v_openNodes\<close> makes and opens the bucket \<open>v_nodes\<close>, and so for the others; \<open>v_Blocklist\<close> and \<open>v_InitialPeers\<close> are of the configuration.
\<close>

record 's env =
  v_mp :: msgpack_lib
  v_mb :: multibase_lib
  v_ed :: ed25519_lib
  v_openDB :: "'s \<Rightarrow> unit outcome \<times> 's"
  v_openNodes :: "'s \<Rightarrow> unit outcome \<times> 's"
  v_openRegistry :: "'s \<Rightarrow> unit outcome \<times> 's"
  v_openCache :: "'s \<Rightarrow> unit outcome \<times> 's"
  v_nodes :: "'s KVStore"
  v_registry :: "'s KVStore"
  v_cache :: "'s KVStore"
  v_locmap_enc :: "StorageLocationMap \<Rightarrow> bytes"
  v_locmap_dec :: "bytes \<Rightarrow> StorageLocationMap outcome"
  v_urlParse :: "string \<Rightarrow> URL outcome"
  v_urlString :: "URL \<Rightarrow> string"
  v_send :: "peer_ref \<Rightarrow> bytes \<Rightarrow> wire_event list \<Rightarrow> go_error option"
  v_close :: "peer_ref \<Rightarrow> peer_ref list \<Rightarrow> go_error option"
  v_dial :: "URL \<Rightarrow> URL list \<Rightarrow> string outcome"
  v_spare :: "bytes \<Rightarrow> bytes"
  v_sorter :: slice_sorter
  v_now :: int
  v_challenge :: "nat \<Rightarrow> bytes"
  v_KeyPair :: KeyPairEd25519
  v_Network :: string
  v_selfConnectionUris :: "URL list"
  v_MaxOutgoingPeerFailures :: nat
  v_MaxConnectionAttempts :: nat
  v_Blocklist :: "string list"
  v_InitialPeers :: "string list"
  v_providerStore :: "provider_store option"
  v_others :: "'s world \<Rightarrow> 's world"

section \<open>Methods of a peer\<close>

definition upd_peer :: "peer_ref \<Rightarrow> (Peer \<Rightarrow> Peer) \<Rightarrow> 's world \<Rightarrow> 's world" where
  "upd_peer p f w = w\<lparr>w_heap := (w_heap w)(p := f (w_heap w p))\<rparr>"

definition peer_Id :: "'s world \<Rightarrow> peer_ref \<Rightarrow> node_ptr option" where
  "peer_Id w p = pe_id (w_heap w p)"

definition peer_SetId :: "peer_ref \<Rightarrow> node_ptr option \<Rightarrow> 's world \<Rightarrow> 's world" where
  "peer_SetId p i = upd_peer p (\<lambda>b. b\<lparr>pe_id := i\<rparr>)"

definition peer_SetChallenge :: "peer_ref \<Rightarrow> bytes \<Rightarrow> 's world \<Rightarrow> 's world" where
  "peer_SetChallenge p c = upd_peer p (\<lambda>b. b\<lparr>pe_challenge := c\<rparr>)"

definition peer_SetConnected :: "peer_ref \<Rightarrow> bool \<Rightarrow> 's world \<Rightarrow> 's world" where
  "peer_SetConnected p c = upd_peer p (\<lambda>b. b\<lparr>pe_isConnected := c\<rparr>)"

definition peer_SetHandshakeDone :: "peer_ref \<Rightarrow> bool \<Rightarrow> 's world \<Rightarrow> 's world" where
  "peer_SetHandshakeDone p c = upd_peer p (\<lambda>b. b\<lparr>pe_handshaked := c\<rparr>)"

definition peer_SetConnectionURIs :: "peer_ref \<Rightarrow> URL list \<Rightarrow> 's world \<Rightarrow> 's world" where
  "peer_SetConnectionURIs p us = upd_peer p (\<lambda>b. b\<lparr>pe_connectionURIs := us\<rparr>)"

definition SendMessage :: "'s env \<Rightarrow> peer_ref \<Rightarrow> bytes \<Rightarrow> 's world \<Rightarrow> unit outcome \<times> 's world" where
  "SendMessage env p msg w =
     (case v_send env p msg (w_wire w) of
        Some err \<Rightarrow> (Err err, w\<lparr>w_wire := w_wire w @ [\<lparr>we_peer = p, we_message = msg, we_sent = False\<rparr>]\<rparr>)
      | None \<Rightarrow> (Ok (), w\<lparr>w_wire := w_wire w @ [\<lparr>we_peer = p, we_message = msg, we_sent = True\<rparr>]\<rparr>))"

definition peer_End :: "'s env \<Rightarrow> peer_ref \<Rightarrow> 's world \<Rightarrow> unit outcome \<times> 's world" where
  "peer_End env p w =
     (case v_close env p (w_closed w) of
        Some err \<Rightarrow> (Err err, w\<lparr>w_closed := w_closed w @ [p]\<rparr>)
      | None \<Rightarrow> (Ok (), w\<lparr>w_closed := w_closed w @ [p]\<rparr>))"

definition EndForAbuse :: "'s env \<Rightarrow> peer_ref \<Rightarrow> 's world \<Rightarrow> unit outcome \<times> 's world" where
  "EndForAbuse env p w = peer_End env p (upd_peer p (\<lambda>b. b\<lparr>pe_abuser := True\<rparr>) w)"

section \<open>Identities\<close>

text \<open>\<open>ToString\<close> and \<open>Equals\<close> on a nil pointer dereference it.\<close>

definition id_ToString :: "'s env \<Rightarrow> node_ptr option \<Rightarrow> string outcome" where
  "id_ToString env i = (case i of None \<Rightarrow> Panic | Some (_, n) \<Rightarrow> NodeId_ToString (v_mb env) n)"

definition id_Equals :: "node_ptr option \<Rightarrow> node_ptr option \<Rightarrow> bool outcome" where
  "id_Equals a b = (case (a, b) of
     (Some (_, n), Some (_, m)) \<Rightarrow> Ok (NodeId_Equals n (ArgNodeId m)) | _ \<Rightarrow> Panic)"

text \<open>\<open>receivedFrom.Id().ToString()\<close> on a peer that may be nil.\<close>

definition peer_id_string :: "'s env \<Rightarrow> peer_ref option \<Rightarrow> 's world \<Rightarrow> string outcome" where
  "peer_id_string env p w = (case p of None \<Rightarrow> Panic | Some q \<Rightarrow> id_ToString env (peer_Id w q))"

section \<open>Steps over the world\<close>

definition pure_step :: "'a outcome \<Rightarrow> 's world \<Rightarrow> 'a outcome \<times> 's world" where
  "pure_step m w = (m, w)"

definition store_step :: "('s \<Rightarrow> 'a outcome \<times> 's) \<Rightarrow> 's world \<Rightarrow> 'a outcome \<times> 's world" where
  "store_step f w = (case f (w_store w) of (r, s) \<Rightarrow> (r, w\<lparr>w_store := s\<rparr>))"

text \<open>A new address, as an allocation yields.\<close>

definition alloc :: "'s world \<Rightarrow> nat \<times> 's world" where
  "alloc w = (w_next w, w\<lparr>w_next := Suc (w_next w)\<rparr>)"

lemma pure_step_simps [simp, go_simps]:
  "pure_step (Ok a) w = (Ok a, w)" "pure_step (Err e) w = (Err e, w)" "pure_step Panic w = (Panic, w)"
  by (simp_all add: pure_step_def)

lemma store_step_eq:
  "store_step f w = (r, w') \<longleftrightarrow> (\<exists>s. f (w_store w) = (r, s) \<and> w' = w\<lparr>w_store := s\<rparr>)"
  by (auto simp: store_step_def split: prod.splits)

lemma SendMessage_result:
  assumes "SendMessage env p msg w = (r, w')"
  obtains b where "w' = w\<lparr>w_wire := w_wire w @ [\<lparr>we_peer = p, we_message = msg, we_sent = b\<rparr>]\<rparr>"
    "r = Ok () \<longleftrightarrow> b" "r \<noteq> Panic"
  using assms by (auto simp: SendMessage_def split: option.splits)

lemma SendMessage_frame [simp]:
  "w_store (snd (SendMessage env p msg w)) = w_store w"
  "w_heap (snd (SendMessage env p msg w)) = w_heap w"
  "w_peers (snd (SendMessage env p msg w)) = w_peers w"
  "w_streams (snd (SendMessage env p msg w)) = w_streams w"
  "w_fired (snd (SendMessage env p msg w)) = w_fired w"
  by (simp_all add: SendMessage_def split: option.splits)

lemma SendMessage_frames [simp]:
  "w_dials (snd (SendMessage env p m w)) = w_dials w"
  "w_listening (snd (SendMessage env p m w)) = w_listening w"
  "w_hashQueryRoutingTable (snd (SendMessage env p m w)) = w_hashQueryRoutingTable w"
  by (simp_all add: SendMessage_def split: option.splits)

lemma sbind_snd: "snd (sbind m f) = (case fst m of Ok a \<Rightarrow> snd (f a (snd m)) | _ \<Rightarrow> snd m)"
  by (cases m; cases "fst m") auto

lemma sbind_fst: "fst (sbind m f) = (case fst m of Ok a \<Rightarrow> fst (f a (snd m)) | Err e \<Rightarrow> Err e | Panic \<Rightarrow> Panic)"
  by (cases m; cases "fst m") auto

lemma pure_step_sel [simp]: "fst (pure_step m w) = m" "snd (pure_step m w) = w"
  by (simp_all add: pure_step_def)

lemma store_step_frame [simp]:
  "w_peers (snd (store_step f w)) = w_peers w" "w_heap (snd (store_step f w)) = w_heap w"
  "w_wire (snd (store_step f w)) = w_wire w" "w_hashQueryRoutingTable (snd (store_step f w)) = w_hashQueryRoutingTable w"
  by (simp_all add: store_step_def split: prod.splits)


section \<open>A sample node\<close>

text \<open>
  For the witnesses: a node with one peer, over the sample stores and libraries, whose writes
  always succeed.
\<close>

type_synonym plain_store = "plain_db \<times> (string \<rightharpoonup> bytes) LRUCache"

definition plain_id :: NodeId where "plain_id = NewNodeId (0xed # replicate 32 7)"

definition plain_peer :: Peer where
  "plain_peer = \<lparr>pe_connectionURIs = [], pe_isConnected = True, pe_challenge = [1, 2, 3],
     pe_id = Some (0, plain_id), pe_handshaked = True, pe_abuser = False, pe_ip = ''10.0.0.1''\<rparr>"

definition plain_node :: "plain_store world" where
  "plain_node = \<lparr>w_store = plain_world, w_heap = (\<lambda>_. plain_peer), w_wire = [], w_closed = [], w_next = 1,
     w_started = True, w_starting = False, w_localNodeID = Some (0, NewNodeId (0xed # replicate 32 5)),
     w_reconnectDelay = NewMap, w_peers = [(''p'', 1)], w_peersPending = NewMap,
     w_outgoingPeerBlocklist = NewMap, w_incomingPeerBlockList = NewMap, w_incomingIPBlocklist = NewMap,
     w_outgoingPeerFailures = NewMap, w_hashQueryRoutingTable = NewMap, w_streams = NewMap, w_subs = NewMap,
     w_inited = True, w_dials = [], w_tasks = [], w_listening = [], w_fired = [],
     w_connections = 0, w_waiting = [], w_hungup = []\<rparr>"

definition plain_env :: "plain_store env" where
  "plain_env = \<lparr>v_mp = wide_msgpack, v_mb = plain_multibase, v_ed = plain_ed25519,
     v_openDB = Pair (Ok ()), v_openNodes = Pair (Ok ()), v_openRegistry = Pair (Ok ()),
     v_openCache = Pair (Ok ()), v_nodes = Bbolt_methods (plain_bucket ''nodes''), v_registry = Bbolt_methods (plain_bucket ''registry''),
     v_cache = Bbolt_methods (plain_bucket ''cache''),
     v_locmap_enc = plain_locmap_enc, v_locmap_dec = plain_locmap_dec,
     v_urlParse = (\<lambda>s. Ok \<lparr>url_Scheme = ''wss'', url_User = None, url_Rest = s\<rparr>), v_urlString = url_Rest,
     v_send = (\<lambda>_ _ _. None), v_close = (\<lambda>_ _. None), v_dial = (\<lambda>_ _. Ok ''10.0.0.2''),
     v_spare = (\<lambda>_. []), v_sorter = plain_sorter, v_now = 1000, v_challenge = (\<lambda>_. replicate 32 9),
     v_KeyPair = \<lparr>kp_Bytes = replicate 64 5\<rparr>, v_Network = ''s5'', v_selfConnectionUris = [],
     v_MaxOutgoingPeerFailures = 10, v_MaxConnectionAttempts = 5, v_Blocklist = [], v_InitialPeers = [], v_providerStore = None,
     v_others = (\<lambda>w. w)\<rparr>"

lemma plain_node_peers: "w_peers plain_node = [(''p'', 1)]"
  by (simp add: plain_node_def)

lemma plain_peer_id: "\<exists>s. id_ToString plain_env (pe_id (w_heap plain_node p)) = Ok s"
  using NodeId_ToString_total [OF plain_multibase_laws]
  by (simp add: id_ToString_def plain_node_def plain_peer_def plain_env_def)

end
