(* ===== verification/Wire_Messages.thy ===== *)
theory Wire_Messages
  imports Node_World
begin

text \<open>
  The messages of \<open>protocol/\<close> and their msgpack forms: \<open>protocol.go\<close> (the frame),
  \<open>message.go\<close> and \<open>signed.go\<close> (the tables of message types), \<open>handshake_open.go\<close>,
  \<open>signed_handshake_done.go\<close>, \<open>signed_announce_peers.go\<close>, \<open>signed_message.go\<close>,
  \<open>hash_query.go\<close>, \<open>registry_entry.go\<close>, with the array helpers of \<open>utils/array.go\<close>. Lemmas:
  each message is read back by its decoder after the frame has been taken off, and a signed
  message is accepted exactly if its signature verifies.
\<close>

section \<open>utils/array.go\<close>

definition EncodeMsgpackURLs :: "msgpack_lib \<Rightarrow> (URL \<Rightarrow> string) \<Rightarrow> URL list \<Rightarrow> bytes" where
  "EncodeMsgpackURLs mp str v =
     mp_EncodeInt mp (int (length v)) @ concat (map (\<lambda>item. mp_EncodeString mp (str item)) v)"

primrec decode_items :: "msgpack_lib \<Rightarrow> nat \<Rightarrow> bytes \<Rightarrow> (goval list \<times> bytes) outcome" where
  "decode_items mp 0 r = Ok ([], r)"
| "decode_items mp (Suc n) r =
     obind (mp_DecodeInterface mp r) (\<lambda>(item, r). obind (decode_items mp n r) (\<lambda>(items, r). Ok (item # items, r)))"

text \<open>
  \<open>make([]T, n)\<close> panics for a negative \<open>n\<close>. Running out of memory for a huge one is not
  modelled.
\<close>

definition DecodeMsgpackArray :: "msgpack_lib \<Rightarrow> bytes \<Rightarrow> (goval list \<times> bytes) outcome" where
  "DecodeMsgpackArray mp r =
     obind (mp_DecodeInt mp r) (\<lambda>(arrayLen, r).
       if arrayLen < 0 then Panic else decode_items mp (nat arrayLen) r)"

primrec decode_urls :: "msgpack_lib \<Rightarrow> (string \<Rightarrow> URL outcome) \<Rightarrow> nat \<Rightarrow> bytes \<Rightarrow> (URL list \<times> bytes) outcome" where
  "decode_urls mp parse 0 r = Ok ([], r)"
| "decode_urls mp parse (Suc n) r =
     obind (mp_DecodeInterface mp r) (\<lambda>(item, r).
       case item of
         VStr urlItem \<Rightarrow>
           obind (parse urlItem) (\<lambda>u. obind (decode_urls mp parse n r) (\<lambda>(us, r). Ok (u # us, r)))
       | _ \<Rightarrow> Err (GoError ''expected string'' []))"

definition DecodeMsgpackURLArray ::
  "msgpack_lib \<Rightarrow> (string \<Rightarrow> URL outcome) \<Rightarrow> bytes \<Rightarrow> (URL list \<times> bytes) outcome" where
  "DecodeMsgpackURLArray mp parse r =
     obind (mp_DecodeInt mp r) (\<lambda>(arrayLen, r).
       if arrayLen < 0 then Panic else decode_urls mp parse (nat arrayLen) r)"

section \<open>The frame and the message types\<close>

record IncomingMessageReader =
  imr_Kind :: int
  imr_Data :: bytes

definition IncomingMessageReader_DecodeMsgpack :: "msgpack_lib \<Rightarrow> bytes \<Rightarrow> IncomingMessageReader outcome" where
  "IncomingMessageReader_DecodeMsgpack mp bs =
     obind (mp_DecodeInt mp bs) (\<lambda>(kind, raw). Ok \<lparr>imr_Kind = kind, imr_Data = raw\<rparr>)"

datatype message_type = T_HandshakeOpen | T_HashQuery | T_StorageLocation | T_RegistryEntry
  | T_RegistryQuery | T_SignedMessage

definition messageTypes :: "int \<rightharpoonup> message_type" where
  "messageTypes = map_of
     [(ProtocolMethodHandshakeOpen, T_HandshakeOpen), (ProtocolMethodHashQuery, T_HashQuery),
      (RecordTypeStorageLocation, T_StorageLocation), (RecordTypeRegistryEntry, T_RegistryEntry),
      (ProtocolMethodRegistryQuery, T_RegistryQuery), (ProtocolMethodSignedMessage, T_SignedMessage)]"

definition GetMessageType :: "int \<Rightarrow> message_type option" where
  "GetMessageType kind = messageTypes kind"

text \<open>What the constructors of the handlers set.\<close>

definition RequiresHandshake :: "message_type \<Rightarrow> bool" where
  "RequiresHandshake t = (case t of T_HandshakeOpen \<Rightarrow> False | T_SignedMessage \<Rightarrow> False | _ \<Rightarrow> True)"

datatype signed_message_type = T_HandshakeDone | T_AnnouncePeers

definition signedMessageTypes :: "int \<rightharpoonup> signed_message_type" where
  "signedMessageTypes = map_of
     [(ProtocolMethodHandshakeDone, T_HandshakeDone), (ProtocolMethodAnnouncePeers, T_AnnouncePeers)]"

definition GetSignedMessageType :: "int \<Rightarrow> signed_message_type option" where
  "GetSignedMessageType kind = signedMessageTypes kind"

definition SignedRequiresHandshake :: "signed_message_type \<Rightarrow> bool" where
  "SignedRequiresHandshake t = (case t of T_HandshakeDone \<Rightarrow> False | T_AnnouncePeers \<Rightarrow> True)"

section \<open>handshake_open.go\<close>

record HandshakeOpen =
  ho_challenge :: bytes
  ho_networkId :: string
  ho_handshake :: bytes

definition NewHandshakeOpen :: "bytes \<Rightarrow> string \<Rightarrow> HandshakeOpen" where
  "NewHandshakeOpen challenge networkId =
     \<lparr>ho_challenge = challenge, ho_networkId = networkId, ho_handshake = []\<rparr>"

definition HandshakeOpen_EncodeMsgpack :: "msgpack_lib \<Rightarrow> HandshakeOpen \<Rightarrow> bytes" where
  "HandshakeOpen_EncodeMsgpack mp h =
     mp_EncodeUint mp (word_of_int ProtocolMethodHandshakeOpen) @ mp_EncodeBytes mp (ho_challenge h)
     @ (if ho_networkId h \<noteq> [] then mp_EncodeString mp (ho_networkId h) else [])"

definition HandshakeOpen_DecodeMessage :: "msgpack_lib \<Rightarrow> bytes \<Rightarrow> HandshakeOpen outcome" where
  "HandshakeOpen_DecodeMessage mp data =
     obind (mp_DecodeBytes mp data) (\<lambda>(handshake, r).
       let h = (NewHandshakeOpen [] [])\<lparr>ho_handshake := handshake\<rparr> in
       case mp_PeekCode mp r of
         Panic \<Rightarrow> Panic
       | Err err \<Rightarrow> if err \<noteq> LibError ''EOF'' then Err err else Ok (h\<lparr>ho_networkId := []\<rparr>)
       | Ok _ \<Rightarrow> obind (mp_DecodeString mp r) (\<lambda>(networkId, _). Ok (h\<lparr>ho_networkId := networkId\<rparr>)))"

section \<open>signed_handshake_done.go\<close>

record HandshakeDone =
  hd_challenge :: bytes
  hd_supportedFeatures :: int
  hd_connectionUris :: "URL list"
  hd_handshake :: bytes

definition NewHandshakeDoneRequest :: "bytes \<Rightarrow> int \<Rightarrow> URL list \<Rightarrow> HandshakeDone" where
  "NewHandshakeDoneRequest handshake supportedFeatures connectionUris =
     \<lparr>hd_challenge = [], hd_supportedFeatures = supportedFeatures, hd_connectionUris = connectionUris,
      hd_handshake = handshake\<rparr>"

definition NewHandshakeDone :: HandshakeDone where
  "NewHandshakeDone = \<lparr>hd_challenge = [], hd_supportedFeatures = -1, hd_connectionUris = [], hd_handshake = []\<rparr>"

definition HandshakeDone_EncodeMsgpack :: "msgpack_lib \<Rightarrow> (URL \<Rightarrow> string) \<Rightarrow> HandshakeDone \<Rightarrow> bytes" where
  "HandshakeDone_EncodeMsgpack mp str m =
     mp_EncodeUint mp (word_of_int ProtocolMethodHandshakeDone) @ mp_EncodeBytes mp (hd_handshake m)
     @ mp_EncodeInt mp (hd_supportedFeatures m) @ EncodeMsgpackURLs mp str (hd_connectionUris m)"

definition HandshakeDone_DecodeMessage ::
  "msgpack_lib \<Rightarrow> (string \<Rightarrow> URL outcome) \<Rightarrow> bytes \<Rightarrow> HandshakeDone outcome" where
  "HandshakeDone_DecodeMessage mp parse data =
     obind (mp_DecodeBytes mp data) (\<lambda>(challenge, r).
     obind (mp_DecodeInt mp r) (\<lambda>(supportedFeatures, r).
     obind (DecodeMsgpackURLArray mp parse r) (\<lambda>(connectionUris, r).
       Ok (NewHandshakeDone\<lparr>hd_challenge := challenge, hd_supportedFeatures := supportedFeatures,
             hd_connectionUris := connectionUris\<rparr>))))"

section \<open>signed_announce_peers.go\<close>

text \<open>
  Decoding: the URIs of all announced peers in one list, each with its peer's identity as user
  name. The password is dropped when there is one, and empty otherwise.
\<close>

primrec decode_peer_uris ::
  "'s env \<Rightarrow> NodeId \<Rightarrow> nat \<Rightarrow> URL list \<Rightarrow> bytes \<Rightarrow> (URL list \<times> bytes) outcome" where
  "decode_peer_uris env peerId 0 uris r = Ok (uris, r)"
| "decode_peer_uris env peerId (Suc n) uris r =
     obind (mp_DecodeString (v_mp env) r) (\<lambda>(uriStr, r).
     obind (v_urlParse env uriStr) (\<lambda>uri.
     obind (NodeId_ToString (v_mb env) peerId) (\<lambda>pid.
       let (passwd, isSet) = (case url_User uri of
             Some (_, Some p) \<Rightarrow> (p, True) | _ \<Rightarrow> ([], False));
           passwd = (if isSet then [] else passwd)
       in decode_peer_uris env peerId n (uris @ [uri\<lparr>url_User := Some (pid, Some passwd)\<rparr>]) r)))"

primrec decode_peers :: "'s env \<Rightarrow> nat \<Rightarrow> URL list \<Rightarrow> bytes \<Rightarrow> (URL list \<times> bytes) outcome" where
  "decode_peers env 0 uris r = Ok (uris, r)"
| "decode_peers env (Suc n) uris r =
     obind (mp_DecodeBytes (v_mp env) r) (\<lambda>(peerIdBytes, r).
     obind (mp_DecodeBool (v_mp env) r) (\<lambda>(_, r).
     obind (mp_DecodeInt (v_mp env) r) (\<lambda>(numUris, r).
     obind (decode_peer_uris env (NewNodeId peerIdBytes) (nat numUris) uris r) (\<lambda>(uris, r).
       decode_peers env n uris r))))"

definition AnnouncePeers_DecodeMessage :: "'s env \<Rightarrow> bytes \<Rightarrow> URL list outcome" where
  "AnnouncePeers_DecodeMessage env data =
     obind (mp_DecodeInt (v_mp env) data) (\<lambda>(numPeers, r).
     obind (decode_peers env (nat numPeers) [] r) (\<lambda>(connectionURIs, _). Ok connectionURIs))"

primrec encode_peers :: "'s env \<Rightarrow> 's world \<Rightarrow> peer_ref list \<Rightarrow> bytes outcome" where
  "encode_peers env w [] = Ok []"
| "encode_peers env w (p # ps) =
     (case peer_Id w p of
        None \<Rightarrow> Panic
      | Some (_, n) \<Rightarrow>
          let uris = pe_connectionURIs (w_heap w p) in
          obind (encode_peers env w ps) (\<lambda>rest.
            Ok (mp_EncodeBytes (v_mp env) (node_bytes n) @ mp_EncodeBool (v_mp env) (pe_isConnected (w_heap w p))
              @ mp_EncodeInt (v_mp env) (int (length uris))
              @ concat (map (\<lambda>uri. mp_EncodeString (v_mp env) (v_urlString env uri)) uris) @ rest)))"

definition AnnouncePeers_EncodeMsgpack :: "'s env \<Rightarrow> 's world \<Rightarrow> peer_ref list \<Rightarrow> bytes outcome" where
  "AnnouncePeers_EncodeMsgpack env w peersToSend =
     obind (encode_peers env w peersToSend) (\<lambda>rest.
       Ok (mp_EncodeUint (v_mp env) (word_of_int ProtocolMethodAnnouncePeers)
         @ mp_EncodeInt (v_mp env) (int (length peersToSend)) @ rest))"

section \<open>signed_message.go\<close>

record SignedMessage =
  sm_nodeId :: NodeId
  sm_signature :: bytes
  sm_message :: bytes

definition errInvalidSignature :: go_error where
  "errInvalidSignature = GoError ''Invalid signature found'' []"

definition SignedMessage_EncodeMsgpack :: "msgpack_lib \<Rightarrow> SignedMessage \<Rightarrow> bytes" where
  "SignedMessage_EncodeMsgpack mp s =
     mp_EncodeInt mp ProtocolMethodSignedMessage @ mp_EncodeBytes mp (node_bytes (sm_nodeId s))
     @ mp_EncodeBytes mp (sm_signature s) @ mp_EncodeBytes mp (sm_message s)"

definition SignedMessage_DecodeMessage :: "msgpack_lib \<Rightarrow> ed25519_lib \<Rightarrow> bytes \<Rightarrow> SignedMessage outcome" where
  "SignedMessage_DecodeMessage mp ed data =
     obind (mp_DecodeBytes mp data) (\<lambda>(nodeId, r).
     obind (mp_DecodeBytes mp r) (\<lambda>(signature, r).
     obind (mp_DecodeBytes mp r) (\<lambda>(signedMessage, r).
     obind (obind (go_from nodeId 1) (\<lambda>pk. ed25519_Verify ed pk signedMessage signature)) (\<lambda>ok.
       if \<not> ok then Err errInvalidSignature
       else Ok \<lparr>sm_nodeId = NewNodeId nodeId, sm_signature = signature, sm_message = signedMessage\<rparr>))))"

definition signedMessageReader_DecodeMsgpack :: "msgpack_lib \<Rightarrow> bytes \<Rightarrow> (int \<times> bytes) outcome" where
  "signedMessageReader_DecodeMsgpack mp bs = mp_DecodeInt mp bs"

definition SignedMessage_Sign :: "ed25519_lib \<Rightarrow> KeyPairEd25519 \<Rightarrow> NodeId option \<Rightarrow> bytes \<Rightarrow> SignedMessage outcome" where
  "SignedMessage_Sign ed kp nodeId message =
     (case nodeId of
        None \<Rightarrow> Panic
      | Some n \<Rightarrow> obind (ed25519_Sign ed (ExtractBytes kp) message) (\<lambda>signature.
          Ok \<lparr>sm_nodeId = n, sm_signature = signature, sm_message = message\<rparr>))"

section \<open>hash_query.go, registry_query.go and registry_entry.go\<close>

record HashQuery =
  hq_hash :: Multihash
  hq_kinds :: "int list"

definition NewHashRequest :: "Multihash \<Rightarrow> int list \<Rightarrow> HashQuery" where
  "NewHashRequest hash kinds =
     \<lparr>hq_hash = hash, hq_kinds = (if length kinds = 0 then [StorageLocationTypeFile] else kinds)\<rparr>"

definition HashQuery_EncodeMsgpack :: "msgpack_lib \<Rightarrow> HashQuery \<Rightarrow> bytes" where
  "HashQuery_EncodeMsgpack mp h =
     mp_EncodeInt mp ProtocolMethodHashQuery @ mp_EncodeBytes mp (fullBytes (hq_hash h))
     @ mp_EncodeInts mp (hq_kinds h)"

definition HashQuery_DecodeMessage :: "msgpack_lib \<Rightarrow> bytes \<Rightarrow> HashQuery outcome" where
  "HashQuery_DecodeMessage mp data =
     obind (mp_DecodeBytes mp data) (\<lambda>(hash, r).
     obind (mp_DecodeInts mp r) (\<lambda>(kinds, r). Ok \<lparr>hq_hash = NewMultihash hash, hq_kinds = kinds\<rparr>))"

definition RegistryQuery_EncodeMsgpack :: "msgpack_lib \<Rightarrow> bytes \<Rightarrow> bytes" where
  "RegistryQuery_EncodeMsgpack mp pk =
     mp_EncodeInt mp ProtocolMethodRegistryQuery @ mp_EncodeBytes mp pk"

definition RegistryQuery_DecodeMessage :: "msgpack_lib \<Rightarrow> bytes \<Rightarrow> bytes outcome" where
  "RegistryQuery_DecodeMessage mp data = obind (mp_DecodeBytes mp data) (\<lambda>(pk, _). Ok pk)"

definition RegistryEntryRequest_EncodeMsgpack :: "msgpack_lib \<Rightarrow> SignedRegistryEntry \<Rightarrow> bytes" where
  "RegistryEntryRequest_EncodeMsgpack mp sre =
     mp_EncodeInt mp RecordTypeRegistryEntry @ mp_EncodeBytes mp (MarshalSignedRegistryEntry sre)"

definition RegistryEntryRequest_DecodeMessage :: "bytes \<Rightarrow> SignedRegistryEntry outcome" where
  "RegistryEntryRequest_DecodeMessage original = UnmarshalSignedRegistryEntry original"


section \<open>Round trips\<close>

text \<open>A message as its handler gets it: the frame taken off.\<close>

definition framed :: "msgpack_lib \<Rightarrow> bytes \<Rightarrow> (int \<Rightarrow> bytes \<Rightarrow> 'a outcome) \<Rightarrow> 'a outcome" where
  "framed mp msg f = obind (IncomingMessageReader_DecodeMsgpack mp msg) (\<lambda>m. f (imr_Kind m) (imr_Data m))"

lemma framed_uint:
  "msgpack_laws mp \<Longrightarrow> 0 \<le> k \<Longrightarrow> k < 256 \<Longrightarrow> framed mp (mp_EncodeUint mp (word_of_int k) @ r) f = f k r"
  using msgpack_uint [of mp "word_of_int k" r]
  by (simp add: framed_def IncomingMessageReader_DecodeMsgpack_def uint_word_of_int)

lemma framed_int:
  "msgpack_laws mp \<Longrightarrow> 0 \<le> k \<Longrightarrow> k < 256 \<Longrightarrow> framed mp (mp_EncodeInt mp k @ r) f = f k r"
  using msgpack_int [of mp k r]
  by (simp add: framed_def IncomingMessageReader_DecodeMsgpack_def int64_range_def)

text \<open>URLs that parse back from their text.\<close>

definition printable :: "(URL \<Rightarrow> string) \<Rightarrow> (string \<Rightarrow> URL outcome) \<Rightarrow> URL list \<Rightarrow> bool" where
  "printable str parse us \<longleftrightarrow> length us < 2 ^ 63 \<and>
     list_all (\<lambda>u. parse (str u) = Ok u \<and> length (str u) < 2 ^ 32) us"

lemma decode_urls_encoded:
  assumes "msgpack_laws mp" "list_all (\<lambda>u. parse (str u) = Ok u \<and> length (str u) < 2 ^ 32) us"
  shows "decode_urls mp parse (length us) (concat (map (\<lambda>u. mp_EncodeString mp (str u)) us) @ r) = Ok (us, r)"
  using assms(2) by (induction us) (simp_all add: msgpack_interface_string [OF assms(1)])

lemma DecodeMsgpackURLArray_encoded:
  assumes "msgpack_laws mp" "printable str parse us"
  shows "DecodeMsgpackURLArray mp parse (EncodeMsgpackURLs mp str us @ r) = Ok (us, r)"
  using assms decode_urls_encoded [OF assms(1), of parse str us r]
  by (simp add: DecodeMsgpackURLArray_def EncodeMsgpackURLs_def msgpack_int printable_def int64_range_def)

lemma NewNodeId_node_bytes [simp]: "NewNodeId (node_bytes n) = n"
  by (cases n) (simp add: NewNodeId_def)

lemma SignedMessage_DecodeMessage_encoded:
  assumes "msgpack_laws mp" "length (node_bytes n) < 2 ^ 32" "length sig < 2 ^ 32" "length msg < 2 ^ 32"
  shows "SignedMessage_DecodeMessage mp ed
      (mp_EncodeBytes mp (node_bytes n) @ mp_EncodeBytes mp sig @ mp_EncodeBytes mp msg) =
    obind (obind (go_from (node_bytes n) 1) (\<lambda>pk. ed25519_Verify ed pk msg sig)) (\<lambda>ok.
      if \<not> ok then Err errInvalidSignature
      else Ok \<lparr>sm_nodeId = n, sm_signature = sig, sm_message = msg\<rparr>)"
  using assms msgpack_bytes [OF assms(1), of msg "[]"]
  by (simp add: SignedMessage_DecodeMessage_def msgpack_bytes cong: if_cong)

lemma SignedMessage_DecodeMessage_Ok:
  assumes "SignedMessage_DecodeMessage mp ed data = Ok s"
  shows "length (node_bytes (sm_nodeId s)) = 33 \<and> length (sm_signature s) = 64 \<and>
    ed_verify ed (drop 1 (node_bytes (sm_nodeId s))) (sm_message s) (sm_signature s)"
  using assms
  by (auto simp: SignedMessage_DecodeMessage_def obind_eq_Ok ed25519_Verify_def go_from_def NewNodeId_def
      split: if_splits prod.splits)

lemma HandshakeDone_encoded:
  assumes "msgpack_laws mp" "length challenge < 2 ^ 32" "int64_range features" "printable str parse uris"
  shows "\<exists>payload. signedMessageReader_DecodeMsgpack mp
      (HandshakeDone_EncodeMsgpack mp str (NewHandshakeDoneRequest challenge features uris)) =
      Ok (ProtocolMethodHandshakeDone, payload) \<and>
    HandshakeDone_DecodeMessage mp parse payload = Ok \<lparr>hd_challenge = challenge, hd_supportedFeatures = features,
      hd_connectionUris = uris, hd_handshake = []\<rparr>"
proof -
  have "HandshakeDone_DecodeMessage mp parse (mp_EncodeBytes mp challenge @ mp_EncodeInt mp features
      @ EncodeMsgpackURLs mp str uris) = Ok \<lparr>hd_challenge = challenge, hd_supportedFeatures = features,
      hd_connectionUris = uris, hd_handshake = []\<rparr>"
    using assms DecodeMsgpackURLArray_encoded [OF assms(1,4), of "[]"]
    by (simp add: HandshakeDone_DecodeMessage_def msgpack_bytes msgpack_int NewHandshakeDone_def)
  then show ?thesis
    using msgpack_uint [OF assms(1), of "word_of_int ProtocolMethodHandshakeDone"]
    by (simp add: HandshakeDone_EncodeMsgpack_def NewHandshakeDoneRequest_def signedMessageReader_DecodeMsgpack_def
        uint_word_of_int go_consts)
qed

lemma signed_message_decoded:
  assumes "msgpack_laws mp" "usable_key ed kp" "PublicKey kp = Ok pk" "length message < 2 ^ 32"
  shows "\<exists>sig. SignedMessage_Sign ed kp (Some (NewNodeId pk)) message =
      Ok \<lparr>sm_nodeId = NewNodeId pk, sm_signature = sig, sm_message = message\<rparr> \<and>
    SignedMessage_DecodeMessage mp ed (mp_EncodeBytes mp pk @ mp_EncodeBytes mp sig @ mp_EncodeBytes mp message) =
      Ok \<lparr>sm_nodeId = NewNodeId pk, sm_signature = sig, sm_message = message\<rparr>"
proof -
  obtain sig where sig: "ed25519_Sign ed (ExtractBytes kp) message = Ok sig" "length sig = 64"
    "ed25519_Verify ed (drop 32 (kp_Bytes kp)) message sig = Ok True"
    using assms(2) by (rule sign_verify)
  have pk: "pk = 0xed # drop 32 (kp_Bytes kp)" "length pk = 33"
    using PublicKey_usable [OF assms(2)] assms(2,3) by (auto simp: usable_key_def)
  have "SignedMessage_DecodeMessage mp ed (mp_EncodeBytes mp pk @ mp_EncodeBytes mp sig
      @ mp_EncodeBytes mp message) = Ok \<lparr>sm_nodeId = NewNodeId pk, sm_signature = sig, sm_message = message\<rparr>"
    using SignedMessage_DecodeMessage_encoded [OF assms(1), of "NewNodeId pk" sig message ed] assms(4) sig pk
    by (simp add: NewNodeId_def)
  then show ?thesis using sig by (simp add: SignedMessage_Sign_def)
qed

section \<open>Properties\<close>

text \<open>
  The handshake messages are read back. An opening message gives the receiver the challenge
  and the network, whether a network is named or not; a closing one the challenge, the
  features and the URIs, in order.
\<close>
lemma handshake_roundtrip:
  assumes "msgpack_laws mp" "length challenge < 2 ^ 32" "length net < 2 ^ 32"
    and "int64_range features" "printable str parse uris"
  shows "framed mp (HandshakeOpen_EncodeMsgpack mp (NewHandshakeOpen challenge net))
      (\<lambda>kind data. obind (HandshakeOpen_DecodeMessage mp data) (\<lambda>h. Ok (GetMessageType kind, h))) =
    Ok (Some T_HandshakeOpen, \<lparr>ho_challenge = [], ho_networkId = net, ho_handshake = challenge\<rparr>) \<and>
    framed mp (HandshakeDone_EncodeMsgpack mp str (NewHandshakeDoneRequest challenge features uris))
      (\<lambda>kind data. obind (HandshakeDone_DecodeMessage mp parse data) (\<lambda>h. Ok (GetSignedMessageType kind, h))) =
    Ok (Some T_HandshakeDone, \<lparr>hd_challenge = challenge, hd_supportedFeatures = features,
      hd_connectionUris = uris, hd_handshake = []\<rparr>)"
proof
  have peek: "\<exists>c. mp_PeekCode mp (mp_EncodeString mp net) = Ok c"
    using msgpack_string_nonempty [OF assms(1), of net] msgpack_peek [OF assms(1)]
    by (metis neq_Nil_conv)
  have "HandshakeOpen_DecodeMessage mp (mp_EncodeBytes mp challenge @ (if net \<noteq> [] then mp_EncodeString mp net else []))
      = Ok \<lparr>ho_challenge = [], ho_networkId = net, ho_handshake = challenge\<rparr>"
    using peek msgpack_string [OF assms(1,3), of "[]"] msgpack_bytes [OF assms(1,2), of "[]"]
      msgpack_bytes [OF assms(1,2), of "mp_EncodeString mp net"] msgpack_peek_eof [OF assms(1)]
    by (auto simp: HandshakeOpen_DecodeMessage_def NewHandshakeOpen_def)
  moreover have "GetMessageType ProtocolMethodHandshakeOpen = Some T_HandshakeOpen"
    by (simp add: GetMessageType_def messageTypes_def)
  moreover have "0 \<le> ProtocolMethodHandshakeOpen \<and> ProtocolMethodHandshakeOpen < 256" by (simp add: go_consts)
  ultimately show "framed mp (HandshakeOpen_EncodeMsgpack mp (NewHandshakeOpen challenge net))
      (\<lambda>kind data. obind (HandshakeOpen_DecodeMessage mp data) (\<lambda>h. Ok (GetMessageType kind, h))) =
    Ok (Some T_HandshakeOpen, \<lparr>ho_challenge = [], ho_networkId = net, ho_handshake = challenge\<rparr>)"
    using assms(1) by (simp only: HandshakeOpen_EncodeMsgpack_def framed_uint)
      (simp add: NewHandshakeOpen_def cong: if_cong split del: if_split)
next
  obtain payload where "signedMessageReader_DecodeMsgpack mp
      (HandshakeDone_EncodeMsgpack mp str (NewHandshakeDoneRequest challenge features uris)) =
      Ok (ProtocolMethodHandshakeDone, payload)"
    "HandshakeDone_DecodeMessage mp parse payload = Ok \<lparr>hd_challenge = challenge, hd_supportedFeatures = features,
      hd_connectionUris = uris, hd_handshake = []\<rparr>"
    using HandshakeDone_encoded [OF assms(1,2,4,5)] by blast
  moreover have "GetSignedMessageType ProtocolMethodHandshakeDone = Some T_HandshakeDone"
    by (simp add: GetSignedMessageType_def signedMessageTypes_def)
  ultimately show "framed mp (HandshakeDone_EncodeMsgpack mp str (NewHandshakeDoneRequest challenge features uris))
      (\<lambda>kind data. obind (HandshakeDone_DecodeMessage mp parse data) (\<lambda>h. Ok (GetSignedMessageType kind, h))) =
    Ok (Some T_HandshakeDone, \<lparr>hd_challenge = challenge, hd_supportedFeatures = features,
      hd_connectionUris = uris, hd_handshake = []\<rparr>)"
    by (simp add: framed_def IncomingMessageReader_DecodeMsgpack_def signedMessageReader_DecodeMsgpack_def)
qed

text \<open>
  A message signed by the node and framed is accepted by the receiver's decoder, with the
  node's identity and the message as sent.
\<close>
lemma signed_message_roundtrip:
  assumes "msgpack_laws mp" "usable_key ed kp" "PublicKey kp = Ok pk" "length message < 2 ^ 32"
  shows "\<exists>s. SignedMessage_Sign ed kp (Some (NewNodeId pk)) message = Ok s \<and>
    framed mp (SignedMessage_EncodeMsgpack mp s)
      (\<lambda>kind data. obind (SignedMessage_DecodeMessage mp ed data) (\<lambda>s'. Ok (GetMessageType kind, s'))) =
    Ok (Some T_SignedMessage, s) \<and> sm_nodeId s = NewNodeId pk \<and> sm_message s = message"
proof -
  obtain sig where "SignedMessage_Sign ed kp (Some (NewNodeId pk)) message =
      Ok \<lparr>sm_nodeId = NewNodeId pk, sm_signature = sig, sm_message = message\<rparr>"
    "SignedMessage_DecodeMessage mp ed (mp_EncodeBytes mp pk @ mp_EncodeBytes mp sig @ mp_EncodeBytes mp message) =
      Ok \<lparr>sm_nodeId = NewNodeId pk, sm_signature = sig, sm_message = message\<rparr>"
    using signed_message_decoded [OF assms] by blast
  moreover have "GetMessageType ProtocolMethodSignedMessage = Some T_SignedMessage"
    by (simp add: GetMessageType_def messageTypes_def go_consts)
  moreover have "0 \<le> ProtocolMethodSignedMessage \<and> ProtocolMethodSignedMessage < 256" by (simp add: go_consts)
  ultimately show ?thesis
    using assms(1) by (simp add: SignedMessage_EncodeMsgpack_def framed_int NewNodeId_def)
qed

text \<open>
  C33: what the decoder of signed messages does with three decodable fields: it accepts exactly
  a 33-byte identity with a 64-byte signature that verifies, and panics for every identity of
  another length.
\<close>
theorem signed_message_decision:
  assumes "msgpack_laws mp" "length (node_bytes n) < 2 ^ 32" "length sig < 2 ^ 32" "length msg < 2 ^ 32"
  shows "SignedMessage_DecodeMessage mp ed
      (mp_EncodeBytes mp (node_bytes n) @ mp_EncodeBytes mp sig @ mp_EncodeBytes mp msg) =
    (if length (node_bytes n) \<noteq> 33 then Panic
     else if length sig = 64 \<and> ed_verify ed (drop 1 (node_bytes n)) msg sig
       then Ok \<lparr>sm_nodeId = n, sm_signature = sig, sm_message = msg\<rparr>
     else Err errInvalidSignature)"
  by (subst SignedMessage_DecodeMessage_encoded [OF assms])
    (auto simp: go_from_def ed25519_Verify_def)

theorem signed_message_decision_witness:
  "SignedMessage_DecodeMessage wide_msgpack plain_ed25519
      (mp_EncodeBytes wide_msgpack [1, 2] @ mp_EncodeBytes wide_msgpack [3] @ mp_EncodeBytes wide_msgpack []) = Panic"
  using signed_message_decision [OF wide_msgpack_laws, of "NewNodeId [1, 2]" "[3]" "[]" plain_ed25519]
  by (simp add: NewNodeId_def)

text \<open>
  A hash query is read back, with the file type in place of an empty list of kinds.
\<close>
lemma hash_query_roundtrip:
  assumes "msgpack_laws mp" "length (fullBytes hash) < 2 ^ 32" "length kinds < 2 ^ 32" "list_all int64_range kinds"
  shows "framed mp (HashQuery_EncodeMsgpack mp (NewHashRequest hash kinds))
      (\<lambda>kind data. obind (HashQuery_DecodeMessage mp data) (\<lambda>q. Ok (GetMessageType kind, q))) =
    Ok (Some T_HashQuery, \<lparr>hq_hash = hash, hq_kinds = (if kinds = [] then [StorageLocationTypeFile] else kinds)\<rparr>)"
proof -
  let ?ks = "if kinds = [] then [StorageLocationTypeFile] else kinds"
  have ks: "length ?ks < 2 ^ 32" "list_all int64_range ?ks"
    using assms by (simp_all add: go_consts int64_range_def)
  have "HashQuery_DecodeMessage mp (mp_EncodeBytes mp (fullBytes hash) @ mp_EncodeInts mp ?ks) =
      Ok \<lparr>hq_hash = hash, hq_kinds = ?ks\<rparr>"
    using msgpack_bytes [OF assms(1,2)] msgpack_ints [OF assms(1) ks, of "[]"]
    by (simp add: HashQuery_DecodeMessage_def NewMultihash_def)
  moreover have "GetMessageType ProtocolMethodHashQuery = Some T_HashQuery"
    by (simp add: GetMessageType_def messageTypes_def go_consts)
  moreover have "0 \<le> ProtocolMethodHashQuery \<and> ProtocolMethodHashQuery < 256" by (simp add: go_consts)
  ultimately show ?thesis
    using assms(1) by (simp add: HashQuery_EncodeMsgpack_def NewHashRequest_def framed_int)
qed

end
