(* ===== verification/P2P_Service.thy ===== *)
theory P2P_Service
  imports Wire_Messages
begin

text \<open>
  \<open>service/default/p2p.go\<close> without the votes (\<open>Node_Votes\<close>) and the dispatch of messages
  (\<open>Node_Protocol\<close>), and the transports of \<open>net/net.go\<close>: start-up, dialling with its retries and
  blocklists, new connections, the peer table, signed messages and requests to all peers.
  Lemmas: a call of \<open>ConnectToNode\<close> dials a bounded number of times, never a blocked or a
  connected node nor the node itself, and what the blocklists do to new connections.
\<close>

section \<open>Start-up\<close>

text \<open>\<open>Init\<close>; a text on the blocklist that is no identity stops it, with the ones before kept.\<close>

primrec block_all :: "'s env \<Rightarrow> string list \<Rightarrow> 's world \<Rightarrow> unit outcome \<times> 's world" where
  "block_all env [] w = (Ok (), w)"
| "block_all env (peer # ps) w =
     sbind (pure_step (DecodeNodeId (v_mb env) peer) w) (\<lambda>_ w.
       block_all env ps (w\<lparr>w_incomingPeerBlockList := Map_Put (w_incomingPeerBlockList w) peer True,
                           w_outgoingPeerBlocklist := Map_Put (w_outgoingPeerBlocklist w) peer True\<rparr>))"

definition P2P_Init :: "'s env \<Rightarrow> 's world \<Rightarrow> unit outcome \<times> 's world" where
  "P2P_Init env w =
     (if w_inited w then (Ok (), w)
      else sbind (pure_step (PublicKey (v_KeyPair env)) w) (\<lambda>pk w.
        let (a, w) = alloc w; w = w\<lparr>w_localNodeID := Some (a, NewNodeId pk)\<rparr> in
        sbind (store_step (v_openNodes env) w) (\<lambda>_ w.
          block_all env (v_Blocklist env) (w\<lparr>w_inited := True\<rparr>))))"

primrec start_connects :: "'s env \<Rightarrow> string list \<Rightarrow> 's world \<Rightarrow> unit outcome \<times> 's world" where
  "start_connects env [] w = (Ok (), w)"
| "start_connects env (peer # ps) w =
     sbind (pure_step (v_urlParse env peer) w) (\<lambda>u w.
       start_connects env ps (w\<lparr>w_tasks := w_tasks w @ [Go_Connect [u]]\<rparr>))"

definition P2P_Start :: "'s env \<Rightarrow> 's world \<Rightarrow> unit outcome \<times> 's world" where
  "P2P_Start env w = start_connects env (v_InitialPeers env) w"

section \<open>Transports\<close>

definition ErrTransportNotSupported :: go_error where
  "ErrTransportNotSupported = GoError ''no static method registered for type'' []"

definition transports :: "string list" where
  "transports = [''ws'', ''wss'']"

definition CreateTransportSocket :: "'s env \<Rightarrow> string \<Rightarrow> URL \<Rightarrow> 's world \<Rightarrow> string outcome \<times> 's world" where
  "CreateTransportSocket env peerType uri w =
     (if peerType \<notin> set transports then (Err ErrTransportNotSupported, w)
      else (v_dial env uri (w_dials w), w\<lparr>w_dials := w_dials w @ [uri]\<rparr>))"

definition CreateTransportPeer :: "string \<Rightarrow> string \<Rightarrow> URL list \<Rightarrow> 's world \<Rightarrow> peer_ref outcome \<times> 's world" where
  "CreateTransportPeer peerType socket uris w =
     (if peerType \<notin> set transports then (Err (GoError ''no factory registered for type'' []), w)
      else let (p, w) = alloc w in
        (Ok p, upd_peer p (\<lambda>_. \<lparr>pe_connectionURIs = uris, pe_isConnected = False, pe_challenge = [],
           pe_id = None, pe_handshaked = False, pe_abuser = False, pe_ip = socket\<rparr>) w))"

section \<open>Dialling\<close>

definition errUnsupportedProtocol :: go_error where
  "errUnsupportedProtocol = GoError ''unsupported protocol'' []"

definition errConnectionIdMissingNodeID :: go_error where
  "errConnectionIdMissingNodeID = GoError ''connection id missing node id'' []"

text \<open>The first \<open>ws\<close> or \<open>wss\<close> URI, or else the first \<open>tcp\<close> one; none stands for \<open>unsupported\<close>.\<close>

definition connection_uri :: "URL list \<Rightarrow> URL option" where
  "connection_uri connectionUris =
     (case find (\<lambda>uri. url_Scheme uri = ''ws'' \<or> url_Scheme uri = ''wss'') connectionUris of
        Some u \<Rightarrow> Some u
      | None \<Rightarrow> find (\<lambda>uri. url_Scheme uri = ''tcp'') connectionUris)"

text \<open>What is done to the peer that sent a bad URI: identity and address blocked, connection cut.\<close>

definition block_sender :: "'s env \<Rightarrow> peer_ref option \<Rightarrow> 's world \<Rightarrow> unit outcome \<times> 's world" where
  "block_sender env fromPeer w =
     (case fromPeer of
        None \<Rightarrow> (Ok (), w)
      | Some q \<Rightarrow>
          sbind (case peer_Id w q of
                   None \<Rightarrow> (Ok (), w)
                 | Some i \<Rightarrow> sbind (pure_step (id_ToString env (Some i)) w) (\<lambda>fromPeerId w.
                     (Ok (), if Map_Contains (w_incomingPeerBlockList w) fromPeerId then w
                             else w\<lparr>w_incomingPeerBlockList :=
                                      Map_Put (w_incomingPeerBlockList w) fromPeerId True\<rparr>))) (\<lambda>_ w.
            let fromPeerIP = pe_ip (w_heap w q);
                w = (if Map_Contains (w_incomingIPBlocklist w) fromPeerIP then w
                     else w\<lparr>w_incomingIPBlocklist := Map_Put (w_incomingIPBlocklist w) fromPeerIP True\<rparr>)
            in EndForAbuse env q w))"

definition uint_plus :: "int \<Rightarrow> int \<Rightarrow> int" where "uint_plus a b = (a + b) mod 2 ^ 64"
definition uint_times :: "int \<Rightarrow> int \<Rightarrow> int" where "uint_times a b = (a * b) mod 2 ^ 64"

text \<open>The end of the attempts: the failure is counted, and the node blocked at the limit.\<close>

definition give_up :: "'s env \<Rightarrow> string \<Rightarrow> peer_ref option \<Rightarrow> 's world \<Rightarrow> unit outcome \<times> 's world" where
  "give_up env idString fromPeer w =
     sbind (pure_step (if Map_Contains (w_outgoingPeerFailures w) idString then
              obind (Map_GetUInt (w_outgoingPeerFailures w) idString) (\<lambda>c. case c of
                None \<Rightarrow> Panic | Some tmp \<Rightarrow> Ok tmp)
            else Ok 0) w) (\<lambda>counter w.
       let counter = uint_plus counter 1;
           w = w\<lparr>w_outgoingPeerFailures := Map_PutUInt (w_outgoingPeerFailures w) idString counter\<rparr>
       in if counter \<ge> int (v_MaxOutgoingPeerFailures env) then
            sbind (block_sender env fromPeer w) (\<lambda>_ w.
              (Ok (), w\<lparr>w_outgoingPeerBlocklist := Map_Put (w_outgoingPeerBlocklist w) idString True\<rparr>))
          else (Ok (), w))"

text \<open>The delay doubles, and the others run while this goroutine sleeps.\<close>

definition back_off :: "'s env \<Rightarrow> string \<Rightarrow> 's world \<Rightarrow> unit outcome \<times> 's world" where
  "back_off env idString w =
     sbind (pure_step (obind (Map_GetUInt (w_reconnectDelay w) idString) (\<lambda>d. case d of
              None \<Rightarrow> Ok 1 | Some tmp \<Rightarrow> Ok tmp)) w) (\<lambda>delay w.
       (Ok (), v_others env (w\<lparr>w_reconnectDelay :=
          Map_PutUInt (w_reconnectDelay w) idString (uint_times delay 2)\<rparr>)))"

text \<open>After a successful dial: the peer is made, identified, pending, and its goroutine started.\<close>

definition connected :: "'s env \<Rightarrow> string \<Rightarrow> NodeId \<Rightarrow> URL \<Rightarrow> string \<Rightarrow> 's world \<Rightarrow> unit outcome \<times> 's world" where
  "connected env idString nodeId connectionUri socket w =
     (let w = (if Map_Contains (w_outgoingPeerFailures w) idString
               then w\<lparr>w_outgoingPeerFailures := Map_Remove (w_outgoingPeerFailures w) idString\<rparr> else w)
      in sbind (CreateTransportPeer (url_Scheme connectionUri) socket [connectionUri] w) (\<lambda>peer w.
           let (a, w) = alloc w; w = Tracker_Add (peer_SetId peer (Some (a, nodeId)) w) in
           sbind (pure_step (id_ToString env (peer_Id w peer)) w) (\<lambda>peerId w.
             (Ok (), w\<lparr>w_peersPending := Map_Put (w_peersPending w) peerId peer,
                       w_tasks := w_tasks w @ [Go_OnNewPeer peer True]\<rparr>))))"

text \<open>
  One attempt to dial: \<open>True\<close> asks for the next one.
\<close>

definition attempt ::
  "'s env \<Rightarrow> string \<Rightarrow> NodeId \<Rightarrow> URL \<Rightarrow> nat \<Rightarrow> peer_ref option \<Rightarrow> 's world \<Rightarrow> bool outcome \<times> 's world" where
  "attempt env idString nodeId connectionUri retry fromPeer w =
     (case CreateTransportSocket env (url_Scheme connectionUri) connectionUri w of
        (Panic, w) \<Rightarrow> (Panic, w)
      | (Err err, w) \<Rightarrow>
          if retry > v_MaxConnectionAttempts env
          then sbind (give_up env idString fromPeer w) (\<lambda>_ w. (Ok False, w))
          else if err = ErrTransportNotSupported then (Err err, w)
          else sbind (back_off env idString w) (\<lambda>_ w. (Ok True, w))
      | (Ok socket, w) \<Rightarrow>
          sbind (connected env idString nodeId connectionUri socket w) (\<lambda>_ w. (Ok False, w)))"

text \<open>The checks on the identity that is to be dialled.\<close>

definition connect_identified ::
  "'s env \<Rightarrow> string \<Rightarrow> NodeId \<Rightarrow> URL \<Rightarrow> nat \<Rightarrow> peer_ref option \<Rightarrow> 's world \<Rightarrow> bool outcome \<times> 's world" where
  "connect_identified env idString nodeId connectionUri retry fromPeer w =
     (if Map_Contains (w_peersPending w) idString \<or> Map_Contains (w_peers w) idString then (Ok False, w)
      else if Map_Contains (w_outgoingPeerBlocklist w) idString
      then sbind (block_sender env fromPeer w) (\<lambda>_ w. (Ok False, w))
      else
     sbind (pure_step (Map_GetUInt (w_reconnectDelay w) idString) w) (\<lambda>_ w.
     sbind (pure_step (id_Equals (Some (0, nodeId)) (w_localNodeID w)) w) (\<lambda>self w.
       if self then (Ok False, w)
       else attempt env idString nodeId connectionUri retry fromPeer w)))"

text \<open>The body of \<open>ConnectToNode\<close> up to its recursive call.\<close>

definition connect_once ::
  "'s env \<Rightarrow> URL list \<Rightarrow> nat \<Rightarrow> peer_ref option \<Rightarrow> 's world \<Rightarrow> bool outcome \<times> 's world" where
  "connect_once env connectionUris retry fromPeer w =
     (if \<not> w_started w \<and> \<not> w_starting w then (Ok False, w)
      else case connection_uri connectionUris of
        None \<Rightarrow> (Err errUnsupportedProtocol, w)
      | Some connectionUri \<Rightarrow>
        (case url_User connectionUri of
           None \<Rightarrow> (Err errConnectionIdMissingNodeID, w)
         | Some (username, _) \<Rightarrow>
             sbind (pure_step (DecodeNodeId (v_mb env) username) w) (\<lambda>nodeId w.
             sbind (pure_step (NodeId_ToString (v_mb env) nodeId) w) (\<lambda>idString w.
               connect_identified env idString nodeId connectionUri retry fromPeer w))))"

lemma attempt_retry:
  "attempt env i n u retry from w = (Ok True, w') \<Longrightarrow> retry \<le> v_MaxConnectionAttempts env"
  by (auto simp: attempt_def sbind_eq_Ok split: if_splits prod.splits outcome.splits)

text \<open>
  The ways a call of \<open>connect_once\<close> ends: without any effect, by cutting off the sender of a
  blocked identity, or as an attempt to dial, which no blocked, connected or pending identity
  and not the node's own one gets to.
\<close>

definition may_dial :: "'s env \<Rightarrow> URL list \<Rightarrow> 's world \<Rightarrow> string \<Rightarrow> NodeId \<Rightarrow> URL \<Rightarrow> bool" where
  "may_dial env uris w i n u \<longleftrightarrow> connection_uri uris = Some u \<and> NodeId_ToString (v_mb env) n = Ok i \<and>
     (\<exists>name pw. url_User u = Some (name, pw) \<and> DecodeNodeId (v_mb env) name = Ok n) \<and>
     \<not> Map_Contains (w_peers w) i \<and> \<not> Map_Contains (w_peersPending w) i \<and>
     \<not> Map_Contains (w_outgoingPeerBlocklist w) i \<and>
     (\<exists>a m. w_localNodeID w = Some (a, m) \<and> m \<noteq> n) \<and> (w_started w \<or> w_starting w)"

lemma connect_identified_cases:
  "(\<exists>r. connect_identified env i n u retry from w = (r, w) \<and> r \<noteq> Ok True) \<or>
   connect_identified env i n u retry from w = sbind (block_sender env from w) (\<lambda>_ w. (Ok False, w)) \<or>
   connect_identified env i n u retry from w = attempt env i n u retry from w \<and>
     \<not> Map_Contains (w_peers w) i \<and> \<not> Map_Contains (w_peersPending w) i \<and>
     \<not> Map_Contains (w_outgoingPeerBlocklist w) i \<and> (\<exists>a m. w_localNodeID w = Some (a, m) \<and> m \<noteq> n)"
  by (cases "Map_GetUInt (w_reconnectDelay w) i"; cases "w_localNodeID w")
    (auto simp: connect_identified_def id_Equals_def NodeId_Equals_def)

lemma connect_once_cases:
  "(\<exists>r. connect_once env uris retry from w = (r, w) \<and> r \<noteq> Ok True) \<or>
   connect_once env uris retry from w = sbind (block_sender env from w) (\<lambda>_ w. (Ok False, w)) \<or>
   (\<exists>i n u. connect_once env uris retry from w = attempt env i n u retry from w \<and> may_dial env uris w i n u)"
proof (cases "\<exists>u name pw n i. (w_started w \<or> w_starting w) \<and> connection_uri uris = Some u \<and>
    url_User u = Some (name, pw) \<and> DecodeNodeId (v_mb env) name = Ok n \<and> NodeId_ToString (v_mb env) n = Ok i")
  case True
  then obtain u name pw n i where u: "w_started w \<or> w_starting w" "connection_uri uris = Some u"
    "url_User u = Some (name, pw)" "DecodeNodeId (v_mb env) name = Ok n" "NodeId_ToString (v_mb env) n = Ok i"
    by blast
  then have "connect_once env uris retry from w = connect_identified env i n u retry from w"
    by (auto simp: connect_once_def)
  with u connect_identified_cases [of env i n u retry "from" w] show ?thesis
    unfolding may_dial_def by metis
next
  case False
  then have "\<exists>r. connect_once env uris retry from w = (r, w) \<and> r \<noteq> Ok True"
    by (auto simp: connect_once_def pure_step_def sbind_def split: option.splits outcome.splits)
  then show ?thesis by blast
qed

lemma connect_once_retry:
  assumes "connect_once env uris retry from w = (Ok True, w')"
  shows "retry \<le> v_MaxConnectionAttempts env"
  using connect_once_cases [of env uris retry "from" w] assms
  by (auto simp: sbind_eq_Ok eq_commute [of "(Ok True, w')"] dest: attempt_retry)

text \<open>
  \<open>ConnectToNode\<close>. The attempts are counted in a \<open>uint\<close>, which does not wrap here: the
  configured maximum is taken to be below its largest value.
\<close>

function ConnectToNode ::
  "'s env \<Rightarrow> URL list \<Rightarrow> nat \<Rightarrow> peer_ref option \<Rightarrow> 's world \<Rightarrow> unit outcome \<times> 's world" where
  "ConnectToNode env connectionUris retry fromPeer w =
     (case connect_once env connectionUris retry fromPeer w of
        (Ok True, w) \<Rightarrow> ConnectToNode env connectionUris (Suc retry) fromPeer w
      | (Ok False, w) \<Rightarrow> (Ok (), w)
      | (Err err, w) \<Rightarrow> (Err err, w)
      | (Panic, w) \<Rightarrow> (Panic, w))"
  by pat_completeness auto

termination
proof (relation "measure (\<lambda>(env, uris, retry, from, w). Suc (v_MaxConnectionAttempts env) - retry)", goal_cases)
  case (2 env uris retry "from" w r w' b)
  then have "connect_once env uris retry from w = (Ok True, w')" by simp
  from connect_once_retry [OF this] show ?case by simp
qed simp

declare ConnectToNode.simps [simp del]

section \<open>New connections and the peer table\<close>

text \<open>
  \<open>OnNewPeer\<close> up to the wait for its listener (after which it returns nil), and the callback that runs when the connection
  closes. The identity is looked up on the list of addresses and the address on the list of
  identities.
\<close>

definition OnNewPeer :: "'s env \<Rightarrow> peer_ref \<Rightarrow> bool \<Rightarrow> 's world \<Rightarrow> unit outcome \<times> 's world" where
  "OnNewPeer env peer verifyId w =
     (let pid = (case peer_Id w peer of
            None \<Rightarrow> ''unknown''
          | Some i \<Rightarrow> (case id_ToString env (Some i) of Ok s \<Rightarrow> s | _ \<Rightarrow> []));
          pip = pe_ip (w_heap w peer) in
      if Map_Contains (w_incomingIPBlocklist w) pid then EndForAbuse env peer w
      else if Map_Contains (w_incomingPeerBlockList w) pip then EndForAbuse env peer w
      else
        let (c, w) = alloc w;
            challenge = v_challenge env c;
            w = peer_SetChallenge peer challenge w;
            w = w\<lparr>w_listening := w_listening w @ [(peer, verifyId)]\<rparr>
        in sbind (SendMessage env peer (HandshakeOpen_EncodeMsgpack (v_mp env)
             (NewHandshakeOpen challenge (v_Network env))) w) (\<lambda>_ w.
             (Ok (), w\<lparr>w_waiting := w_waiting w @ [peer]\<rparr>)))"

definition OnPeerClose :: "'s env \<Rightarrow> peer_ref \<Rightarrow> 's world \<Rightarrow> 's world" where
  "OnPeerClose env peer w =
     (case peer_Id w peer of
        None \<Rightarrow> w
      | Some i \<Rightarrow>
          (case id_ToString env (Some i) of
             Ok pid \<Rightarrow>
               let w = (if Map_Contains (w_peers w) pid
                        then w\<lparr>w_peers := Map_Remove (w_peers w) pid\<rparr> else w)
               in if Map_Contains (w_peersPending w) pid
                  then w\<lparr>w_peersPending := Map_Remove (w_peersPending w) pid\<rparr> else w
           | _ \<Rightarrow> w))"

definition AddPeer :: "'s env \<Rightarrow> peer_ref \<Rightarrow> 's world \<Rightarrow> unit outcome \<times> 's world" where
  "AddPeer env peer w =
     sbind (pure_step (id_ToString env (peer_Id w peer)) w) (\<lambda>peerId w.
       let w = w\<lparr>w_peers := Map_Put (w_peers w) peerId peer,
                 w_reconnectDelay := Map_PutUInt (w_reconnectDelay w) peerId 1\<rparr>
       in (Ok (), if Map_Contains (w_peersPending w) peerId
                  then w\<lparr>w_peersPending := Map_Remove (w_peersPending w) peerId\<rparr> else w))"

section \<open>Signed messages and requests\<close>

definition SignMessageSimple :: "'s env \<Rightarrow> bytes \<Rightarrow> 's world \<Rightarrow> bytes outcome \<times> 's world" where
  "SignMessageSimple env message w =
     sbind (pure_step (SignedMessage_Sign (v_ed env) (v_KeyPair env)
             (case w_localNodeID w of None \<Rightarrow> None | Some (_, n) \<Rightarrow> Some n) message) w)
       (\<lambda>signedMessage w. (Ok (SignedMessage_EncodeMsgpack (v_mp env) signedMessage), w))"

text \<open>The error of the write is dropped.\<close>

definition SendPublicPeersToPeer ::
  "'s env \<Rightarrow> peer_ref \<Rightarrow> peer_ref list \<Rightarrow> 's world \<Rightarrow> unit outcome \<times> 's world" where
  "SendPublicPeersToPeer env peer peersToSend w =
     sbind (pure_step (AnnouncePeers_EncodeMsgpack env w peersToSend) w) (\<lambda>message w.
     sbind (SignMessageSimple env message w) (\<lambda>signedMessage w.
       (Ok (), snd (SendMessage env peer signedMessage w))))"

primrec send_hash_to_all :: "'s env \<Rightarrow> bytes \<Rightarrow> peer_ref list \<Rightarrow> 's world \<Rightarrow> 's world" where
  "send_hash_to_all env msg [] w = w"
| "send_hash_to_all env msg (peer # ps) w = send_hash_to_all env msg ps (snd (SendMessage env peer msg w))"

definition SendHashRequest :: "'s env \<Rightarrow> Multihash \<Rightarrow> int list \<Rightarrow> 's world \<Rightarrow> unit outcome \<times> 's world" where
  "SendHashRequest env hash kinds w =
     (Ok (), send_hash_to_all env (HashQuery_EncodeMsgpack (v_mp env) (NewHashRequest hash kinds))
        (Map_Values (w_peers w)) w)"

section \<open>What the operations leave alone\<close>

lemma EndForAbuse_frame [simp]:
  "w_dials (snd (EndForAbuse env p w)) = w_dials w"
  "w_listening (snd (EndForAbuse env p w)) = w_listening w"
  "w_peers (snd (EndForAbuse env p w)) = w_peers w"
  "w_incomingPeerBlockList (snd (EndForAbuse env p w)) = w_incomingPeerBlockList w"
  "w_incomingIPBlocklist (snd (EndForAbuse env p w)) = w_incomingIPBlocklist w"
  by (simp_all add: EndForAbuse_def peer_End_def upd_peer_def split: option.splits)

lemma block_sender_frame [simp]:
  "w_dials (snd (block_sender env f w)) = w_dials w"
  "w_peers (snd (block_sender env f w)) = w_peers w"
  by (simp_all add: block_sender_def sbind_snd Let_def split: option.splits outcome.splits)

lemma give_up_frame [simp]:
  "w_dials (snd (give_up env i f w)) = w_dials w"
  "w_peers (snd (give_up env i f w)) = w_peers w"
  by (simp_all add: give_up_def sbind_snd Let_def split: outcome.splits)

lemma connected_frame [simp]:
  "w_dials (snd (connected env i n u s w)) = w_dials w"
  "w_peers (snd (connected env i n u s w)) = w_peers w"
  by (simp_all add: connected_def CreateTransportPeer_def alloc_def upd_peer_def peer_SetId_def
      sbind_snd Let_def split: outcome.splits)

lemma back_off_dials:
  "w_dials (snd (back_off env i w)) = w_dials w" if "\<And>w. w_dials (v_others env w) = w_dials w"
  using that by (simp add: back_off_def sbind_snd split: outcome.splits)

lemma back_off_peers:
  "w_peers (snd (back_off env i w)) = w_peers w" if "\<And>w. w_peers (v_others env w) = w_peers w"
  using that by (simp add: back_off_def sbind_snd split: outcome.splits)

lemma dials_of_attempt:
  assumes "\<And>w. w_dials (v_others env w) = w_dials w"
  shows "w_dials (snd (attempt env i n u retry from w)) = w_dials w \<or>
    w_dials (snd (attempt env i n u retry from w)) = w_dials w @ [u]"
  using back_off_dials [OF assms]
  by (auto simp: attempt_def CreateTransportSocket_def sbind_snd split: outcome.splits)

lemma peers_of_attempt:
  assumes "\<And>w. w_peers (v_others env w) = w_peers w"
  shows "w_peers (snd (attempt env i n u retry from w)) = w_peers w"
  using back_off_peers [OF assms]
  by (auto simp: attempt_def CreateTransportSocket_def sbind_snd split: outcome.splits)

lemma ConnectToNode_peers:
  assumes "\<And>w. w_peers (v_others env w) = w_peers w"
  shows "w_peers (snd (ConnectToNode env uris retry from w)) = w_peers w"
  using assms
proof (induction env uris retry "from" w rule: ConnectToNode.induct)
  case (1 env uris retry "from" w)
  have "w_peers (snd (connect_once env uris retry from w)) = w_peers w"
    using connect_once_cases [of env uris retry "from" w] peers_of_attempt [of env, OF "1.prems"]
    by (auto simp: sbind_snd split: outcome.splits)
  with 1 show ?case
    by (subst ConnectToNode.simps) (auto split: prod.splits outcome.splits bool.splits)
qed

lemma attempt_again:
  assumes "\<And>w. w_dials (v_others env w) = w_dials w" "attempt env i n u retry from w = (Ok True, w')"
  shows "w_dials w' = w_dials w @ [u]"
proof -
  obtain r w1 where sock: "CreateTransportSocket env (url_Scheme u) u w = (r, w1)"
    by (cases "CreateTransportSocket env (url_Scheme u) u w")
  with assms(2) obtain e where e: "r = Err e" "e \<noteq> ErrTransportNotSupported"
    "sbind (back_off env i w1) (\<lambda>_ w. (Ok True, w)) = (Ok True, w')"
    by (auto simp: attempt_def sbind_eq_Ok split: outcome.splits if_splits)
  then have "w_dials w1 = w_dials w @ [u]"
    using sock by (auto simp: CreateTransportSocket_def split: if_splits)
  moreover have "w' = snd (back_off env i w1)" using e(3) by (auto simp: sbind_eq_Ok)
  ultimately show ?thesis using back_off_dials [OF assms(1)] by simp
qed

lemma may_dial_uri: "may_dial env uris w i n u \<Longrightarrow> connection_uri uris = Some u"
  by (simp add: may_dial_def)

lemma dials_of_once:
  fixes w :: "'s world"
  assumes "\<And>w. w_dials (v_others env w) = w_dials w"
    and w1: "w1 = snd (connect_once env uris retry from w)"
  shows "w_dials w1 = w_dials w \<and> fst (connect_once env uris retry from w) \<noteq> Ok True \<or>
    (\<exists>i n u. w_dials w1 = w_dials w @ [u] \<and> may_dial env uris w i n u)"
proof -
  consider r where "connect_once env uris retry from w = (r, w)" "r \<noteq> Ok True"
    | "connect_once env uris retry from w = sbind (block_sender env from w) (\<lambda>_ w. (Ok False, w))"
    | i n u where "connect_once env uris retry from w = attempt env i n u retry from w" "may_dial env uris w i n u"
    using connect_once_cases by metis
  then show ?thesis
  proof cases
    case 1
    then show ?thesis using w1 by simp
  next
    case 2
    then show ?thesis using w1 by (simp add: sbind_snd sbind_fst split: outcome.splits)
  next
    case (3 i n u)
    then have w1: "w1 = snd (attempt env i n u retry from w)" using w1 by simp
    show ?thesis
    proof (cases "fst (attempt env i n u retry from w) = Ok True")
      case True
      then have "attempt env i n u retry from w = (Ok True, w1)" using w1 by (simp add: prod_eq_iff)
      from attempt_again [OF assms(1) this] 3 show ?thesis by blast
    next
      case False
      then show ?thesis using dials_of_attempt [OF assms(1), of i n u retry "from" w] 3 w1 by auto
    qed
  qed
qed

lemma connect_once_may_dial:
  assumes "may_dial env uris w i n u" "Map_GetUInt (w_reconnectDelay w) i = Ok d"
  shows "connect_once env uris retry from w = attempt env i n u retry from w"
  using assms
  by (auto simp: may_dial_def connect_once_def connect_identified_def id_Equals_def NodeId_Equals_def)

lemma connect_step_fails:
  assumes "url_Scheme u \<in> set transports" "v_dial env u (w_dials w) = Err e" "e \<noteq> ErrTransportNotSupported"
    and "Map_GetUInt (w_reconnectDelay w) i = Ok d" "v_others env = (\<lambda>w. w)"
    and "retry \<le> v_MaxConnectionAttempts env"
  shows "\<exists>delay. attempt env i n u retry from w = (Ok True, w\<lparr>w_dials := w_dials w @ [u],
    w_reconnectDelay := Map_PutUInt (w_reconnectDelay w) i delay\<rparr>)"
  using assms
  by (cases d) (auto simp: attempt_def CreateTransportSocket_def back_off_def)

lemma Map_GetUInt_Put [simp]: "Map_GetUInt (Map_PutUInt m k x) k = Ok (Some x)"
  by (simp add: Map_GetUInt_def Map_PutUInt_def)

lemma give_up_alone:
  assumes "Map_GetUInt (w_outgoingPeerFailures w) i = Ok c"
  defines "counter \<equiv> uint_plus (case c of None \<Rightarrow> 0 | Some x \<Rightarrow> x) 1"
  shows "give_up env i None w = (Ok (), w\<lparr>w_outgoingPeerFailures := Map_PutUInt (w_outgoingPeerFailures w) i counter,
    w_outgoingPeerBlocklist := (if int (v_MaxOutgoingPeerFailures env) \<le> counter
      then Map_Put (w_outgoingPeerBlocklist w) i True else w_outgoingPeerBlocklist w)\<rparr>)"
proof -
  have "Map_Contains (w_outgoingPeerFailures w) i \<longleftrightarrow> c \<noteq> None"
    using assms(1) by (auto simp: Map_GetUInt_def Map_Contains_Get split: option.splits goval.splits int_kind.splits)
  then show ?thesis using assms by (auto simp: give_up_def block_sender_def)
qed

lemma Map_Contains_Put [simp]: "Map_Contains (Map_Put m k v) j \<longleftrightarrow> j = k \<or> Map_Contains m j"
  by (simp add: Map_Contains_Get)

text \<open>A URI of the sample peer, for the witnesses.\<close>

lemma plain_uri:
  obtains s u where "NodeId_ToString plain_multibase plain_id = Ok s" "hd s = CHR ''z''"
    "url_Scheme u = ''wss''" "may_dial (plain_env\<lparr>v_dial := f\<rparr>) [u] (plain_node\<lparr>w_peers := NewMap\<rparr>) s plain_id u"
proof -
  have "multibase_prefix ''base58btc'' = Some (CHR ''z'')" by (simp add: multibase_prefix_def)
  with plain_multibase_laws obtain t where
    t: "ToBase plain_multibase (node_bytes plain_id) ''base58btc'' = Ok (CHR ''z'' # t)" by (rule ToBase_Ok)
  then have s: "NodeId_ToString plain_multibase plain_id = Ok (CHR ''z'' # t)"
    by (simp add: NodeId_ToString_def ToBase58BTC_def)
  moreover have "DecodeNodeId plain_multibase (CHR ''z'' # t) = Ok plain_id"
    using NodeId_ToString_decode [OF plain_multibase_laws, of plain_id] s by auto
  ultimately show thesis
    by (intro that [of "CHR ''z'' # t" "\<lparr>url_Scheme = ''wss'', url_User = Some (CHR ''z'' # t, None), url_Rest = ''a''\<rparr>"])
      (simp_all add: may_dial_def connection_uri_def plain_env_def plain_node_def plain_id_def NewNodeId_def
        NewMap_def Map_Contains_def)
qed

section \<open>Properties\<close>

text \<open>
  C17: what a call of \<open>ConnectToNode\<close> may dial. If no other goroutine dials meanwhile, it makes
  one attempt and then at most one more for each retry that is left, all of them to the one URI
  it has chosen, and only if that URI names an identity other than the node's own that is
  neither connected, nor pending, nor blocked.
\<close>
theorem ConnectToNode_dials:
  assumes "\<And>w. w_dials (v_others env w) = w_dials w"
  shows "\<exists>k u. w_dials (snd (ConnectToNode env uris retry from w)) = w_dials w @ replicate k u \<and>
    k \<le> Suc (Suc (v_MaxConnectionAttempts env) - retry) \<and>
    (0 < k \<longrightarrow> connection_uri uris = Some u \<and> (\<exists>i n. may_dial env uris w i n u))"
  using assms
proof (induction env uris retry "from" w rule: ConnectToNode.induct)
  case (1 env uris retry "from" w)
  obtain r w1 where once: "connect_once env uris retry from w = (r, w1)"
    by (cases "connect_once env uris retry from w")
  show ?case
  proof (cases "r = Ok True")
    case False
    then have "snd (ConnectToNode env uris retry from w) = w1"
      using once by (subst ConnectToNode.simps) (simp split: outcome.splits bool.splits)
    moreover have "w_dials w1 = w_dials w \<or> (\<exists>i n u. w_dials w1 = w_dials w @ [u] \<and> may_dial env uris w i n u)"
      using dials_of_once [of env w1 uris retry "from" w, OF "1.prems"] once by auto
    ultimately show ?thesis
      by (elim disjE exE conjE) (rule exI [of _ 0], simp, rule exI [of _ 1], auto dest: may_dial_uri)
  next
    case True
    then have eq: "ConnectToNode env uris retry from w = ConnectToNode env uris (Suc retry) from w1"
      using once by (subst ConnectToNode.simps) simp
    obtain i n u where u: "w_dials w1 = w_dials w @ [u]" "may_dial env uris w i n u"
      using dials_of_once [of env w1 uris retry "from" w, OF "1.prems"] once True by auto
    obtain k v where k: "w_dials (snd (ConnectToNode env uris (Suc retry) from w1)) = w_dials w1 @ replicate k v"
        "k \<le> Suc (Suc (v_MaxConnectionAttempts env) - Suc retry)" "0 < k \<longrightarrow> connection_uri uris = Some v"
      using "1.IH" [OF once [symmetric] True refl "1.prems"] by blast
    have "replicate k v = replicate k u" using k(3) may_dial_uri [OF u(2)] by (cases k) auto
    then have "w_dials (snd (ConnectToNode env uris retry from w)) = w_dials w @ replicate (Suc k) u"
      using eq u(1) k(1) by simp
    moreover have "Suc k \<le> Suc (Suc (v_MaxConnectionAttempts env) - retry)"
      using connect_once_retry [of env uris retry "from" w w1] once True k(2) by simp
    ultimately show ?thesis using u(2) may_dial_uri [OF u(2)] by blast
  qed
qed

theorem ConnectToNode_dials_witness:
  "\<exists>k. length (w_dials (snd (ConnectToNode plain_env [\<lparr>url_Scheme = ''wss'', url_User = Some (''zA'', None),
      url_Rest = ''a''\<rparr>] 0 None plain_node))) = k \<and> k \<le> 7"
proof -
  let ?u = "\<lparr>url_Scheme = ''wss'', url_User = Some (''zA'', None), url_Rest = ''a''\<rparr>"
  have "\<And>w. w_dials (v_others plain_env w) = w_dials w" by (simp add: plain_env_def)
  from ConnectToNode_dials [OF this, of "[?u]" 0 None plain_node] show ?thesis
    by (auto simp: plain_env_def plain_node_def)
qed



text \<open>
  Blocking the peer that sent a bad URI has no effect on its next connection. Both its
  identity and its address are blocked, but \<open>OnNewPeer\<close> looks each up on the other's list and
  goes on to serve it.
\<close>
lemma blocked_sender_comes_back:
  assumes "peer_Id w q = Some (a, n)" "NodeId_ToString (v_mb env) n = Ok s" "pe_ip (w_heap w q) \<noteq> s"
    and "\<not> Map_Contains (w_incomingIPBlocklist w) s"
    and "\<not> Map_Contains (w_incomingPeerBlockList w) (pe_ip (w_heap w q))"
    and "w1 = snd (block_sender env (Some q) w)"
    and "peer_Id w1 p = Some (b, n)" "pe_ip (w_heap w1 p) = pe_ip (w_heap w q)"
  shows "Map_Contains (w_incomingPeerBlockList w1) s \<and>
    Map_Contains (w_incomingIPBlocklist w1) (pe_ip (w_heap w q)) \<and>
    (p, verifyId) \<in> set (w_listening (snd (OnNewPeer env p verifyId w1)))"
proof -
  have lists: "Map_Contains (w_incomingPeerBlockList w1) x \<longleftrightarrow> x = s \<or> Map_Contains (w_incomingPeerBlockList w) x"
    "Map_Contains (w_incomingIPBlocklist w1) x \<longleftrightarrow>
      x = pe_ip (w_heap w q) \<or> Map_Contains (w_incomingIPBlocklist w) x" for x
    using assms(1,2,6) by (auto simp: block_sender_def id_ToString_def Let_def)
  then show ?thesis
    using assms by (simp add: OnNewPeer_def id_ToString_def Let_def alloc_def peer_SetChallenge_def upd_peer_def sbind_snd
        split: outcome.split)
qed

end
