(* ===== verification/Registry_Service.thy ===== *)
theory Registry_Service
  imports Wire_Messages
begin

text \<open>
  \<open>service/default/registry.go\<close>: storing, broadcasting, querying and listening to registry
  entries, over the \<open>registry\<close> bucket and the table of peers. Lemmas: what \<open>Set\<close> does in
  each case (by the revision stored already and by its checks), that it never lowers a stored
  revision and only stores entries that verify, what a \<open>Get\<close> returns, and whom a broadcast
  reaches.
\<close>

section \<open>The operations\<close>

definition err_pubkey :: go_error where "err_pubkey = GoError ''Invalid pubkey'' []"
definition err_only_ed25519 :: go_error where "err_only_ed25519 = GoError ''Only ed25519 keys are supported'' []"
definition err_revision :: go_error where "err_revision = GoError ''Invalid revision'' []"
definition err_too_long :: go_error where "err_too_long = GoError ''Data too long'' []"
definition err_signature :: go_error where "err_signature = GoError ''Invalid signature found'' []"
definition err_too_low :: go_error where "err_too_low = GoError ''Revision number too low'' []"

definition getFromDB :: "'s env \<Rightarrow> bytes \<Rightarrow> 's world \<Rightarrow> SignedRegistryEntry option outcome \<times> 's world" where
  "getFromDB env pk w =
     sbind (store_step (kv_Get (v_registry env) pk) w) (\<lambda>val w.
       case val of
         None \<Rightarrow> (Ok None, w)
       | Some v \<Rightarrow> (obind (UnmarshalSignedRegistryEntry v) (\<lambda>sre. Ok (Some sre)), w))"

text \<open>
  The loops over the peers. When a write fails, the error that is returned is the one of the
  \<open>ToString\<close> call that names the peer for the log, declared in the block it is returned from:
  nil, if there is no error in that call.
\<close>

primrec broadcast_to ::
  "'s env \<Rightarrow> bytes \<Rightarrow> peer_ref option \<Rightarrow> peer_ref list \<Rightarrow> 's world \<Rightarrow> unit outcome \<times> 's world" where
  "broadcast_to env msg receivedFrom [] w = (Ok (), w)"
| "broadcast_to env msg receivedFrom (peer # ps) w =
     sbind (pure_step (case receivedFrom of
              None \<Rightarrow> Ok True | Some q \<Rightarrow> id_Equals (peer_Id w peer) (peer_Id w q)) w) (\<lambda>same w.
       if same then
         (case SendMessage env peer msg w of
            (Ok _, w') \<Rightarrow> broadcast_to env msg receivedFrom ps w'
          | (Panic, w') \<Rightarrow> (Panic, w')
          | (Err _, w') \<Rightarrow> (obind (id_ToString env (peer_Id w' peer)) (\<lambda>_. Ok ()), w'))
       else broadcast_to env msg receivedFrom ps w)"

definition BroadcastEntry ::
  "'s env \<Rightarrow> SignedRegistryEntry \<Rightarrow> peer_ref option \<Rightarrow> 's world \<Rightarrow> unit outcome \<times> 's world" where
  "BroadcastEntry env sre receivedFrom w =
     sbind (pure_step (Multihash_ToString (NewMultihash (sre_pk sre))) w) (\<lambda>_ w.
     sbind (pure_step (peer_id_string env receivedFrom w) w) (\<lambda>_ w.
       broadcast_to env (MarshalSignedRegistryEntry sre) receivedFrom (Map_Values (w_peers w)) w))"

text \<open>The checks on an entry that is not trusted.\<close>

definition check_entry :: "ed25519_lib \<Rightarrow> SignedRegistryEntry \<Rightarrow> unit outcome" where
  "check_entry ed sre =
     (if length (sre_pk sre) \<noteq> 33 then Err err_pubkey
      else obind (go_index (sre_pk sre) 0) (\<lambda>b.
        if uint b \<noteq> HashTypeEd25519 then Err err_only_ed25519
        else if sre_revision sre < 0 \<or> sre_revision sre > 281474976710656 then Err err_revision
        else if length (sre_data sre) > RegistryMaxDataSize then Err err_too_long
        else obind (VerifyRegistryEntry ed sre) (\<lambda>ok. if \<not> ok then Err err_signature else Ok ())))"

text \<open>
  The end of \<open>Set\<close>: the event is emitted, the entry is stored, and then broadcast.
\<close>

definition store_entry ::
  "'s env \<Rightarrow> SignedRegistryEntry \<Rightarrow> peer_ref option \<Rightarrow> 's world \<Rightarrow> unit outcome \<times> 's world" where
  "store_entry env sre receivedFrom w =
     sbind (pure_step (Multihash_ToString (NewMultihash (sre_pk sre))) w) (\<lambda>keyString w.
       let w = (case Map_Get (w_streams w) keyString of
                  Some _ \<Rightarrow> w\<lparr>w_fired := w_fired w @ [(keyString, sre)]\<rparr>
                | None \<Rightarrow> w)
       in sbind (store_step (kv_Put (v_registry env) (sre_pk sre) (MarshalSignedRegistryEntry sre)) w)
            (\<lambda>_ w. BroadcastEntry env sre receivedFrom w))"

definition Registry_Set ::
  "'s env \<Rightarrow> SignedRegistryEntry \<Rightarrow> bool \<Rightarrow> peer_ref option \<Rightarrow> 's world \<Rightarrow> unit outcome \<times> 's world" where
  "Registry_Set env sre trusted receivedFrom w =
     sbind (pure_step (Multihash_ToString (NewMultihash (sre_pk sre))) w) (\<lambda>_ w.
     sbind (pure_step (peer_id_string env receivedFrom w) w) (\<lambda>_ w.
     sbind (pure_step (if trusted then Ok () else check_entry (v_ed env) sre) w) (\<lambda>_ w.
     sbind (getFromDB env (sre_pk sre) w) (\<lambda>existing w.
       case existing of
         None \<Rightarrow> store_entry env sre receivedFrom w
       | Some old \<Rightarrow>
           (case receivedFrom of
              Some peer \<Rightarrow>
                if sre_revision old = sre_revision sre then (Ok (), w)
                else if sre_revision old > sre_revision sre
                  then SendMessage env peer (MarshalSignedRegistryEntry old) w
                else store_entry env sre receivedFrom w
            | None \<Rightarrow>
                if sre_revision old \<ge> sre_revision sre then (Err err_too_low, w)
                else store_entry env sre receivedFrom w)))))"

primrec send_to_all :: "'s env \<Rightarrow> bytes \<Rightarrow> peer_ref list \<Rightarrow> 's world \<Rightarrow> unit outcome \<times> 's world" where
  "send_to_all env msg [] w = (Ok (), w)"
| "send_to_all env msg (peer # ps) w =
     (case SendMessage env peer msg w of
        (Ok _, w') \<Rightarrow> send_to_all env msg ps w'
      | (Panic, w') \<Rightarrow> (Panic, w')
      | (Err _, w') \<Rightarrow> (obind (id_ToString env (peer_Id w' peer)) (\<lambda>_. Ok ()), w'))"

definition SendRegistryRequest :: "'s env \<Rightarrow> bytes \<Rightarrow> 's world \<Rightarrow> unit outcome \<times> 's world" where
  "SendRegistryRequest env pk w =
     send_to_all env (RegistryQuery_EncodeMsgpack (v_mp env) pk) (Map_Values (w_peers w)) w"

text \<open>The polling loop of \<open>Get\<close>, with \<open>n\<close> rounds left; \<open>res\<close> is what the last round found.\<close>

primrec poll ::
  "'s env \<Rightarrow> bytes \<Rightarrow> nat \<Rightarrow> SignedRegistryEntry option \<Rightarrow> 's world \<Rightarrow>
   SignedRegistryEntry option outcome \<times> 's world" where
  "poll env pk 0 res w = (Ok res, w)"
| "poll env pk (Suc n) res w =
     sbind (getFromDB env pk (v_others env w)) (\<lambda>res w.
       if res \<noteq> None then (Ok res, w) else poll env pk n res w)"

definition Registry_Get ::
  "'s env \<Rightarrow> bytes \<Rightarrow> 's world \<Rightarrow> SignedRegistryEntry option outcome \<times> 's world" where
  "Registry_Get env pk w =
     sbind (pure_step (Multihash_ToString (NewMultihash pk)) w) (\<lambda>keyString w.
       if Map_Contains (w_subs w) keyString then
         sbind (getFromDB env pk w) (\<lambda>res w.
           if res \<noteq> None then (Ok res, w)
           else sbind (SendRegistryRequest env pk w) (\<lambda>_ w. getFromDB env pk (v_others env w)))
       else
         sbind (SendRegistryRequest env pk w) (\<lambda>_ w.
           let w = w\<lparr>w_subs := Map_Put (w_subs w) keyString (NewMultihash pk)\<rparr>;
               w = (if Map_Contains (w_streams w) keyString then w
                    else w\<lparr>w_streams := Map_Put (w_streams w) keyString []\<rparr>)
           in sbind (getFromDB env pk w) (\<lambda>res w.
                if res \<noteq> None then (Ok res, w) else poll env pk 200 None w)))"

text \<open>
  \<open>Listen\<close> registers the callback \<open>cb\<close> with the stream of the key; the function it returns
  takes it off again.
\<close>

definition Listen :: "'s env \<Rightarrow> bytes \<Rightarrow> nat \<Rightarrow> 's world \<Rightarrow> string outcome \<times> 's world" where
  "Listen env pk cb w =
     sbind (pure_step (Multihash_ToString (NewMultihash pk)) w) (\<lambda>key w.
     sbind (if \<not> Map_Contains (w_streams w) key
            then SendRegistryRequest env pk (w\<lparr>w_streams := Map_Put (w_streams w) key []\<rparr>)
            else (Ok (), w)) (\<lambda>_ w.
       case Map_Get (w_streams w) key of
         None \<Rightarrow> (Panic, w)
       | Some stream \<Rightarrow> (Ok key, w\<lparr>w_streams := Map_Put (w_streams w) key (stream @ [cb])\<rparr>)))"

definition Unlisten :: "string \<Rightarrow> nat \<Rightarrow> 's world \<Rightarrow> 's world" where
  "Unlisten key cb w =
     (case Map_Get (w_streams w) key of
        None \<Rightarrow> w
      | Some stream \<Rightarrow> w\<lparr>w_streams := Map_Put (w_streams w) key (remove1 cb stream)\<rparr>)"


section \<open>Broadcasts and requests\<close>

lemma sbind_pure_step: "sbind (pure_step m w) f = (case m of Ok a \<Rightarrow> f a w | Err e \<Rightarrow> (Err e, w) | Panic \<Rightarrow> (Panic, w))"
  by (cases m) simp_all

text \<open>What a loop of writes leaves behind: more events on the wire, nothing else.\<close>

definition only_wire :: "'s world \<Rightarrow> 's world \<Rightarrow> wire_event list \<Rightarrow> bool" where
  "only_wire w w' evs \<longleftrightarrow> w' = w\<lparr>w_wire := w_wire w @ evs\<rparr>"

lemma only_wire_refl: "only_wire w w []"
  by (simp add: only_wire_def)

lemma only_wire_trans: "only_wire w w1 e1 \<Longrightarrow> only_wire w1 w2 e2 \<Longrightarrow> only_wire w w2 (e1 @ e2)"
  by (simp add: only_wire_def)

lemma only_wire_same:
  assumes "only_wire w w' evs"
  shows "w_store w' = w_store w" "w_heap w' = w_heap w" "w_peers w' = w_peers w" "w_streams w' = w_streams w"
    "w_subs w' = w_subs w" "w_fired w' = w_fired w"
  using assms by (simp_all add: only_wire_def)

lemma SendMessage_wire:
  assumes "SendMessage env p msg w = (r, w')"
  obtains e where "only_wire w w' [e]" "we_peer e = p" "we_message e = msg" "r = Ok () \<longleftrightarrow> we_sent e"
proof -
  from assms obtain b where "w' = w\<lparr>w_wire := w_wire w @ [\<lparr>we_peer = p, we_message = msg, we_sent = b\<rparr>]\<rparr>"
    "r = Ok () \<longleftrightarrow> b" by (rule SendMessage_result)
  then show thesis
    by (intro that [of "\<lparr>we_peer = p, we_message = msg, we_sent = b\<rparr>"]) (simp_all add: only_wire_def)
qed

lemma SendMessage_store: "SendMessage env p msg w = (r, w') \<Longrightarrow> w_store w' = w_store w"
  by (metis SendMessage_frame(1) snd_conv)

lemma broadcast_to_wire:
  assumes "broadcast_to env msg (Some q) ps w = (r, w')"
  shows "\<exists>evs. only_wire w w' evs \<and>
    (\<forall>e \<in> set evs. we_peer e \<in> set ps \<and> we_message e = msg \<and>
       id_Equals (peer_Id w (we_peer e)) (peer_Id w q) = Ok True)"
  using assms
proof (induction ps arbitrary: w)
  case Nil
  then show ?case using only_wire_refl by fastforce
next
  case (Cons p ps)
  show ?case
  proof (cases "id_Equals (peer_Id w p) (peer_Id w q)")
    case (Ok b)
    show ?thesis
    proof (cases b)
      case True
      obtain x w1 where x: "SendMessage env p msg w = (x, w1)" by fastforce
      then obtain e where e: "only_wire w w1 [e]" "we_peer e = p" "we_message e = msg" by (rule SendMessage_wire)
      note ids = only_wire_same(2) [OF e(1)]
      show ?thesis
      proof (cases x)
        case (Ok u)
        with Cons.prems x True \<open>id_Equals _ _ = Ok b\<close> have "broadcast_to env msg (Some q) ps w1 = (r, w')" by simp
        from Cons.IH [OF this] obtain evs where evs: "only_wire w1 w' evs"
          "\<forall>e \<in> set evs. we_peer e \<in> set ps \<and> we_message e = msg \<and>
             id_Equals (peer_Id w1 (we_peer e)) (peer_Id w1 q) = Ok True" by blast
        from only_wire_trans [OF e(1) evs(1)] evs(2) e ids True \<open>id_Equals _ _ = Ok b\<close>
        show ?thesis by (intro exI [of _ "e # evs"]) (auto simp: peer_Id_def)
      qed (use Cons.prems x True e ids \<open>id_Equals _ _ = Ok b\<close> in \<open>auto intro!: exI [of _ "[e]"]\<close>)
    next
      case False
      with Cons.prems Ok have "broadcast_to env msg (Some q) ps w = (r, w')" by simp
      from Cons.IH [OF this] show ?thesis by auto
    qed
  qed (use Cons.prems only_wire_refl in fastforce)+
qed

lemma BroadcastEntry_wire:
  assumes "BroadcastEntry env sre rf w = (r, w')"
  shows "\<exists>evs. only_wire w w' evs \<and>
    (\<forall>e \<in> set evs. we_message e = MarshalSignedRegistryEntry sre \<and> we_peer e \<in> set (Map_Values (w_peers w)) \<and>
       (\<exists>q. rf = Some q \<and> id_Equals (peer_Id w (we_peer e)) (peer_Id w q) = Ok True))"
proof (cases rf)
  case None
  with assms have "w' = w"
    by (auto simp: BroadcastEntry_def sbind_pure_step peer_id_string_def split: outcome.splits)
  then show ?thesis using only_wire_refl by fastforce
next
  case (Some q)
  then consider "w' = w"
    | "broadcast_to env (MarshalSignedRegistryEntry sre) (Some q) (Map_Values (w_peers w)) w = (r, w')"
    using assms by (auto simp: BroadcastEntry_def sbind_pure_step split: outcome.splits)
  then show ?thesis
  proof cases
    case 1
    then show ?thesis using only_wire_refl by fastforce
  next
    case 2
    from broadcast_to_wire [OF this] Some show ?thesis by blast
  qed
qed

lemma send_to_all_wire:
  assumes "send_to_all env msg ps w = (r, w')"
  shows "\<exists>evs. only_wire w w' evs \<and> (\<forall>e \<in> set evs. we_peer e \<in> set ps \<and> we_message e = msg)"
  using assms
proof (induction ps arbitrary: w)
  case Nil
  then show ?case using only_wire_refl by fastforce
next
  case (Cons p ps)
  obtain x w1 where x: "SendMessage env p msg w = (x, w1)" by fastforce
  then obtain e where e: "only_wire w w1 [e]" "we_peer e = p" "we_message e = msg" by (rule SendMessage_wire)
  show ?case
  proof (cases x)
    case (Ok u)
    with Cons.prems x have "send_to_all env msg ps w1 = (r, w')" by simp
    from Cons.IH [OF this] obtain evs where "only_wire w1 w' evs"
      "\<forall>e \<in> set evs. we_peer e \<in> set ps \<and> we_message e = msg" by blast
    with only_wire_trans [OF e(1)] e show ?thesis by (intro exI [of _ "e # evs"]) auto
  qed (use Cons.prems x e in \<open>auto intro!: exI [of _ "[e]"]\<close>)
qed


text \<open>
  A failed write ends the loop, and is not reported: the peers before it got the message, those
  after it did not.
\<close>

lemma send_to_all_stops:
  assumes "multibase_laws (v_mb env)" "send_to_all env msg ps w = (r, w')"
  obtains good bad where "only_wire w w' (good @ bad)" "\<forall>e \<in> set good. we_sent e"
    "\<forall>e \<in> set bad. \<not> we_sent e" "length bad \<le> 1" "map we_peer (good @ bad) = take (length (good @ bad)) ps"
    "length (good @ bad) < length ps \<longrightarrow> bad \<noteq> []" "\<forall>e. r \<noteq> Err e"
  using assms(2)
proof (induction ps arbitrary: w thesis)
  case Nil
  from Nil.prems(2) show ?case by (intro Nil.prems(1) [of "[]" "[]"]) (auto simp: only_wire_def)
next
  case (Cons p ps)
  obtain x w1 where x: "SendMessage env p msg w = (x, w1)" by fastforce
  then obtain e where e: "only_wire w w1 [e]" "we_peer e = p" "x = Ok () \<longleftrightarrow> we_sent e"
    by (rule SendMessage_wire)
  show ?case
  proof (cases x)
    case (Ok u)
    with Cons.prems(2) x have "send_to_all env msg ps w1 = (r, w')" by simp
    from Cons.IH [OF _ this] obtain good bad where gb: "only_wire w1 w' (good @ bad)" "\<forall>e \<in> set good. we_sent e"
      "\<forall>e \<in> set bad. \<not> we_sent e" "length bad \<le> 1" "map we_peer (good @ bad) = take (length (good @ bad)) ps"
      "length (good @ bad) < length ps \<longrightarrow> bad \<noteq> []" "\<forall>e. r \<noteq> Err e" by blast
    show ?thesis
      by (rule Cons.prems(1) [of "e # good" bad])
        (use gb e Ok only_wire_trans [OF e(1) gb(1)] in auto)
  next
    case (Err er)
    then have "w' = w1" "\<forall>e. r \<noteq> Err e"
      using Cons.prems(2) x NodeId_ToString_total [OF assms(1)]
      by (auto simp: id_ToString_def obind_eq_Err split: option.splits prod.splits) (metis outcome.distinct(1))
    then show ?thesis
      by (intro Cons.prems(1) [of "[]" "[e]"]) (use e Err in auto)
  next
    case Panic
    with x show ?thesis by (auto simp: SendMessage_def split: option.splits)
  qed
qed

section \<open>What is stored\<close>

text \<open>The entry a bucket holds under a key.\<close>

definition entry_in :: "(bytes \<rightharpoonup> bytes) \<Rightarrow> bytes \<Rightarrow> SignedRegistryEntry option outcome" where
  "entry_in m pk = (case m pk of
     None \<Rightarrow> Ok None | Some v \<Rightarrow> obind (UnmarshalSignedRegistryEntry v) (\<lambda>sre. Ok (Some sre)))"

text \<open>Every stored entry parses, is stored under its own key and passes the checks of \<open>Set\<close>.\<close>

definition registry_ok :: "ed25519_lib \<Rightarrow> (bytes \<rightharpoonup> bytes) \<Rightarrow> bool" where
  "registry_ok ed m \<longleftrightarrow> (\<forall>pk v. m pk = Some v \<longrightarrow>
     (\<exists>sre. UnmarshalSignedRegistryEntry v = Ok sre \<and> sre_pk sre = pk \<and> check_entry ed sre = Ok ()))"

lemma check_entry_Ok:
  assumes "check_entry ed sre = Ok ()"
  shows "wire_entry sre" "VerifyRegistryEntry ed sre = Ok True" "length (sre_pk sre) = 33"
    "sre_pk sre ! 0 = 0xed" "sre_revision sre \<le> 281474976710656" "length (sre_data sre) \<le> 64"
proof -
  from assms have c: "length (sre_pk sre) = 33" "uint (sre_pk sre ! 0) = HashTypeEd25519"
    "sre_revision sre \<le> 281474976710656" "length (sre_data sre) \<le> 64" "VerifyRegistryEntry ed sre = Ok True"
    by (auto simp: check_entry_def obind_eq_Ok RegistryMaxDataSize_def go_index_def not_less split: if_splits)
  then show "VerifyRegistryEntry ed sre = Ok True" "length (sre_pk sre) = 33"
    "sre_revision sre \<le> 281474976710656" "length (sre_data sre) \<le> 64" by simp_all
  from c(2) have "uint (sre_pk sre ! 0) = uint (0xed :: byte)" by (simp add: HashTypeEd25519_def)
  then show "sre_pk sre ! 0 = 0xed" by (simp only: word_uint_eqI)
  from c(5) have "length (sre_signature sre) = 64"
    by (auto simp: VerifyRegistryEntry_def ed25519_Verify_def obind_eq_Ok Let_def split: if_splits)
  then show "wire_entry sre" using c by (auto simp: wire_entry_def)
qed

lemma registry_ok_upd:
  "registry_ok ed m \<Longrightarrow> check_entry ed sre = Ok () \<Longrightarrow>
     registry_ok ed (m(sre_pk sre \<mapsto> MarshalSignedRegistryEntry sre))"
  using entry.dec_enc [OF check_entry_Ok(1)] by (auto simp: registry_ok_def)

lemma entry_in_upd:
  "wire_entry sre \<Longrightarrow> entry_in (m(sre_pk sre \<mapsto> MarshalSignedRegistryEntry sre)) pk =
     (if pk = sre_pk sre then Ok (Some sre) else entry_in m pk)"
  by (simp add: entry_in_def entry.dec_enc)

lemma registry_ok_entry:
  "registry_ok ed m \<Longrightarrow> entry_in m pk = Ok (Some sre) \<Longrightarrow> sre_pk sre = pk \<and> check_entry ed sre = Ok ()"
  by (fastforce simp: registry_ok_def entry_in_def obind_eq_Ok split: option.splits)

lemma registry_ok_total: "registry_ok ed m \<Longrightarrow> \<exists>e. entry_in m pk = Ok e"
  by (cases "m pk") (force simp: registry_ok_def entry_in_def)+

text \<open>
  The revision under a key only grows: no entry, a lower revision, or the same entry before.
\<close>

definition revisions_le :: "(bytes \<rightharpoonup> bytes) \<Rightarrow> (bytes \<rightharpoonup> bytes) \<Rightarrow> bool" where
  "revisions_le m m' \<longleftrightarrow> (\<forall>pk old. entry_in m pk = Ok (Some old) \<longrightarrow>
     (\<exists>new. entry_in m' pk = Ok (Some new) \<and> (new = old \<or> sre_revision old < sre_revision new)))"

lemma revisions_le_refl [simp]: "revisions_le m m"
  by (simp add: revisions_le_def)

lemma revisions_le_trans:
  assumes "revisions_le a b" "revisions_le b c"
  shows "revisions_le a c"
  unfolding revisions_le_def
proof (intro allI impI)
  fix pk old
  assume "entry_in a pk = Ok (Some old)"
  with assms(1) obtain mid where mid: "entry_in b pk = Ok (Some mid)" "mid = old \<or> sre_revision old < sre_revision mid"
    unfolding revisions_le_def by blast
  with assms(2) obtain new where "entry_in c pk = Ok (Some new)" "new = mid \<or> sre_revision mid < sre_revision new"
    unfolding revisions_le_def by blast
  with mid show "\<exists>new. entry_in c pk = Ok (Some new) \<and> (new = old \<or> sre_revision old < sre_revision new)"
    by auto
qed

text \<open>The effect of \<open>Set\<close> on the bucket: none, or the new entry in place of an older one.\<close>

definition set_effect :: "SignedRegistryEntry \<Rightarrow> (bytes \<rightharpoonup> bytes) \<Rightarrow> (bytes \<rightharpoonup> bytes) \<Rightarrow> bool" where
  "set_effect sre m m' \<longleftrightarrow> m' = m \<or>
     m' = m(sre_pk sre \<mapsto> MarshalSignedRegistryEntry sre) \<and>
     (\<exists>o'. entry_in m (sre_pk sre) = Ok o' \<and> (\<forall>old. o' = Some old \<longrightarrow> sre_revision old < sre_revision sre))"

lemma set_effect_monotone: "set_effect sre m m' \<Longrightarrow> wire_entry sre \<Longrightarrow> revisions_le m m'"
  by (auto simp: set_effect_def revisions_le_def entry_in_upd)

context kv_store
begin

lemma getFromDB_result:
  assumes "v_registry env = kv" "inv (w_store w)" "getFromDB env pk w = (r, w')"
  shows "inv (w_store w')" "contents (w_store w') = contents (w_store w)"
    "r = Ok e \<Longrightarrow> entry_in (contents (w_store w)) pk = Ok e"
    "w' = w\<lparr>w_store := w_store w'\<rparr>"
  by (rule get_cases [OF assms(2), of pk];
      use assms(1,3) in \<open>force simp: getFromDB_def store_step_def entry_in_def split: option.splits\<close>)+

lemma store_entry_effect:
  assumes env: "v_registry env = kv" and inv: "inv (w_store w)" and st: "store_entry env sre rf w = (r, w')"
  shows "inv (w_store w') \<and> (contents (w_store w') = contents (w_store w) \<or>
    contents (w_store w') = (contents (w_store w))(sre_pk sre \<mapsto> MarshalSignedRegistryEntry sre)) \<and>
    (r = Ok () \<longrightarrow> contents (w_store w') = (contents (w_store w))(sre_pk sre \<mapsto> MarshalSignedRegistryEntry sre))"
proof (cases "Multihash_ToString (NewMultihash (sre_pk sre))")
  case (Ok key)
  let ?w = "case Map_Get (w_streams w) key of
      Some _ \<Rightarrow> w\<lparr>w_fired := w_fired w @ [(key, sre)]\<rparr> | None \<Rightarrow> w"
  have w: "w_store ?w = w_store w" by (simp split: option.splits)
  obtain q s where q: "kv_Put kv (sre_pk sre) (MarshalSignedRegistryEntry sre) (w_store w) = (q, s)" by fastforce
  have run: "sbind (q, ?w\<lparr>w_store := s\<rparr>) (\<lambda>_ w. BroadcastEntry env sre rf w) = (r, w')"
    using st Ok q w by (simp add: store_entry_def store_step_def env Let_def)
  have "w_store w' = s"
  proof (cases q)
    case (Ok u)
    with run have "BroadcastEntry env sre rf (?w\<lparr>w_store := s\<rparr>) = (r, w')" by simp
    from BroadcastEntry_wire [OF this] show ?thesis by (auto simp: only_wire_def)
  qed (use run in auto)
  moreover have "r = Ok () \<longrightarrow> q = Ok ()" using run by (cases q) auto
  ultimately show ?thesis
    using put_frame [OF inv q] put_ok [OF inv, of "sre_pk sre" _ "()" s] q by (cases q) auto
qed (use assms in \<open>auto simp: store_entry_def\<close>)

lemma Registry_Set_effect:
  assumes env: "v_registry env = kv" and inv: "inv (w_store w)"
    and set: "Registry_Set env sre trusted rf w = (r, w')"
  shows "inv (w_store w') \<and> set_effect sre (contents (w_store w)) (contents (w_store w')) \<and>
    (trusted \<or> check_entry (v_ed env) sre = Ok () \<or> w' = w)"
proof -
  let ?c = "if trusted then Ok () else check_entry (v_ed env) sre"
  consider "w' = w" | "?c = Ok ()" "sbind (getFromDB env (sre_pk sre) w) (\<lambda>existing w.
       case existing of None \<Rightarrow> store_entry env sre rf w
       | Some old \<Rightarrow> (case rf of
            Some peer \<Rightarrow>
              if sre_revision old = sre_revision sre then (Ok (), w)
              else if sre_revision old > sre_revision sre
                then SendMessage env peer (MarshalSignedRegistryEntry old) w
              else store_entry env sre rf w
          | None \<Rightarrow>
              if sre_revision old \<ge> sre_revision sre then (Err err_too_low, w)
              else store_entry env sre rf w)) = (r, w')"
    using set unfolding Registry_Set_def sbind_pure_step by (auto split: outcome.splits)
  then show ?thesis
  proof cases
    case 1
    then show ?thesis using inv by (simp add: set_effect_def)
  next
    case 2
    obtain g w1 where g: "getFromDB env (sre_pk sre) w = (g, w1)" by fastforce
    note get = getFromDB_result [OF env inv g]
    have c: "trusted \<or> check_entry (v_ed env) sre = Ok ()" using 2(1) by (cases trusted) auto
    consider "w_store w' = w_store w1"
      | e where "g = Ok e" "store_entry env sre rf w1 = (r, w')"
          "\<forall>old. e = Some old \<longrightarrow> sre_revision old < sre_revision sre"
      using 2(2) g
      by (cases g) (auto split: option.splits if_splits dest!: SendMessage_store simp: not_le not_less)
    then show ?thesis
    proof cases
      case 1
      then show ?thesis using get(1,2) c by (auto simp: set_effect_def)
    next
      case 2
      from store_entry_effect [OF env get(1) 2(2)] get(2,3) 2 c show ?thesis
        by (auto simp: set_effect_def)
    qed
  qed
qed

lemma Registry_Set_Ok:
  assumes env: "v_registry env = kv" and inv: "inv (w_store w)"
    and set: "Registry_Set env sre trusted (Some p) w = (Ok (), w')"
  obtains e where "entry_in (contents (w_store w)) (sre_pk sre) = Ok e"
    "contents (w_store w') =
      (case e of Some old \<Rightarrow> if sre_revision sre \<le> sre_revision old then contents (w_store w)
         else (contents (w_store w))(sre_pk sre \<mapsto> MarshalSignedRegistryEntry sre)
       | None \<Rightarrow> (contents (w_store w))(sre_pk sre \<mapsto> MarshalSignedRegistryEntry sre))"
    "\<And>old. e = Some old \<Longrightarrow> sre_revision sre < sre_revision old \<Longrightarrow>
       w_wire w' = w_wire w @ [\<lparr>we_peer = p, we_message = MarshalSignedRegistryEntry old, we_sent = True\<rparr>]"
proof -
  from set obtain e w1 where g: "getFromDB env (sre_pk sre) w = (Ok e, w1)"
    and rest: "(case e of None \<Rightarrow> store_entry env sre (Some p) w1
       | Some old \<Rightarrow>
              if sre_revision old = sre_revision sre then (Ok (), w1)
              else if sre_revision old > sre_revision sre
                then SendMessage env p (MarshalSignedRegistryEntry old) w1
              else store_entry env sre (Some p) w1) = (Ok (), w')"
    unfolding Registry_Set_def sbind_pure_step
    by (auto split: outcome.splits simp: sbind_eq_Ok cong: option.case_cong)
  note get = getFromDB_result [OF env inv g]
  have wire: "w_wire w1 = w_wire w" using get(4) by (metis world.select_convs(3) world.surjective world.update_convs(1))
  show thesis
  proof (rule that)
    show "entry_in (contents (w_store w)) (sre_pk sre) = Ok e" using get(3) by simp
    show "contents (w_store w') =
      (case e of Some old \<Rightarrow> if sre_revision sre \<le> sre_revision old then contents (w_store w)
         else (contents (w_store w))(sre_pk sre \<mapsto> MarshalSignedRegistryEntry sre)
       | None \<Rightarrow> (contents (w_store w))(sre_pk sre \<mapsto> MarshalSignedRegistryEntry sre))"
      using rest get(1,2) store_entry_effect [OF env get(1), of sre "Some p" "Ok ()" w']
      by (auto split: option.splits if_splits dest!: SendMessage_store)
    fix old assume "e = Some old" "sre_revision sre < sre_revision old"
    moreover from this have "sre_revision old \<noteq> sre_revision sre" by auto
    ultimately have "SendMessage env p (MarshalSignedRegistryEntry old) w1 = (Ok (), w')"
      using rest by simp
    then show "w_wire w' = w_wire w @ [\<lparr>we_peer = p, we_message = MarshalSignedRegistryEntry old, we_sent = True\<rparr>]"
      using wire by (auto simp: SendMessage_def split: option.splits)
  qed
qed

lemma SendRegistryRequest_store: "SendRegistryRequest env pk w = (r, w') \<Longrightarrow> w_store w' = w_store w"
  unfolding SendRegistryRequest_def by (auto dest!: send_to_all_wire only_wire_same(1))

lemma Listen_store: "Listen env pk cb w = (r, w') \<Longrightarrow> w_store w' = w_store w"
  by (auto simp: Listen_def pure_step_def sbind_def split: outcome.splits if_splits prod.splits option.splits
      dest!: SendRegistryRequest_store)

text \<open>
  \<open>Get\<close>, for any property \<open>J\<close> of the bucket that the other goroutines keep while it sleeps.
\<close>

lemma Registry_Get_result:
  assumes env: "v_registry env = kv"
    and others: "\<And>v. inv (w_store v) \<Longrightarrow> J (contents (w_store v)) \<Longrightarrow>
      inv (w_store (v_others env v)) \<and> J (contents (w_store (v_others env v)))"
    and inv: "inv (w_store w)" "J (contents (w_store w))"
    and get: "Registry_Get env pk w = (r, w')"
  shows "inv (w_store w') \<and> J (contents (w_store w')) \<and>
    (\<forall>e. r = Ok e \<longrightarrow> entry_in (contents (w_store w')) pk = Ok e)"
proof -
  let ?P = "\<lambda>r w'. inv (w_store w') \<and> J (contents (w_store w')) \<and>
    (\<forall>e. r = Ok e \<longrightarrow> entry_in (contents (w_store w')) pk = Ok e)"
  have db: "?P r w'" if "inv (w_store w)" "J (contents (w_store w))" "getFromDB env pk w = (r, w')" for w w' r
    using getFromDB_result [OF env that(1,3)] that(2) by simp
  have send: "w_store w' = w_store w" if "SendRegistryRequest env pk w = (r, w')" for w w' r
    using that by (rule SendRegistryRequest_store)
  have poll: "?P r w'" if "?P (Ok e) w" "poll env pk n e w = (r, w')" for n e w w' r
    using that
  proof (induction n arbitrary: e w)
    case (Suc n)
    obtain g w1 where g: "getFromDB env pk (v_others env w) = (g, w1)" by fastforce
    have "inv (w_store (v_others env w))" "J (contents (w_store (v_others env w)))"
      using others Suc.prems(1) by blast+
    from db [OF this g] have P: "?P g w1" .
    show ?case
    proof (cases g)
      case (Ok e')
      show ?thesis
      proof (cases e')
        case None
        then have "poll env pk n e' w1 = (r, w')" using Suc.prems(2) g Ok by simp
        from Suc.IH [OF _ this] P Ok show ?thesis by blast
      qed (use Suc.prems(2) P g Ok in auto)
    qed (use Suc.prems(2) P g in auto)
  qed auto
  show ?thesis
  proof (cases "Multihash_ToString (NewMultihash pk)")
    case (Ok key)
    show ?thesis
    proof (cases "Map_Contains (w_subs w) key")
      case True
      obtain g w1 where g: "getFromDB env pk w = (g, w1)" by fastforce
      note P = db [OF inv g]
      obtain x w2 where x: "SendRegistryRequest env pk w1 = (x, w2)" by fastforce
      have s: "inv (w_store w2)" "J (contents (w_store w2))" using send [OF x] P by auto
      then have s': "inv (w_store (v_others env w2))" "J (contents (w_store (v_others env w2)))"
        using others by blast+
      have run: "(r, w') = sbind (g, w1) (\<lambda>res _. if res \<noteq> None then (Ok res, w1)
          else sbind (x, w2) (\<lambda>_ w. getFromDB env pk (v_others env w)))"
        unfolding get [symmetric] using g Ok True x by (cases g) (simp_all add: Registry_Get_def)
      show ?thesis
      proof (cases g)
        case Ok2: (Ok e)
        show ?thesis
        proof (cases e)
          case None
          then show ?thesis using run Ok2 s db [OF s' sym] by (cases x) auto
        qed (use run Ok2 P in auto)
      qed (use run P in auto)
    next
      case False
      obtain x w1 where x: "SendRegistryRequest env pk w = (x, w1)" by fastforce
      let ?w = "let w = w1\<lparr>w_subs := Map_Put (w_subs w1) key (NewMultihash pk)\<rparr> in
        if Map_Contains (w_streams w) key then w else w\<lparr>w_streams := Map_Put (w_streams w) key []\<rparr>"
      have s: "inv (w_store ?w)" "J (contents (w_store ?w))" "inv (w_store w1)" "J (contents (w_store w1))"
        using send [OF x] inv by (simp_all add: Let_def)
      obtain g w2 where g: "getFromDB env pk ?w = (g, w2)" by fastforce
      note P = db [OF s(1,2) g]
      have run: "(r, w') = sbind (x, w1) (\<lambda>_ _. sbind (g, w2) (\<lambda>res w.
          if res \<noteq> None then (Ok res, w) else poll env pk 200 None w))"
        using get Ok False x g by (cases x) (simp_all add: Registry_Get_def Let_def)
      show ?thesis
      proof (cases x)
        case (Ok u)
        show ?thesis
        proof (cases g)
          case Ok2: (Ok e)
          show ?thesis
          proof (cases e)
            case None
            then have "poll env pk 200 e w2 = (r, w')" using run Ok Ok2 by simp
            from poll [OF _ this] P Ok2 show ?thesis by blast
          qed (use run Ok Ok2 P in auto)
        qed (use run Ok P in auto)
      qed (use run s in auto)
    qed
  qed (use get inv in \<open>auto simp: Registry_Get_def\<close>)
qed

end


section \<open>Runs of the service\<close>

text \<open>
  What the network and the callers of the node can make the registry service do: entries that
  arrive from peers (they are not trusted), requests and subscriptions, in any order and with
  any outcome.
\<close>

inductive registry_step :: "'s env \<Rightarrow> 's world \<Rightarrow> 's world \<Rightarrow> bool" for env where
  step_set: "Registry_Set env sre False rf w = (r, w') \<Longrightarrow> registry_step env w w'"
| step_request: "SendRegistryRequest env pk w = (r, w') \<Longrightarrow> registry_step env w w'"
| step_listen: "Listen env pk cb w = (r, w') \<Longrightarrow> registry_step env w w'"
| step_unlisten: "w' = Unlisten key cb w \<Longrightarrow> registry_step env w w'"

abbreviation registry_run :: "'s env \<Rightarrow> 's world \<Rightarrow> 's world \<Rightarrow> bool" where
  "registry_run env \<equiv> (registry_step env)\<^sup>*\<^sup>*"

lemma Unlisten_store: "w_store (Unlisten key cb w) = w_store w"
  by (simp add: Unlisten_def split: option.splits)

context kv_store
begin

lemma registry_step_safe:
  assumes "registry_step env w w'" "v_registry env = kv" "inv (w_store w)"
    and "registry_ok (v_ed env) (contents (w_store w))"
  shows "inv (w_store w') \<and> registry_ok (v_ed env) (contents (w_store w')) \<and>
    revisions_le (contents (w_store w)) (contents (w_store w'))"
  using assms
proof (cases rule: registry_step.cases)
  case (step_set sre rf r)
  from Registry_Set_effect [OF assms(2,3) this]
  consider "inv (w_store w')" "set_effect sre (contents (w_store w)) (contents (w_store w'))"
      "check_entry (v_ed env) sre = Ok ()"
    | "w' = w" by auto
  then show ?thesis
  proof cases
    case 1
    then have "wire_entry sre" by (simp add: check_entry_Ok)
    with 1 have "revisions_le (contents (w_store w)) (contents (w_store w'))"
      by (intro set_effect_monotone)
    then show ?thesis using 1 assms(4) registry_ok_upd by (auto simp: set_effect_def)
  qed (use assms in simp)
qed (use assms in \<open>auto simp: Unlisten_store dest!: SendRegistryRequest_store Listen_store\<close>)

lemma registry_run_safe:
  assumes "registry_run env w w'" "v_registry env = kv" "inv (w_store w)"
    and "registry_ok (v_ed env) (contents (w_store w))"
  shows "inv (w_store w') \<and> registry_ok (v_ed env) (contents (w_store w')) \<and>
    revisions_le (contents (w_store w)) (contents (w_store w'))"
  using assms
proof (induction rule: rtranclp_induct)
  case (step v v')
  from step registry_step_safe [OF step(2,4)] revisions_le_trans show ?case by blast
qed simp

text \<open>After an untrusted entry was stored, a lookup answers with it or with one of a higher revision.\<close>

lemma Set_then_Get:
  assumes env: "v_registry env = kv" and inv: "inv (w_store w)" and ok: "registry_ok (v_ed env) (contents (w_store w))"
    and others: "\<forall>v. registry_run env v (v_others env v)"
    and set: "Registry_Set env sre False (Some p) w = (Ok (), w1)"
    and newer: "\<forall>old. entry_in (contents (w_store w)) (sre_pk sre) = Ok (Some old) \<longrightarrow> sre_revision old < sre_revision sre"
    and run: "registry_run env w1 w2" and get: "Registry_Get env (sre_pk sre) w2 = (Ok res, w3)"
  shows "\<exists>e. res = Some e \<and> (e = sre \<or> sre_revision sre < sre_revision e) \<and> check_entry (v_ed env) e = Ok () \<and>
    sre_pk e = sre_pk sre"
proof -
  let ?J = "\<lambda>m. registry_ok (v_ed env) m \<and> revisions_le (contents (w_store w1)) m"
  from Registry_Set_effect [OF env inv set] have inv1: "inv (w_store w1)" by simp
  have safe: "inv (w_store w1) \<and> registry_ok (v_ed env) (contents (w_store w1))"
    using registry_step_safe [OF step_set [OF set] env inv ok] by simp
  have s1: "inv (w_store v') \<and> ?J (contents (w_store v'))"
    if "registry_run env v v'" "inv (w_store v)" "?J (contents (w_store v))" for v v'
    using registry_run_safe [OF that(1) env that(2)] that(3) revisions_le_trans by blast
  have s2: "inv (w_store w2)" "?J (contents (w_store w2))" using s1 [OF run] safe by simp_all
  have "inv (w_store w3) \<and> ?J (contents (w_store w3)) \<and> (\<forall>e. Ok res = Ok e \<longrightarrow> entry_in (contents (w_store w3)) (sre_pk sre) = Ok e)"
    by (rule Registry_Get_result [where J = ?J, OF env _ s2 get]) (use s1 others in blast)
  then have w3: "?J (contents (w_store w3))" "entry_in (contents (w_store w3)) (sre_pk sre) = Ok res" by simp_all
  have "entry_in (contents (w_store w1)) (sre_pk sre) = Ok (Some sre)"
  proof (rule Registry_Set_Ok [OF env inv set])
    fix e assume e: "entry_in (contents (w_store w)) (sre_pk sre) = Ok e"
      "contents (w_store w1) = (case e of Some old \<Rightarrow> if sre_revision sre \<le> sre_revision old then contents (w_store w)
         else (contents (w_store w))(sre_pk sre \<mapsto> MarshalSignedRegistryEntry sre)
       | None \<Rightarrow> (contents (w_store w))(sre_pk sre \<mapsto> MarshalSignedRegistryEntry sre))"
    have "check_entry (v_ed env) sre = Ok ()"
      using set by (auto simp: Registry_Set_def sbind_eq_Ok pure_step_def)
    from entry_in_upd [OF check_entry_Ok(1) [OF this]] e newer show ?thesis
      by (cases e) (auto simp: not_le)
  qed
  with w3 obtain e where "res = Some e" "e = sre \<or> sre_revision sre < sre_revision e"
    unfolding revisions_le_def by (metis outcome.inject(1))
  with w3 registry_ok_entry show ?thesis by blast
qed

end

section \<open>Many entries\<close>

text \<open>Entries that arrive one after the other, each handled without an error.\<close>

primrec receive_all :: "'s env \<Rightarrow> (peer_ref \<times> SignedRegistryEntry) list \<Rightarrow> 's world \<Rightarrow> 's world \<Rightarrow> bool" where
  "receive_all env [] w w' \<longleftrightarrow> w' = w"
| "receive_all env (pe # es) w w' \<longleftrightarrow>
     (\<exists>w1. Registry_Set env (snd pe) False (Some (fst pe)) w = (Ok (), w1) \<and> receive_all env es w1 w')"

text \<open>The entry that is kept: the first one of the highest revision.\<close>

definition newer :: "SignedRegistryEntry option \<Rightarrow> SignedRegistryEntry \<Rightarrow> SignedRegistryEntry option" where
  "newer old e = (case old of None \<Rightarrow> Some e | Some o' \<Rightarrow> if sre_revision o' < sre_revision e then Some e else Some o')"

definition latest :: "bytes \<Rightarrow> SignedRegistryEntry option \<Rightarrow> SignedRegistryEntry list \<Rightarrow> SignedRegistryEntry option" where
  "latest pk old es = fold (\<lambda>e r. if sre_pk e = pk then newer r e else r) es old"

lemma latest_simps [simp]:
  "latest pk r [] = r"
  "latest pk r (e # es) = latest pk (if sre_pk e = pk then newer r e else r) es"
  by (simp_all add: latest_def)

lemma latest_max:
  assumes "latest pk None es = Some m"
  shows "m \<in> set es \<and> sre_pk m = pk \<and> (\<forall>e \<in> set es. sre_pk e = pk \<longrightarrow> sre_revision e \<le> sre_revision m)"
proof -
  have "(m \<in> set es \<and> sre_pk m = pk \<or> r = Some m) \<and> (\<forall>e \<in> set es. sre_pk e = pk \<longrightarrow> sre_revision e \<le> sre_revision m) \<and>
      (\<forall>o'. r = Some o' \<longrightarrow> sre_revision o' \<le> sre_revision m)" if "latest pk r es = Some m" for r
    using that
  proof (induction es arbitrary: r)
    case (Cons e es)
    from Cons.IH [of "if sre_pk e = pk then newer r e else r"] Cons.prems show ?case
      by (auto simp: newer_def split: if_splits option.splits)
  qed simp
  from this [OF assms] show ?thesis by simp
qed

lemma latest_Some: "\<exists>m. latest pk (Some r) es = Some m"
  by (induction es arbitrary: r) (auto simp: newer_def)

lemma latest_None: "latest pk None es = None \<longleftrightarrow> (\<forall>e \<in> set es. sre_pk e \<noteq> pk)"
proof (induction es)
  case (Cons e es)
  then show ?case using latest_Some [of pk e es] by (auto simp: newer_def)
qed simp

lemma latest_cong:
  assumes "set es = set es'" "\<forall>e \<in> set es. \<forall>e' \<in> set es. sre_pk e = sre_pk e' \<and> sre_revision e = sre_revision e' \<longrightarrow> e = e'"
  shows "latest pk None es = latest pk None es'"
proof (cases "latest pk None es")
  case None
  then show ?thesis using assms(1) latest_None by metis
next
  case (Some m)
  then obtain m' where m': "latest pk None es' = Some m'" using assms(1) latest_None by (metis option.exhaust)
  have "m = m'" using latest_max [OF Some] latest_max [OF m'] assms by (metis order_antisym)
  with Some m' show ?thesis by simp
qed

context kv_store
begin

lemma receive_all_latest:
  assumes "v_registry env = kv" "inv (w_store w)" "registry_ok (v_ed env) (contents (w_store w))"
    and "\<forall>pk. entry_in (contents (w_store w)) pk = Ok (f pk)" "receive_all env es w w'"
  shows "inv (w_store w') \<and> registry_ok (v_ed env) (contents (w_store w')) \<and>
    (\<forall>pk. entry_in (contents (w_store w')) pk = Ok (latest pk (f pk) (map snd es)))"
  using assms(2-5)
proof (induction es arbitrary: w f)
  case (Cons pe es)
  obtain p e where pe: "pe = (p, e)" by fastforce
  obtain w1 where set: "Registry_Set env e False (Some p) w = (Ok (), w1)" and rest: "receive_all env es w1 w'"
    using Cons.prems(4) by (auto simp: pe)
  have safe: "inv (w_store w1)" "registry_ok (v_ed env) (contents (w_store w1))"
    using registry_step_safe [OF step_set [OF set] assms(1) Cons.prems(1,2)] by simp_all
  have "check_entry (v_ed env) e = Ok ()" using set by (auto simp: Registry_Set_def sbind_eq_Ok pure_step_def)
  note wire = check_entry_Ok(1) [OF this]
  let ?f = "\<lambda>pk. if sre_pk e = pk then newer (f pk) e else f pk"
  have "\<forall>pk. entry_in (contents (w_store w1)) pk = Ok (?f pk)"
  proof (rule allI, rule Registry_Set_Ok [OF assms(1) Cons.prems(1) set])
    fix pk r assume r: "entry_in (contents (w_store w)) (sre_pk e) = Ok r"
      "contents (w_store w1) = (case r of Some old \<Rightarrow> if sre_revision e \<le> sre_revision old then contents (w_store w)
           else (contents (w_store w))(sre_pk e \<mapsto> MarshalSignedRegistryEntry e)
         | None \<Rightarrow> (contents (w_store w))(sre_pk e \<mapsto> MarshalSignedRegistryEntry e))"
    then have "f (sre_pk e) = r" using Cons.prems(3) by simp
    then show "entry_in (contents (w_store w1)) pk = Ok (?f pk)"
      using r(2) Cons.prems(3) entry_in_upd [OF wire]
      by (cases r) (auto simp: newer_def not_le not_less)
  qed
  from Cons.IH [OF safe this rest] show ?case by (simp add: pe)
qed simp

lemma registry_latest:
  assumes "v_registry env = kv" "inv (w_store w)" "contents (w_store w) = Map.empty" "receive_all env es w w'"
  shows "entry_in (contents (w_store w')) pk = Ok (latest pk None (map snd es))"
  using receive_all_latest [OF assms(1,2), of "\<lambda>_. None" es w'] assms(3,4)
  by (simp add: registry_ok_def entry_in_def)

end

section \<open>A sample run\<close>

text \<open>For the witnesses: an entry that verifies arrives from the only peer of a node.\<close>

definition plain_sre :: SignedRegistryEntry where
  "plain_sre = NewSignedRegistryEntry (0xed # replicate 32 7) 5 [1] (replicate 64 7)"

lemma plain_sre_check: "check_entry plain_ed25519 plain_sre = Ok ()"
  by (simp add: check_entry_def plain_sre_def NewSignedRegistryEntry_def HashTypeEd25519_def
      RegistryMaxDataSize_def VerifyRegistryEntry_def ed25519_Verify_def plain_ed25519_def
      replicate_add [symmetric] Let_def)

lemma checked_key: "check_entry ed sre = Ok () \<Longrightarrow> \<exists>s. Multihash_ToString (NewMultihash (sre_pk sre)) = Ok s"
  using check_entry_Ok(3) [of ed sre] Multihash_ToString_total [of "NewMultihash (sre_pk sre)"]
  by (fastforce simp: NewMultihash_def)

lemma plain_send: "SendMessage plain_env p msg w =
    (Ok (), w\<lparr>w_wire := w_wire w @ [\<lparr>we_peer = p, we_message = msg, we_sent = True\<rparr>]\<rparr>)"
  by (simp add: SendMessage_def plain_env_def)

lemma plain_env_registry: "v_registry plain_env = Bbolt_methods (plain_bucket ''registry'')"
  by (simp add: plain_env_def)

lemma plain_store:
  assumes "check_entry plain_ed25519 sre = Ok ()" "bbolt_inv (plain_bucket ''registry'') (w_store w)" "w_heap w = w_heap plain_node"
    "w_peers w = w_peers plain_node"
  obtains w' where "store_entry plain_env sre (Some 1) w = (Ok (), w')"
    "bbolt_inv (plain_bucket ''registry'') (w_store w')" "w_peers w' = w_peers w" "w_subs w' = w_subs w"
    "bbolt_contents (plain_bucket ''registry'') (w_store w') (sre_pk sre) =
      Some (MarshalSignedRegistryEntry sre)" "w_heap w' = w_heap w"
proof -
  let ?b = "plain_bucket ''registry''"
  obtain key where key: "Multihash_ToString (NewMultihash (sre_pk sre)) = Ok key"
    using checked_key [OF assms(1)] by blast
  obtain pid where pid: "id_ToString plain_env (pe_id (w_heap plain_node 1)) = Ok pid"
    using plain_peer_id by blast
  have same: "id_Equals (pe_id (w_heap plain_node 1)) (pe_id (w_heap plain_node 1)) = Ok True"
    by (simp add: id_Equals_def plain_node_def plain_peer_def)
  obtain s where s: "kv_Put (Bbolt_methods ?b) (sre_pk sre) (MarshalSignedRegistryEntry sre) (w_store w) = (Ok (), s)"
    "bbolt_inv ?b s" "bbolt_contents ?b s (sre_pk sre) = Some (MarshalSignedRegistryEntry sre)"
    using plain_bucket_put [OF assms(2), of "sre_pk sre" "MarshalSignedRegistryEntry sre"]
    by (metis fun_upd_same)
  define w1 where "w1 = (case Map_Get (w_streams w) key of
      Some _ \<Rightarrow> w\<lparr>w_fired := w_fired w @ [(key, sre)]\<rparr> | None \<Rightarrow> w)"
  have w1: "w_store w1 = w_store w" "w_heap w1 = w_heap plain_node" "w_peers w1 = w_peers plain_node" "w_subs w1 = w_subs w"
    using assms by (simp_all add: w1_def split: option.splits)
  define w2 where "w2 = w1\<lparr>w_store := s, w_wire := w_wire w1 @
        [\<lparr>we_peer = 1, we_message = MarshalSignedRegistryEntry sre, we_sent = True\<rparr>]\<rparr>"
  have bc: "BroadcastEntry plain_env sre (Some 1) (w1\<lparr>w_store := s\<rparr>) = (Ok (), w2)"
    using pid same
    by (simp add: BroadcastEntry_def key peer_id_string_def peer_Id_def w1 plain_send Map_Values_def
        plain_node_peers w2_def)
  have "store_entry plain_env sre (Some 1) w = BroadcastEntry plain_env sre (Some 1) (w1\<lparr>w_store := s\<rparr>)"
    using s(1) by (simp add: store_entry_def key store_step_def plain_env_registry w1_def split: option.splits)
  then show thesis
    using bc s assms(3,4) w1 by (intro that [of w2]) (simp_all add: w2_def)
qed

lemma plain_db_empty:
  assumes "bbolt_inv (plain_bucket ''registry'') (w_store w)" "bbolt_contents (plain_bucket ''registry'') (w_store w) pk = None"
  obtains s where "getFromDB plain_env pk w = (Ok None, w\<lparr>w_store := s\<rparr>)" "bbolt_inv (plain_bucket ''registry'') s"
    "bbolt_contents (plain_bucket ''registry'') s = bbolt_contents (plain_bucket ''registry'') (w_store w)"
proof -
  obtain s where "kv_Get (Bbolt_methods (plain_bucket ''registry'')) pk (w_store w) = (Ok None, s)"
    "bbolt_inv (plain_bucket ''registry'') s"
    "bbolt_contents (plain_bucket ''registry'') s = bbolt_contents (plain_bucket ''registry'') (w_store w)"
    using plain_bucket_get [OF assms(1), of pk] assms(2) by metis
  then show thesis by (intro that [of s]) (simp_all add: getFromDB_def store_step_def plain_env_registry)
qed

lemma plain_Set:
  assumes "check_entry plain_ed25519 sre = Ok ()" "bbolt_inv (plain_bucket ''registry'') (w_store w)" "w_heap w = w_heap plain_node"
    "w_peers w = w_peers plain_node" "bbolt_contents (plain_bucket ''registry'') (w_store w) (sre_pk sre) = None"
  obtains w' where "Registry_Set plain_env sre False (Some 1) w = (Ok (), w')"
    "bbolt_inv (plain_bucket ''registry'') (w_store w')" "w_peers w' = w_peers w" "w_subs w' = w_subs w"
    "bbolt_contents (plain_bucket ''registry'') (w_store w') (sre_pk sre) =
      Some (MarshalSignedRegistryEntry sre)" "w_heap w' = w_heap w"
proof -
  obtain key where key: "Multihash_ToString (NewMultihash (sre_pk sre)) = Ok key"
    using checked_key [OF assms(1)] by blast
  obtain pid where pid: "id_ToString plain_env (pe_id (w_heap plain_node 1)) = Ok pid"
    using plain_peer_id by blast
  obtain s where db: "getFromDB plain_env (sre_pk sre) w = (Ok None, w\<lparr>w_store := s\<rparr>)" "bbolt_inv (plain_bucket ''registry'') s"
    using assms(2,5) by (rule plain_db_empty)
  have "v_ed plain_env = plain_ed25519" by (simp add: plain_env_def)
  then have "Registry_Set plain_env sre False (Some 1) w = store_entry plain_env sre (Some 1) (w\<lparr>w_store := s\<rparr>)"
    using pid by (simp add: Registry_Set_def key peer_id_string_def peer_Id_def assms(1,3) db)
  with that plain_store [OF assms(1), of "w\<lparr>w_store := s\<rparr>"] db(2) assms(3,4) show thesis by auto
qed

lemma plain_node_store: "w_store plain_node = plain_world"
  by (simp add: plain_node_def)

lemma plain_Get:
  assumes "check_entry plain_ed25519 sre = Ok ()" "bbolt_inv (plain_bucket ''registry'') (w_store w)" "w_peers w = w_peers plain_node"
    "w_subs w = w_subs plain_node"
    "bbolt_contents (plain_bucket ''registry'') (w_store w) (sre_pk sre) =
      Some (MarshalSignedRegistryEntry sre)"
  obtains w' where "Registry_Get plain_env (sre_pk sre) w = (Ok (Some sre), w')"
proof -
  let ?b = "plain_bucket ''registry''"
  obtain key where key: "Multihash_ToString (NewMultihash (sre_pk sre)) = Ok key"
    using checked_key [OF assms(1)] by blast
  have un: "UnmarshalSignedRegistryEntry (MarshalSignedRegistryEntry sre) = Ok sre"
    by (rule entry.dec_enc) (rule check_entry_Ok(1) [OF assms(1)])
  have subs: "\<not> Map_Contains (w_subs w) key"
    by (simp add: assms(4) Map_Contains_def plain_node_def NewMap_def)
  obtain w1 where w1: "SendRegistryRequest plain_env (sre_pk sre) w = (Ok (), w1)" "w_store w1 = w_store w"
    by (simp add: SendRegistryRequest_def Map_Values_def assms(3) plain_node_peers plain_send)
  obtain s where s: "kv_Get (Bbolt_methods ?b) (sre_pk sre) (w_store w) =
      (Ok (Some (MarshalSignedRegistryEntry sre)), s)"
    using plain_bucket_get [OF assms(2), of "sre_pk sre"] assms(5) by metis
  have "\<exists>w'. Registry_Get plain_env (sre_pk sre) w = (Ok (Some sre), w')"
    using subs w1 s un
    by (auto simp: Registry_Get_def key getFromDB_def store_step_def plain_env_registry Let_def)
  then show thesis using that by blast
qed

lemma plain_Set_again:
  assumes "check_entry plain_ed25519 sre = Ok ()" "bbolt_inv (plain_bucket ''registry'') (w_store w)" "w_heap w = w_heap plain_node"
    "bbolt_contents (plain_bucket ''registry'') (w_store w) (sre_pk sre) = Some (MarshalSignedRegistryEntry sre)"
  shows "\<exists>w'. Registry_Set plain_env sre False (Some 1) w = (Ok (), w')"
proof -
  obtain key where key: "Multihash_ToString (NewMultihash (sre_pk sre)) = Ok key" using checked_key [OF assms(1)] by blast
  obtain pid where pid: "id_ToString plain_env (pe_id (w_heap plain_node 1)) = Ok pid" using plain_peer_id by blast
  obtain s where s: "kv_Get (v_registry plain_env) (sre_pk sre) (w_store w) = (Ok (Some (MarshalSignedRegistryEntry sre)), s)"
    using plain_bucket_get [OF assms(2), of "sre_pk sre"] assms(4) unfolding plain_env_registry by metis
  have "getFromDB plain_env (sre_pk sre) w = (Ok (Some sre), w\<lparr>w_store := s\<rparr>)"
    using entry.dec_enc [OF check_entry_Ok(1) [OF assms(1)]] by (simp add: getFromDB_def store_step_def s)
  moreover have "v_ed plain_env = plain_ed25519" by (simp add: plain_env_def)
  ultimately show ?thesis
    using pid by (simp add: Registry_Set_def key peer_id_string_def peer_Id_def assms(1,3))
qed

section \<open>Properties\<close>



text \<open>
  C12: what a \<open>Set\<close> that returns without an error from a peer has done, in every case: with an
  older or no entry stored, the bucket now holds the new entry; with the same revision nothing
  changed; with a higher revision nothing changed and the peer was sent the stored entry.
\<close>
theorem registry_Set_cases:
  assumes "v_registry env = Bbolt_methods b" "bbolt_inv b (w_store w)"
    and "Registry_Set env sre trusted (Some p) w = (Ok (), w')"
  shows "\<exists>e. entry_in (bbolt_contents b (w_store w)) (sre_pk sre) = Ok e \<and>
    (case e of
       None \<Rightarrow> bbolt_contents b (w_store w') =
         (bbolt_contents b (w_store w))(sre_pk sre \<mapsto> MarshalSignedRegistryEntry sre)
     | Some old \<Rightarrow>
         (if sre_revision old < sre_revision sre
          then bbolt_contents b (w_store w') =
            (bbolt_contents b (w_store w))(sre_pk sre \<mapsto> MarshalSignedRegistryEntry sre)
          else bbolt_contents b (w_store w') = bbolt_contents b (w_store w)) \<and>
         (sre_revision sre < sre_revision old \<longrightarrow>
            w_wire w' = w_wire w @ [\<lparr>we_peer = p, we_message = MarshalSignedRegistryEntry old, we_sent = True\<rparr>]))"
  by (rule bbolt.Registry_Set_Ok [OF assms])
    (auto split: option.splits if_splits simp: not_le not_less)

theorem registry_Set_cases_witness:
  "\<exists>w'. Registry_Set plain_env plain_sre False (Some 1) plain_node = (Ok (), w') \<and>
     bbolt_contents (plain_bucket ''registry'') (w_store w') =
       (bbolt_contents (plain_bucket ''registry'') plain_world)
         (sre_pk plain_sre \<mapsto> MarshalSignedRegistryEntry plain_sre)"
proof -
  obtain w' where w': "Registry_Set plain_env plain_sre False (Some 1) plain_node = (Ok (), w')"
    by (rule plain_Set [OF plain_sre_check, of plain_node]) (simp_all add: plain_node_store plain_bucket_inv plain_bucket_empty)
  have "entry_in (bbolt_contents (plain_bucket ''registry'') (w_store plain_node)) (sre_pk plain_sre) = Ok None"
    by (simp add: entry_in_def plain_node_store plain_bucket_empty)
  with registry_Set_cases [OF plain_env_registry _ w'] w' show ?thesis
    by (auto simp: plain_node_store plain_bucket_inv)
qed

text \<open>
  C13: \<open>Get\<close> only answers with valid entries of the key asked for: if the other goroutines only
  run the registry service while it sleeps, an entry it returns is the one stored at that
  moment, has the key, and verifies.
\<close>
theorem registry_Get_authentic:
  assumes "v_registry env = Bbolt_methods b" "bbolt_inv b (w_store w)"
    and "registry_ok (v_ed env) (bbolt_contents b (w_store w))"
    and "\<forall>v. registry_run env v (v_others env v)"
    and "Registry_Get env pk w = (Ok (Some sre), w')"
  shows "entry_in (bbolt_contents b (w_store w')) pk = Ok (Some sre) \<and> sre_pk sre = pk \<and>
    VerifyRegistryEntry (v_ed env) sre = Ok True"
proof -
  have "bbolt_inv b (w_store w') \<and> registry_ok (v_ed env) (bbolt_contents b (w_store w')) \<and>
      (\<forall>e. Ok (Some sre) = Ok e \<longrightarrow> entry_in (bbolt_contents b (w_store w')) pk = Ok e)"
    by (rule bbolt.Registry_Get_result [where J = "registry_ok (v_ed env)", OF assms(1) _ assms(2,3,5)])
      (use bbolt.registry_run_safe [OF _ assms(1)] assms(4) in blast)
  then show ?thesis by (auto dest: registry_ok_entry check_entry_Ok)
qed

theorem registry_Get_authentic_witness:
  "\<exists>w0 w'. Registry_Set plain_env plain_sre False (Some 1) plain_node = (Ok (), w0) \<and>
     Registry_Get plain_env (sre_pk plain_sre) w0 = (Ok (Some plain_sre), w') \<and>
     VerifyRegistryEntry plain_ed25519 plain_sre = Ok True"
proof -
  let ?b = "plain_bucket ''registry''" and ?pk = "sre_pk plain_sre"
  have ed: "v_ed plain_env = plain_ed25519" "v_others plain_env = (\<lambda>w. w)" by (simp_all add: plain_env_def)
  have ok: "registry_ok plain_ed25519 (bbolt_contents ?b (w_store plain_node))"
    by (simp add: registry_ok_def plain_node_store plain_bucket_empty)
  obtain w0 where w0: "Registry_Set plain_env plain_sre False (Some 1) plain_node = (Ok (), w0)"
    "bbolt_inv ?b (w_store w0)" "w_peers w0 = w_peers plain_node" "w_subs w0 = w_subs plain_node"
    "bbolt_contents ?b (w_store w0) ?pk = Some (MarshalSignedRegistryEntry plain_sre)"
    by (rule plain_Set [OF plain_sre_check, of plain_node]) (simp_all add: plain_node_store plain_bucket_inv plain_bucket_empty)
  have "registry_ok plain_ed25519 (bbolt_contents ?b (w_store w0))"
    using bbolt.registry_step_safe [OF step_set [OF w0(1)] plain_env_registry] ok
    by (simp add: ed plain_node_store plain_bucket_inv)
  moreover obtain w' where w': "Registry_Get plain_env ?pk w0 = (Ok (Some plain_sre), w')"
    using plain_Get [OF plain_sre_check w0(2,3,4,5)] .
  ultimately have "VerifyRegistryEntry plain_ed25519 plain_sre = Ok True"
    using registry_Get_authentic [OF plain_env_registry w0(2) _ _ w'] by (simp add: ed)
  with w0(1) w' show ?thesis by blast
qed

text \<open>
  C9: registries converge. Two nodes that start with empty registries and receive the same entries,
  in any order, any number of times and from any peers, each handled without an error, hold the
  same entry under every key, and it has the highest revision of all that were received for the
  key, provided no two different entries share key and revision.
\<close>
theorem registries_converge:
  assumes "v_registry A = Bbolt_methods a" "bbolt_inv a (w_store wA)" "bbolt_contents a (w_store wA) = Map.empty"
    and "v_registry B = Bbolt_methods b" "bbolt_inv b (w_store wB)" "bbolt_contents b (w_store wB) = Map.empty"
    and "receive_all A esA wA wA'" "receive_all B esB wB wB'" "set (map snd esA) = set (map snd esB)"
    and "\<forall>e \<in> set (map snd esA). \<forall>e' \<in> set (map snd esA). sre_pk e = sre_pk e' \<and> sre_revision e = sre_revision e' \<longrightarrow> e = e'"
  shows "entry_in (bbolt_contents a (w_store wA')) pk = entry_in (bbolt_contents b (w_store wB')) pk \<and>
    (\<forall>e \<in> set (map snd esA). sre_pk e = pk \<longrightarrow> (\<exists>m. entry_in (bbolt_contents a (w_store wA')) pk = Ok (Some m) \<and>
      m \<in> set (map snd esA) \<and> sre_pk m = pk \<and> sre_revision e \<le> sre_revision m))"
  using bbolt.registry_latest [OF assms(1-3,7), of pk] bbolt.registry_latest [OF assms(4-6,8), of pk]
    latest_cong [OF assms(9,10), of pk] latest_None [of pk "map snd esA"] latest_max [of pk "map snd esA"]
  by (cases "latest pk None (map snd esA)") auto

theorem registries_converge_witness:
  "\<exists>w1 w2. receive_all plain_env [(1, plain_sre)] plain_node w1 \<and>
    receive_all plain_env [(1, plain_sre), (1, plain_sre)] plain_node w2 \<and>
    entry_in (bbolt_contents (plain_bucket ''registry'') (w_store w1)) (sre_pk plain_sre) =
      entry_in (bbolt_contents (plain_bucket ''registry'') (w_store w2)) (sre_pk plain_sre)"
proof -
  let ?b = "plain_bucket ''registry''"
  obtain w1 where w1: "Registry_Set plain_env plain_sre False (Some 1) plain_node = (Ok (), w1)" "bbolt_inv ?b (w_store w1)"
    "w_heap w1 = w_heap plain_node" "bbolt_contents ?b (w_store w1) (sre_pk plain_sre) = Some (MarshalSignedRegistryEntry plain_sre)"
    by (rule plain_Set [OF plain_sre_check, of plain_node]) (simp_all add: plain_node_store plain_bucket_inv plain_bucket_empty)
  obtain w2 where "Registry_Set plain_env plain_sre False (Some 1) w1 = (Ok (), w2)"
    using plain_Set_again [OF plain_sre_check w1(2,3,4)] by blast
  with w1 have runs: "receive_all plain_env [(1, plain_sre)] plain_node w1" "receive_all plain_env [(1, plain_sre), (1, plain_sre)] plain_node w2"
    by auto
  have empty: "bbolt_contents ?b (w_store plain_node) = Map.empty" by (simp add: fun_eq_iff plain_node_store plain_bucket_empty)
  have inv: "bbolt_inv ?b (w_store plain_node)" by (simp add: plain_node_store plain_bucket_inv)
  from registries_converge [OF plain_env_registry inv empty plain_env_registry inv empty runs, of "sre_pk plain_sre"] runs
  show ?thesis by auto
qed

text \<open>
  A broadcast goes back where the entry came from. Every message \<open>BroadcastEntry\<close> writes is
  the entry, and is written to a peer of the table with the identity of the peer the entry was
  received from; without such a peer in the table nobody gets it, and without a sender the call
  panics.
\<close>
lemma broadcast_only_to_sender:
  assumes "BroadcastEntry env sre receivedFrom w = (r, w')"
  shows "\<exists>evs. w' = w\<lparr>w_wire := w_wire w @ evs\<rparr> \<and>
    (\<forall>e \<in> set evs. we_message e = MarshalSignedRegistryEntry sre \<and>
       we_peer e \<in> set (Map_Values (w_peers w)) \<and>
       (\<exists>q. receivedFrom = Some q \<and> id_Equals (peer_Id w (we_peer e)) (peer_Id w q) = Ok True)) \<and>
    (receivedFrom = None \<and> sre_pk sre \<noteq> [] \<longrightarrow> r = Panic)"
proof -
  have "r = Panic" if none: "receivedFrom = None" "sre_pk sre \<noteq> []"
  proof -
    obtain s where "Multihash_ToString (NewMultihash (sre_pk sre)) = Ok s"
      using Multihash_ToString_total [of "NewMultihash (sre_pk sre)"] none(2) by (auto simp: NewMultihash_def)
    then show ?thesis using assms none by (simp add: BroadcastEntry_def peer_id_string_def)
  qed
  with BroadcastEntry_wire [OF assms] show ?thesis by (auto simp: only_wire_def)
qed

text \<open>
  A failed write is swallowed. \<open>SendRegistryRequest\<close> writes the request to the peers in
  turn up to the first write that fails, leaves the rest out, and returns no error.
\<close>
lemma request_failure_swallowed:
  assumes "multibase_laws (v_mb env)" "SendRegistryRequest env pk w = (r, w')"
  shows "(\<forall>err. r \<noteq> Err err) \<and>
    (\<exists>good bad. w' = w\<lparr>w_wire := w_wire w @ good @ bad\<rparr> \<and> (\<forall>e \<in> set good. we_sent e) \<and>
       (\<forall>e \<in> set bad. \<not> we_sent e) \<and> length bad \<le> 1 \<and>
       map we_peer (good @ bad) = take (length (good @ bad)) (Map_Values (w_peers w)) \<and>
       (length (good @ bad) < length (Map_Values (w_peers w)) \<longrightarrow> bad \<noteq> []))"
  by (rule send_to_all_stops [OF assms(1) assms(2) [unfolded SendRegistryRequest_def]])
    (simp only: only_wire_def, blast)

end
