(* ===== verification/Storage_Service.thy ===== *)
theory Storage_Service
  imports Node_World
begin

text \<open>
  \<open>service/default/storage.go\<close>: recording announced locations in the \<open>cache\<close> bucket and
  looking them up, with the provider store of the node. Lemmas: what is recorded is found
  until it expires, and records of other nodes are kept. Downloads, which are HTTP, and
  metadata are not part of this theory.
\<close>

section \<open>The operations\<close>

definition readStorageLocationsFromDB :: "'s env \<Rightarrow> Multihash \<Rightarrow> 's world \<Rightarrow> StorageLocationMap outcome \<times> 's world" where
  "readStorageLocationsFromDB env hash w =
     sbind (store_step (kv_Get (v_cache env) (fullBytes hash)) w) (\<lambda>val w.
       case val of
         None \<Rightarrow> (Ok NewStorageLocationMap, w)
       | Some v \<Rightarrow> (StorageLocationMap_DecodeMsgpack (v_locmap_dec env) NewStorageLocationMap v, w))"

text \<open>
  The provider's error is dropped: with it comes a nil location, whose first method call
  panics.
\<close>

definition getLocalStorageLocation :: "'s env \<Rightarrow> Multihash \<Rightarrow> int list \<Rightarrow> StorageLocationImpl option outcome" where
  "getLocalStorageLocation env hash kinds =
     (case v_providerStore env of
        None \<Rightarrow> Ok None
      | Some store \<Rightarrow>
          if ps_CanProvide store hash kinds then
            (case ps_Provide store hash kinds of
               Ok location \<Rightarrow>
                 obind (PrepareProvideMessage (v_ed env) (v_KeyPair env) hash location) (\<lambda>message.
                   Ok (Some (SetProviderMessage location message)))
             | _ \<Rightarrow> Panic)
          else Ok None)"

text \<open>
  The body of the inner loop: a record, by its fields, to a location. A field that is missing
  or has another type than the one asserted skips the record; an address that is not a string
  stays empty.
\<close>

definition cached_location :: "int \<Rightarrow> int \<Rightarrow> (int \<Rightarrow> goval option) \<Rightarrow> StorageLocationImpl option" where
  "cached_location ts t val =
     (case val 3 of
        Some (VInt K_int64 expiry) \<Rightarrow>
          if expiry < ts then None
          else (case val 1 of
             Some (VSlice addressesInterface) \<Rightarrow>
               let addresses = map (\<lambda>v. case v of VStr str \<Rightarrow> str | _ \<Rightarrow> []) addressesInterface;
                   storageLocation = NewStorageLocation t addresses expiry
               in Some (case val 4 of
                    Some (VBytes providerMessage) \<Rightarrow> SetProviderMessage storageLocation providerMessage
                  | _ \<Rightarrow> storageLocation)
           | _ \<Rightarrow> None)
      | _ \<Rightarrow> None)"

definition cached_nodes :: "int \<Rightarrow> int \<Rightarrow> NodeStorage \<Rightarrow>
    (string, StorageLocationImpl) gomap \<Rightarrow> (string, StorageLocationImpl) gomap" where
  "cached_nodes ts t nodeMap locations =
     fold (\<lambda>(key, val) locs.
       case cached_location ts t (Map_Get val) of None \<Rightarrow> locs | Some l \<Rightarrow> Map_Put locs key l) nodeMap locations"

definition GetCachedStorageLocations ::
  "'s env \<Rightarrow> Multihash \<Rightarrow> int list \<Rightarrow> bool \<Rightarrow> 's world \<Rightarrow>
   (string, StorageLocationImpl) gomap outcome \<times> 's world" where
  "GetCachedStorageLocations env hash kinds local w =
     sbind (readStorageLocationsFromDB env hash w) (\<lambda>locationMap w.
     sbind (if local then
              pure_step (obind (getLocalStorageLocation env hash kinds) (\<lambda>loc.
                case loc of
                  None \<Rightarrow> Ok NewMap
                | Some l \<Rightarrow> obind (id_ToString env (w_localNodeID w)) (\<lambda>nodeIDStr.
                    Ok (Map_Put NewMap nodeIDStr l)))) w
            else (Ok NewMap, w)) (\<lambda>locations w.
       if length locationMap = 0 then (Ok locations, w)
       else (Ok (fold (\<lambda>t locs.
               case Map_Get locationMap t of
                 None \<Rightarrow> locs | Some nodeMap \<Rightarrow> cached_nodes (v_now env) t nodeMap locs) kinds locations), w)))"

text \<open>The update of the map: the inner map is made if it is missing, and the record replaced.\<close>

definition add_location :: "StorageLocationMap \<Rightarrow> string \<Rightarrow> StorageLocationImpl \<Rightarrow> bytes \<Rightarrow> StorageLocationMap" where
  "add_location locationDb nodeIdStr location message =
     (let innerMap = (case Map_Get locationDb (sl_kind location) of
            Some inner \<Rightarrow> inner | None \<Rightarrow> Map_Put NewMap nodeIdStr NewMap);
          locationMap = Map_Put (Map_Put (Map_Put NewMap 1 (VStrings (sl_parts location)))
            3 (VInt K_int64 (sl_expiry location))) 4 (VBytes message)
      in Map_Put locationDb (sl_kind location) (Map_Put innerMap nodeIdStr locationMap))"

definition AddStorageLocation ::
  "'s env \<Rightarrow> Multihash \<Rightarrow> NodeId \<Rightarrow> StorageLocationImpl \<Rightarrow> bytes \<Rightarrow> 's world \<Rightarrow> unit outcome \<times> 's world" where
  "AddStorageLocation env hash nodeId location message w =
     sbind (readStorageLocationsFromDB env hash w) (\<lambda>locationDb w.
     sbind (pure_step (NodeId_ToString (v_mb env) nodeId) w) (\<lambda>nodeIdStr w.
       let packedBytes = StorageLocationMap_EncodeMsgpack (v_locmap_enc env)
             (add_location locationDb nodeIdStr location message)
       in store_step (kv_Put (v_cache env) (fullBytes hash) packedBytes) w))"

section \<open>Lookups\<close>

definition details :: "StorageLocationMap \<Rightarrow> int \<Rightarrow> string \<Rightarrow> (int \<Rightarrow> goval option) option" where
  "details m t n = Option.bind (loc_view m t) (\<lambda>ns. ns n)"

lemma Map_Get_cached_nodes:
  "map_inv nodeMap \<Longrightarrow>
   Map_Get (cached_nodes ts t nodeMap locs) n =
     (case Option.bind (node_view nodeMap n) (cached_location ts t) of
        None \<Rightarrow> Map_Get locs n | Some l \<Rightarrow> Some l)"
proof (induction nodeMap arbitrary: locs)
  case Nil
  then show ?case by (simp add: cached_nodes_def node_view_def Map_Get_def)
next
  case (Cons x nodeMap)
  obtain k d where x: "x = (k, d)" by fastforce
  have inv: "map_inv nodeMap" "k \<notin> fst ` set nodeMap" using Cons.prems by (auto simp: map_inv_def x)
  then have k: "node_view nodeMap k = None"
    by (simp add: node_view_def Map_Get_def map_of_eq_None_iff)
  have view: "node_view (x # nodeMap) n = (if n = k then Some (Map_Get d) else node_view nodeMap n)"
    by (simp add: node_view_def Map_Get_def x)
  have step: "cached_nodes ts t (x # nodeMap) locs = cached_nodes ts t nodeMap
      (case cached_location ts t (Map_Get d) of None \<Rightarrow> locs | Some l \<Rightarrow> Map_Put locs k l)"
    by (simp add: cached_nodes_def x)
  show ?case
    unfolding step Cons.IH [OF inv(1)] view using k by (auto split: option.splits)
qed

lemma details_add:
  "details (add_location m s loc msg) t n =
     (if t = sl_kind loc \<and> n = s
      then Some (\<lambda>f. if f = 4 then Some (VBytes msg) else if f = 3 then Some (VInt K_int64 (sl_expiry loc))
                   else if f = 1 then Some (VStrings (sl_parts loc)) else None)
      else details m t n)"
  by (auto simp: details_def add_location_def loc_view_def node_view_def fun_eq_iff Let_def split: option.splits)

lemma details_forget:
  "loc_view m' = forget_view (loc_view m) \<Longrightarrow>
     details m' t n = map_option (\<lambda>d f. map_option forget (d f)) (details m t n)"
  by (cases "loc_view m t") (simp_all add: details_def forget_view_def)

text \<open>What a lookup of one kind finds for a node, from the records alone.\<close>

definition cached :: "int \<Rightarrow> int \<Rightarrow> StorageLocationMap \<Rightarrow> string \<Rightarrow> StorageLocationImpl option" where
  "cached ts t m n = Option.bind (details m t n) (cached_location ts t)"

lemma cached_add:
  assumes "loc_view m' = forget_view (loc_view (add_location m s loc msg))"
    and "forget_view (loc_view m) = loc_view m"
  shows "cached ts (sl_kind loc) m' n =
    (if n = s then if sl_expiry loc < ts then None
        else Some (SetProviderMessage (NewStorageLocation (sl_kind loc) (sl_parts loc) (sl_expiry loc)) msg)
     else cached ts (sl_kind loc) m n)"
proof -
  have same: "map_option (\<lambda>d f. map_option forget (d f)) (details m t n) = details m t n" for t
    using details_forget [of m m t n] assms(2) by simp
  have "map ((\<lambda>v. case v of VStr str \<Rightarrow> str | _ \<Rightarrow> []) \<circ> VStr) ps = ps" for ps
    by (induction ps) simp_all
  then show ?thesis
    by (simp add: cached_def details_forget [OF assms(1)] details_add same)
      (simp add: cached_location_def comp_def)
qed

text \<open>The same for a list of kinds: the last kind that has a location wins.\<close>

lemma map_inv_cached_nodes: "map_inv locs \<Longrightarrow> map_inv (cached_nodes ts t nodeMap locs)"
  unfolding cached_nodes_def by (induction nodeMap arbitrary: locs) (auto split: option.split)

definition cached_kinds ::
  "int \<Rightarrow> StorageLocationMap \<Rightarrow> int list \<Rightarrow> (string, StorageLocationImpl) gomap \<Rightarrow> (string, StorageLocationImpl) gomap" where
  "cached_kinds ts m kinds locs = fold (\<lambda>t locs. case Map_Get m t of
     None \<Rightarrow> locs | Some nodeMap \<Rightarrow> cached_nodes ts t nodeMap locs) kinds locs"

lemma cached_kinds_view:
  assumes "loc_wf m" "map_inv locs"
  shows "map_inv (cached_kinds ts m kinds locs) \<and> Map_Get (cached_kinds ts m kinds locs) n =
    fold (\<lambda>t r. case cached ts t m n of None \<Rightarrow> r | Some l \<Rightarrow> Some l) kinds (Map_Get locs n)"
  using assms(2)
proof (induction kinds arbitrary: locs)
  case (Cons t kinds)
  let ?locs = "case Map_Get m t of None \<Rightarrow> locs | Some nodeMap \<Rightarrow> cached_nodes ts t nodeMap locs"
  have "map_inv ?locs" using Cons.prems by (auto intro: map_inv_cached_nodes split: option.split)
  moreover have "Map_Get ?locs n = (case cached ts t m n of None \<Rightarrow> Map_Get locs n | Some l \<Rightarrow> Some l)"
  proof (cases "Map_Get m t")
    case (Some nodeMap)
    then have "map_inv nodeMap" using assms(1) by (auto simp: loc_wf_def list_all_iff Map_Get_def dest: map_of_SomeD)
    then show ?thesis using Some Map_Get_cached_nodes [of nodeMap]
      by (simp add: cached_def details_def loc_view_def)
  qed (simp add: cached_def details_def loc_view_def)
  ultimately show ?case using Cons.IH [of ?locs] by (simp add: cached_kinds_def)
qed (simp add: cached_kinds_def)

context kv_store
begin

lemma read_locations_result:
  assumes "v_cache env = kv" "inv (w_store w)" "locmap_laws (v_locmap_enc env) (v_locmap_dec env)"
    and "readStorageLocationsFromDB env hash w = (Ok m, w')"
  shows "w' = w\<lparr>w_store := w_store w'\<rparr> \<and> inv (w_store w') \<and> contents (w_store w') = contents (w_store w) \<and>
    loc_wf m \<and> forget_view (loc_view m) = loc_view m \<and>
    (case contents (w_store w) (fullBytes hash) of
       None \<Rightarrow> m = NewStorageLocationMap
     | Some v \<Rightarrow> StorageLocationMap_DecodeMsgpack (v_locmap_dec env) NewStorageLocationMap v = Ok m)"
proof (rule get_cases [OF assms(2), of "fullBytes hash"])
  fix s assume s: "kv_Get kv (fullBytes hash) (w_store w) = (Ok (contents (w_store w) (fullBytes hash)), s)"
    "inv s" "contents s = contents (w_store w)"
  have empty: "loc_wf NewStorageLocationMap" "forget_view (loc_view NewStorageLocationMap) = loc_view NewStorageLocationMap"
    by (simp_all add: NewStorageLocationMap_def NewMap_def loc_wf_def map_inv_def forget_view_def
        loc_view_def [abs_def] Map_Get_def)
  have dec: "loc_wf m \<and> forget_view (loc_view m) = loc_view m"
    if v: "StorageLocationMap_DecodeMsgpack (v_locmap_dec env) NewStorageLocationMap v = Ok m" for v
  proof -
    from v obtain m0 where m0: "v_locmap_dec env v = Ok m0"
      by (auto simp: StorageLocationMap_DecodeMsgpack_def obind_eq_Ok)
    from locmap_decode [OF assms(3) this] v show ?thesis by simp
  qed
  show ?thesis
    using assms(1,4) s empty dec
    by (auto simp: readStorageLocationsFromDB_def store_step_def split: option.splits)
qed (use assms(1,4) in \<open>auto simp: readStorageLocationsFromDB_def store_step_def\<close>)

lemma GetCached_result:
  assumes "v_cache env = kv" "inv (w_store w)" "locmap_laws (v_locmap_enc env) (v_locmap_dec env)"
    and "GetCachedStorageLocations env hash [t] False w = (Ok locs, w')"
  obtains m where "readStorageLocationsFromDB env hash w = (Ok m, w')"
    "\<forall>n. Map_Get locs n = cached (v_now env) t m n"
proof -
  from assms(4) obtain m where rd: "readStorageLocationsFromDB env hash w = (Ok m, w')"
    and locs: "locs = (if length m = 0 then NewMap else case Map_Get m t of
        None \<Rightarrow> NewMap | Some nodeMap \<Rightarrow> cached_nodes (v_now env) t nodeMap NewMap)"
    by (auto simp: GetCachedStorageLocations_def sbind_eq_Ok split: if_splits)
  have wf: "loc_wf m" using read_locations_result [OF assms(1-3) rd] by simp
  have "Map_Get locs n = cached (v_now env) t m n" for n
  proof (cases "Map_Get m t")
    case (Some nodeMap)
    then have "map_inv nodeMap" "m \<noteq> []"
      using wf by (auto simp: loc_wf_def list_all_iff Map_Get_def dest: map_of_SomeD)
    then show ?thesis using Some locs Map_Get_cached_nodes [of nodeMap]
      by (simp add: cached_def details_def loc_view_def split: option.splits)
  qed (simp add: locs cached_def details_def loc_view_def)
  with rd that show thesis by blast
qed

text \<open>Whatever the store held when the map was put back, what is found is the map with the new location.\<close>

lemma put_location_GetCached:
  assumes env: "v_cache env = kv" and inv: "inv (w_store w)" and inv0: "inv s0"
    and laws: "locmap_laws (v_locmap_enc env) (v_locmap_dec env)"
    and rd: "readStorageLocationsFromDB env hash w = (Ok m, wr)"
    and small: "loc_ok (add_location m s loc msg)"
    and put: "kv_Put kv (fullBytes hash) (StorageLocationMap_EncodeMsgpack (v_locmap_enc env) (add_location m s loc msg)) s0 =
      (Ok (), w_store w1)"
    and after: "GetCachedStorageLocations env hash [sl_kind loc] False w1 = (Ok locs, w2)"
  shows "Map_Get locs n =
    (if n = s then if sl_expiry loc < v_now env then None
        else Some (SetProviderMessage (NewStorageLocation (sl_kind loc) (sl_parts loc) (sl_expiry loc)) msg)
     else cached (v_now env) (sl_kind loc) m n)"
proof -
  let ?packed = "StorageLocationMap_EncodeMsgpack (v_locmap_enc env) (add_location m s loc msg)"
  note rm = read_locations_result [OF env inv laws rd]
  have inv1: "inv (w_store w1)" "contents (w_store w1) (fullBytes hash) = Some ?packed"
    using put_frame [OF inv0 put] put_ok [OF inv0 put] by simp_all
  obtain m1 where m1: "readStorageLocationsFromDB env hash w1 = (Ok m1, w2)"
    and locs: "\<forall>n. Map_Get locs n = cached (v_now env) (sl_kind loc) m1 n"
    by (rule GetCached_result [OF env inv1(1) laws after])
  obtain m' where m': "StorageLocationMap_DecodeMsgpack (v_locmap_dec env) NewStorageLocationMap ?packed = Ok m'"
    "loc_view m' = forget_view (loc_view (add_location m s loc msg))"
    using locmap_roundtrip [OF laws small] by auto
  moreover have "m1 = m'"
    using read_locations_result [OF env inv1(1) laws m1] inv1(2) m'(1) by simp
  ultimately show ?thesis
    unfolding locs [rule_format] by (intro cached_add) (use rm in auto)
qed

lemma Add_GetCached:
  assumes env: "v_cache env = kv" and inv: "inv (w_store w)"
    and laws: "locmap_laws (v_locmap_enc env) (v_locmap_dec env)"
    and before: "GetCachedStorageLocations env hash [sl_kind loc] False w = (Ok locs0, w0)"
    and rd: "readStorageLocationsFromDB env hash w0 = (Ok m0, w0')"
    and small: "loc_ok (add_location m0 s loc msg)"
    and s: "NodeId_ToString (v_mb env) node = Ok s"
    and add: "AddStorageLocation env hash node loc msg w0 = (Ok (), w1)"
    and after: "GetCachedStorageLocations env hash [sl_kind loc] False w1 = (Ok locs, w2)"
  shows "Map_Get locs n =
    (if n = s then if sl_expiry loc < v_now env then None
        else Some (SetProviderMessage (NewStorageLocation (sl_kind loc) (sl_parts loc) (sl_expiry loc)) msg)
     else Map_Get locs0 n)"
proof -
  obtain m where m: "readStorageLocationsFromDB env hash w = (Ok m, w0)"
    and locs0: "\<forall>n. Map_Get locs0 n = cached (v_now env) (sl_kind loc) m n"
    by (rule GetCached_result [OF env inv laws before])
  note rm = read_locations_result [OF env inv laws m]
  have inv0: "inv (w_store w0)" and c0: "contents (w_store w0) = contents (w_store w)" using rm by auto
  note rm0 = read_locations_result [OF env inv0 laws rd]
  have same: "m0 = m" using rm rm0 by (cases "contents (w_store w) (fullBytes hash)") auto
  have put: "kv_Put kv (fullBytes hash) (StorageLocationMap_EncodeMsgpack (v_locmap_enc env) (add_location m s loc msg)) (w_store w0') =
      (Ok (), w_store w1)"
    using add rd s by (auto simp: AddStorageLocation_def store_step_eq env same)
  show ?thesis
    using put_location_GetCached [OF env inv _ laws m small [unfolded same] put after, of n] rm0 locs0 by simp
qed

text \<open>The first location that is recorded for a hash is the only one found, on the node it was sent to.\<close>

lemma Add_first_location:
  assumes env: "v_cache env = kv" and inv: "inv (w_store w)"
    and laws: "locmap_laws (v_locmap_enc env) (v_locmap_dec env)"
    and none: "contents (w_store w) (fullBytes hash) = None"
    and small: "loc_ok (add_location NewStorageLocationMap s loc msg)"
    and s: "NodeId_ToString (v_mb env) node = Ok s"
    and add: "AddStorageLocation env hash node loc msg w = (Ok (), w1)"
    and same: "w_store w2 = w_store w1" and prov: "v_providerStore env = None"
    and get: "GetCachedStorageLocations env hash kinds l w2 = (Ok locs, w3)"
    and kind: "sl_kind loc \<in> set kinds" and fresh: "v_now env \<le> sl_expiry loc"
  shows "locs = [(s, SetProviderMessage (NewStorageLocation (sl_kind loc) (sl_parts loc) (sl_expiry loc)) msg)]"
proof -
  let ?packed = "StorageLocationMap_EncodeMsgpack (v_locmap_enc env) (add_location NewStorageLocationMap s loc msg)"
  let ?l = "SetProviderMessage (NewStorageLocation (sl_kind loc) (sl_parts loc) (sl_expiry loc)) msg"
  obtain m0 w0 where rd0: "readStorageLocationsFromDB env hash w = (Ok m0, w0)"
    using add by (auto simp: AddStorageLocation_def sbind_eq_Ok)
  note r0 = read_locations_result [OF env inv laws rd0]
  have m0: "m0 = NewStorageLocationMap" using r0 none by simp
  from add rd0 s obtain s1 where put: "kv_Put kv (fullBytes hash) ?packed (w_store w0) = (Ok (), s1)"
    and w1: "w_store w1 = s1"
    by (auto simp: AddStorageLocation_def store_step_eq env m0)
  have inv2: "inv (w_store w2)" "contents (w_store w2) (fullBytes hash) = Some ?packed"
    using put_frame [OF _ put] put_ok [OF _ put] r0 w1 same by simp_all
  obtain m' where m': "StorageLocationMap_DecodeMsgpack (v_locmap_dec env) NewStorageLocationMap ?packed = Ok m'"
    "loc_view m' = forget_view (loc_view (add_location NewStorageLocationMap s loc msg))"
    using locmap_roundtrip [OF laws small] by auto
  obtain m w4 where m: "readStorageLocationsFromDB env hash w2 = (Ok m, w4)"
    and locs: "length m \<noteq> 0 \<longrightarrow> locs = cached_kinds (v_now env) m kinds NewMap"
    using get prov by (auto simp: GetCachedStorageLocations_def getLocalStorageLocation_def sbind_eq_Ok cached_kinds_def pure_step_def
      split: if_splits)
  note r = read_locations_result [OF env inv2(1) laws m]
  have same_m: "m = m'" using r inv2(2) m'(1) by simp
  have view: "cached (v_now env) t m n = (if t = sl_kind loc \<and> n = s then Some ?l else None)" for t n
  proof -
    have empty: "details NewStorageLocationMap t n = None" for t n
      by (simp add: details_def loc_view_def NewStorageLocationMap_def NewMap_def Map_Get_def)
    show ?thesis
    proof (cases "t = sl_kind loc")
      case True
      have "forget_view (loc_view NewStorageLocationMap) = loc_view NewStorageLocationMap" using r0 m0 by simp
      from cached_add [OF _ this, of m s loc msg "v_now env" n] m'(2) same_m fresh True empty
      show ?thesis by (simp add: cached_def)
    qed (simp add: cached_def same_m details_forget [OF m'(2)] details_add empty)
  qed
  have "length m \<noteq> 0"
  proof
    assume "length m = 0"
    then have "cached (v_now env) (sl_kind loc) m s = None" by (simp add: cached_def details_def loc_view_def Map_Get_def)
    then show False using view by simp
  qed
  with locs have locs: "locs = cached_kinds (v_now env) m kinds NewMap" by simp
  have "map_inv locs \<and> Map_Get locs n = (if n = s then Some ?l else None)" for n
  proof -
    have "fold (\<lambda>t r. case cached (v_now env) t m n of None \<Rightarrow> r | Some l \<Rightarrow> Some l) kinds r =
        (if n = s \<and> sl_kind loc \<in> set kinds then Some ?l else r)" for r
      by (induction kinds arbitrary: r) (auto simp: view)
    then show ?thesis using cached_kinds_view [of m NewMap "v_now env" kinds n] r kind
      by (simp add: locs)
  qed
  then show ?thesis by (intro map_inv_single) (auto simp: fun_eq_iff)
qed

end


section \<open>Properties\<close>

text \<open>
  C14: an announced location is found until it expires. After \<open>AddStorageLocation\<close> succeeds, a
  lookup of that kind answers for the announcing node with the announced parts, expiry and
  message, unless the expiry has passed, and for every other node as before.
\<close>
theorem announced_location_found:
  assumes "v_cache env = Bbolt_methods b" "bbolt_inv b (w_store w)"
    and "locmap_laws (v_locmap_enc env) (v_locmap_dec env)"
    and "GetCachedStorageLocations env hash [sl_kind loc] False w = (Ok locs0, w0)"
    and "readStorageLocationsFromDB env hash w0 = (Ok m0, w0')"
    and "loc_ok (add_location m0 s loc msg)" "NodeId_ToString (v_mb env) node = Ok s"
    and "AddStorageLocation env hash node loc msg w0 = (Ok (), w1)"
    and "GetCachedStorageLocations env hash [sl_kind loc] False w1 = (Ok locs, w2)"
  shows "Map_Get locs n =
    (if n = s then if sl_expiry loc < v_now env then None
        else Some (SetProviderMessage (NewStorageLocation (sl_kind loc) (sl_parts loc) (sl_expiry loc)) msg)
     else Map_Get locs0 n)"
  using assms by (rule bbolt.Add_GetCached)

theorem announced_location_found_witness:
  "\<exists>s w0 w1 w2 locs.
     NodeId_ToString plain_multibase (NewNodeId [1]) = Ok s \<and>
     AddStorageLocation plain_env (NewMultihash [9]) (NewNodeId [1]) (NewStorageLocation 3 [''a''] 2000) [5] w0
       = (Ok (), w1) \<and>
     GetCachedStorageLocations plain_env (NewMultihash [9]) [3] False w1 = (Ok locs, w2) \<and>
     Map_Get locs s = Some (SetProviderMessage (NewStorageLocation 3 [''a''] 2000) [5])"
proof -
  let ?b = "plain_bucket ''cache''" and ?h = "NewMultihash [9]" and ?n = "NewNodeId [1]"
  let ?loc = "NewStorageLocation 3 [''a''] 2000"
  have env: "v_cache plain_env = Bbolt_methods ?b" "v_locmap_enc plain_env = plain_locmap_enc"
    "v_locmap_dec plain_env = plain_locmap_dec" "v_mb plain_env = plain_multibase" "v_now plain_env = 1000"
    by (simp_all add: plain_env_def)
  have laws: "locmap_laws (v_locmap_enc plain_env) (v_locmap_dec plain_env)"
    by (simp add: env plain_locmap_laws)
  have inv: "bbolt_inv ?b (w_store plain_node)" by (simp add: plain_node_def plain_bucket_inv)
  have kind: "sl_kind ?loc = 3" by (simp add: NewStorageLocation_def)
  obtain s where s: "NodeId_ToString (v_mb plain_env) ?n = Ok s" "length s = 2"
    by (simp add: env NodeId_ToString_def ToBase58BTC_def ToBase_def plain_multibase_def NewNodeId_def
        string_of_bytes_def)
  have get: "\<exists>w'. readStorageLocationsFromDB plain_env ?h w = (Ok NewStorageLocationMap, w') \<and>
      bbolt_inv ?b (w_store w') \<and> bbolt_contents ?b (w_store w') = bbolt_contents ?b (w_store w)"
    if "bbolt_inv ?b (w_store w)" "bbolt_contents ?b (w_store w) (fullBytes ?h) = None" for w
    using plain_bucket_get [OF that(1), of "fullBytes ?h"] that(2)
    by (fastforce simp: readStorageLocationsFromDB_def store_step_def env)
  obtain w0 where w0: "readStorageLocationsFromDB plain_env ?h plain_node = (Ok NewStorageLocationMap, w0)"
    "bbolt_inv ?b (w_store w0)" "bbolt_contents ?b (w_store w0) (fullBytes ?h) = None"
    using get [OF inv] by (fastforce simp: plain_node_def plain_bucket_empty)
  obtain w0' where w0': "readStorageLocationsFromDB plain_env ?h w0 = (Ok NewStorageLocationMap, w0')"
    "bbolt_inv ?b (w_store w0')" using get [OF w0(2,3)] by blast
  have before: "GetCachedStorageLocations plain_env ?h [sl_kind ?loc] False plain_node = (Ok NewMap, w0)"
    by (simp add: GetCachedStorageLocations_def w0(1)) (simp add: NewStorageLocationMap_def NewMap_def)
  have small: "loc_ok (add_location NewStorageLocationMap s ?loc [5])"
    by (simp add: loc_ok_def loc_wf_def map_inv_def add_location_def NewStorageLocationMap_def NewMap_def
        Map_Put_def Map_Get_def node_ok_def details_ok_def NewStorageLocation_def int64_range_def s Let_def)
  let ?packed = "StorageLocationMap_EncodeMsgpack plain_locmap_enc (add_location NewStorageLocationMap s ?loc [5])"
  obtain s1 where s1: "kv_Put (Bbolt_methods ?b) (fullBytes ?h) ?packed (w_store w0') = (Ok (), s1)"
    "bbolt_inv ?b s1" "bbolt_contents ?b s1 (fullBytes ?h) = Some ?packed"
    using plain_bucket_put [OF w0'(2), of "fullBytes ?h" ?packed] by (metis fun_upd_same)
  define w1 where "w1 = w0'\<lparr>w_store := s1\<rparr>"
  have add: "AddStorageLocation plain_env ?h ?n ?loc [5] w0 = (Ok (), w1)"
    using s1(1) s by (simp add: AddStorageLocation_def w0'(1) store_step_def env w1_def Let_def)
  obtain m' where m': "StorageLocationMap_DecodeMsgpack plain_locmap_dec NewStorageLocationMap ?packed = Ok m'"
    using locmap_roundtrip [OF plain_locmap_laws small] by blast
  obtain s2 where s2: "kv_Get (Bbolt_methods ?b) (fullBytes ?h) (w_store w1) = (Ok (Some ?packed), s2)"
    using plain_bucket_get [OF s1(2), of "fullBytes ?h"] s1(3) by (fastforce simp: w1_def)
  obtain locs w2 where after: "GetCachedStorageLocations plain_env ?h [sl_kind ?loc] False w1 = (Ok locs, w2)"
    using s2 m' by (cases "m' = []")
      (simp_all add: GetCachedStorageLocations_def readStorageLocationsFromDB_def store_step_def env)
  from announced_location_found [OF env(1) inv laws before w0'(1) small s(1) add after, of s]
  show ?thesis using add after s(1) by (fastforce simp: env NewStorageLocation_def)
qed

section \<open>Announcements that overlap\<close>

text \<open>
  \<open>AddStorageLocation\<close> holds no lock between reading the map and putting it back. Its second half,
  from the map that was read:
\<close>

definition put_location ::
  "'s env \<Rightarrow> Multihash \<Rightarrow> NodeId \<Rightarrow> StorageLocationImpl \<Rightarrow> bytes \<Rightarrow> StorageLocationMap \<Rightarrow> 's world \<Rightarrow> unit outcome \<times> 's world"
where
  "put_location env hash nodeId location message locationDb w =
     sbind (pure_step (NodeId_ToString (v_mb env) nodeId) w) (\<lambda>nodeIdStr w.
       store_step (kv_Put (v_cache env) (fullBytes hash)
         (StorageLocationMap_EncodeMsgpack (v_locmap_enc env) (add_location locationDb nodeIdStr location message))) w)"

lemma AddStorageLocation_steps:
  "AddStorageLocation env hash nodeId location message w =
     sbind (readStorageLocationsFromDB env hash w) (put_location env hash nodeId location message)"
  by (auto simp: AddStorageLocation_def put_location_def Let_def sbind_def split: outcome.split prod.split)

lemma put_location_Ok:
  assumes "put_location env hash node loc msg m w = (Ok (), w')" "NodeId_ToString (v_mb env) node = Ok s"
  shows "kv_Put (v_cache env) (fullBytes hash)
    (StorageLocationMap_EncodeMsgpack (v_locmap_enc env) (add_location m s loc msg)) (w_store w) = (Ok (), w_store w')"
  using assms by (auto simp: put_location_def store_step_eq)

text \<open>
  If two announcements for the same hash are recorded at the same time, and both calls read the
  map before either puts it back, both return without an error, and the one that puts first is
  lost: a lookup answers as if only the other had been made.
\<close>

lemma overlapping_announcements_lose_one:
  assumes "v_cache env = Bbolt_methods b" "bbolt_inv b (w_store w)" "locmap_laws (v_locmap_enc env) (v_locmap_dec env)"
    and "readStorageLocationsFromDB env hash w = (Ok m, w1)" "readStorageLocationsFromDB env hash w1 = (Ok m', w2)"
    and "NodeId_ToString (v_mb env) first = Ok s1" "NodeId_ToString (v_mb env) second = Ok s2" "s1 \<noteq> s2"
    and "put_location env hash first loc1 msg1 m w2 = (Ok (), w3)" "put_location env hash second loc msg m' w3 = (Ok (), w4)"
    and "loc_ok (add_location m s2 loc msg)" "cached (v_now env) (sl_kind loc) m s1 = None"
    and "GetCachedStorageLocations env hash [sl_kind loc] False w4 = (Ok locs, w5)"
  shows "Map_Get locs s1 = None \<and> (v_now env \<le> sl_expiry loc \<longrightarrow>
    Map_Get locs s2 = Some (SetProviderMessage (NewStorageLocation (sl_kind loc) (sl_parts loc) (sl_expiry loc)) msg))"
proof -
  note r1 = bbolt.read_locations_result [OF assms(1-4)]
  note r2 = bbolt.read_locations_result [OF assms(1) _ assms(3,5)]
  have "m' = m" using r1 r2 by (cases "bbolt_contents b (w_store w) (fullBytes hash)") auto
  then have put: "kv_Put (Bbolt_methods b) (fullBytes hash)
      (StorageLocationMap_EncodeMsgpack (v_locmap_enc env) (add_location m s2 loc msg)) (w_store w3) = (Ok (), w_store w4)"
    using put_location_Ok [OF assms(10,7)] assms(1) by simp
  have "bbolt_inv b (w_store w3)"
    using bbolt.put_frame put_location_Ok [OF assms(9,6)] assms(1) r1 r2 by fastforce
  from bbolt.put_location_GetCached [OF assms(1,2) this assms(3,4,11) put assms(13)] assms(8,12)
  show ?thesis by simp
qed

section \<open>The sample store without locations\<close>

lemma plain_read_locations:
  assumes "w_store w = plain_world"
  obtains w' where "readStorageLocationsFromDB plain_env hash w = (Ok NewStorageLocationMap, w')"
    "bbolt_inv (plain_bucket ''cache'') (w_store w')"
proof -
  have "bbolt_inv (plain_bucket ''cache'') (w_store w)" using assms by (simp add: plain_bucket_inv)
  then obtain t where "kv_Get (Bbolt_methods (plain_bucket ''cache'')) (fullBytes hash) (w_store w) =
      (Ok (bbolt_contents (plain_bucket ''cache'') (w_store w) (fullBytes hash)), t)"
    "bbolt_inv (plain_bucket ''cache'') t" by (rule plain_bucket_get [where k = "fullBytes hash"])
  then show thesis
    using assms by (intro that [of "w\<lparr>w_store := t\<rparr>"])
      (simp_all add: readStorageLocationsFromDB_def store_step_def plain_env_def plain_bucket_empty)
qed

lemma plain_no_locations:
  assumes "w_store w = plain_world"
  shows "fst (GetCachedStorageLocations plain_env hash kinds False w) = Ok NewMap"
proof -
  obtain w' where "readStorageLocationsFromDB plain_env hash w = (Ok NewStorageLocationMap, w')"
    using plain_read_locations [OF assms] .
  then show ?thesis
    by (simp add: GetCachedStorageLocations_def) (simp add: NewStorageLocationMap_def NewMap_def)
qed

lemma plain_add_location:
  assumes "w_store w = plain_world"
  shows "fst (AddStorageLocation plain_env hash n loc msg w) = Ok ()"
proof -
  let ?b = "plain_bucket ''cache''"
  obtain w' where w': "readStorageLocationsFromDB plain_env hash w = (Ok NewStorageLocationMap, w')"
    "bbolt_inv ?b (w_store w')" using plain_read_locations [OF assms] .
  obtain s where s: "NodeId_ToString (v_mb plain_env) n = Ok s"
    using NodeId_ToString_total [OF plain_multibase_laws] by (auto simp: plain_env_def)
  let ?packed = "StorageLocationMap_EncodeMsgpack plain_locmap_enc (add_location NewStorageLocationMap s loc msg)"
  obtain t where "kv_Put (Bbolt_methods ?b) (fullBytes hash) ?packed (w_store w') = (Ok (), t)"
    by (rule plain_bucket_put [OF w'(2)])
  then show ?thesis
    using w'(1) s by (simp add: AddStorageLocation_def store_step_def Let_def) (simp add: plain_env_def)
qed

lemma plain_added_location:
  assumes "w_store w = plain_world" "NodeId_ToString plain_multibase n = Ok s" "loc_ok (add_location NewStorageLocationMap s loc msg)"
  obtains w1 where "AddStorageLocation plain_env hash n loc msg w = (Ok (), w1)" "w1 = w\<lparr>w_store := w_store w1\<rparr>"
    "\<forall>w2 kinds. w_store w2 = w_store w1 \<longrightarrow>
      (\<exists>locs t. GetCachedStorageLocations plain_env hash kinds True w2 = (Ok locs, w2\<lparr>w_store := t\<rparr>))"
proof -
  let ?b = "plain_bucket ''cache''"
  let ?packed = "StorageLocationMap_EncodeMsgpack plain_locmap_enc (add_location NewStorageLocationMap s loc msg)"
  have env: "v_cache plain_env = Bbolt_methods ?b" "v_locmap_enc plain_env = plain_locmap_enc"
    "v_locmap_dec plain_env = plain_locmap_dec" "v_mb plain_env = plain_multibase" "v_providerStore plain_env = None"
    by (simp_all add: plain_env_def)
  have inv0: "bbolt_inv ?b (w_store w)" using assms(1) by (simp add: plain_bucket_inv)
  obtain t where t: "kv_Get (Bbolt_methods ?b) (fullBytes hash) (w_store w) = (Ok None, t)" "bbolt_inv ?b t"
    using plain_bucket_get [OF inv0, of "fullBytes hash"] assms(1) by (metis plain_bucket_empty)
  obtain u where u: "kv_Put (Bbolt_methods ?b) (fullBytes hash) ?packed t = (Ok (), u)" "bbolt_inv ?b u"
    "bbolt_contents ?b u (fullBytes hash) = Some ?packed"
    using plain_bucket_put [OF t(2), of "fullBytes hash" ?packed] by (metis fun_upd_same)
  obtain m' where m': "StorageLocationMap_DecodeMsgpack plain_locmap_dec NewStorageLocationMap ?packed = Ok m'"
    using locmap_roundtrip [OF plain_locmap_laws assms(3)] by blast
  have "\<exists>locs t. GetCachedStorageLocations plain_env hash kinds True w2 = (Ok locs, w2\<lparr>w_store := t\<rparr>)" if "w_store w2 = u" for w2 kinds
  proof -
    obtain x where "kv_Get (Bbolt_methods ?b) (fullBytes hash) u = (Ok (Some ?packed), x)"
      using plain_bucket_get [OF u(2), of "fullBytes hash"] u(3) by metis
    then have "readStorageLocationsFromDB plain_env hash w2 = (Ok m', w2\<lparr>w_store := x\<rparr>)"
      using that m' by (simp add: readStorageLocationsFromDB_def store_step_def env)
    then show ?thesis by (auto simp: GetCachedStorageLocations_def getLocalStorageLocation_def env simp del: split_paired_Ex)
  qed
  moreover have "AddStorageLocation plain_env hash n loc msg w = (Ok (), w\<lparr>w_store := u\<rparr>)"
    using t u(1) assms(2)
    by (simp add: AddStorageLocation_def readStorageLocationsFromDB_def store_step_def env Let_def)
  ultimately show thesis by (intro that [of "w\<lparr>w_store := u\<rparr>"]) auto
qed

end
