(* ===== verification/Message_Handlers.thy ===== *)
theory Message_Handlers
  imports P2P_Service Registry_Service Storage_Service
begin

text \<open>
  What a node does with a message: the \<open>HandleMessage\<close> methods of \<open>protocol/\<close>, over the
  services through \<open>service/default/mediator.go\<close>, and the callback of \<open>OnNewPeerListen\<close> in
  \<open>service/default/p2p.go\<close> that reads the frame, checks the handshake and dispatches. What
  these definitions guarantee is in \<open>Handler_Frames\<close> and \<open>Node_Protocol\<close>.
\<close>

section \<open>mediator.go\<close>

text \<open>The methods that fix an argument; the others only pass on.\<close>

definition Mediator_NetworkId :: "'s env \<Rightarrow> string" where
  "Mediator_NetworkId env = v_Network env"

definition Mediator_GetCachedStorageLocations ::
  "'s env \<Rightarrow> Multihash \<Rightarrow> int list \<Rightarrow> 's world \<Rightarrow> (string, StorageLocationImpl) gomap outcome \<times> 's world" where
  "Mediator_GetCachedStorageLocations env hash kinds w = GetCachedStorageLocations env hash kinds False w"

definition Mediator_SortNodesByScore ::
  "'s env \<Rightarrow> NodeId list \<Rightarrow> 's world \<Rightarrow> (NodeId list \<times> go_error option) outcome \<times> 's world" where
  "Mediator_SortNodesByScore env nodes w =
     (case w_localNodeID w of
        None \<Rightarrow> if nodes = [] then (Ok ([], None), w) else (Panic, w)
      | Some (_, self) \<Rightarrow>
          store_step (SortNodesByScore (v_mp env) (v_nodes env) (v_sorter env) self
            (\<lambda>n. v_spare env (node_bytes n)) nodes) w)"

definition Mediator_ConnectToNode ::
  "'s env \<Rightarrow> URL list \<Rightarrow> bool \<Rightarrow> peer_ref option \<Rightarrow> 's world \<Rightarrow> unit outcome \<times> 's world" where
  "Mediator_ConnectToNode env connectionUris retried fromPeer w =
     ConnectToNode env connectionUris 0 fromPeer w"

section \<open>handshake_open.go\<close>

definition HandshakeOpen_HandleMessage ::
  "'s env \<Rightarrow> HandshakeOpen \<Rightarrow> peer_ref \<Rightarrow> 's world \<Rightarrow> unit outcome \<times> 's world" where
  "HandshakeOpen_HandleMessage env h peer w =
     (if ho_networkId h \<noteq> Mediator_NetworkId env then (Err (GoError ''Peer is in different network'' []), w)
      else
        sbind (SignMessageSimple env (HandshakeDone_EncodeMsgpack (v_mp env) (v_urlString env)
            (NewHandshakeDoneRequest (ho_handshake h) SupportedFeatures (v_selfConnectionUris env))) w)
          (\<lambda>secureMessage w. SendMessage env peer secureMessage w))"

section \<open>signed_handshake_done.go and signed_announce_peers.go\<close>

text \<open>The identity check, or the identity the connection gets.\<close>

definition identify_peer ::
  "peer_ref \<Rightarrow> bool \<Rightarrow> node_ptr \<Rightarrow> 's world \<Rightarrow> unit outcome \<times> 's world" where
  "identify_peer peer verifyId nodeId w =
     (if \<not> verifyId then (Ok (), peer_SetId peer (Some nodeId) w)
      else sbind (pure_step (id_Equals (peer_Id w peer) (Some nodeId)) w) (\<lambda>same w.
        if \<not> same then (Err (GoError ''Invalid transports id on initial list'' []), w) else (Ok (), w)))"

text \<open>The rest of the handler, for a peer that is in the peer table.\<close>

definition adopt_uris :: "'s env \<Rightarrow> URL list \<Rightarrow> peer_ref \<Rightarrow> 's world \<Rightarrow> unit outcome \<times> 's world" where
  "adopt_uris env uris peer w =
     (case uris of
        [] \<Rightarrow> (Ok (), w)
      | first # _ \<Rightarrow>
          sbind (pure_step (id_ToString env (peer_Id w peer)) w) (\<lambda>peerId w.
            Mediator_ConnectToNode env [first\<lparr>url_User := Some (peerId, None)\<rparr>] False (Some peer)
              (peer_SetConnectionURIs peer (map (\<lambda>uri. uri\<lparr>url_User := Some (peerId, None)\<rparr>) uris) w)))"

definition HandshakeDone_HandleMessage ::
  "'s env \<Rightarrow> HandshakeDone \<Rightarrow> peer_ref \<Rightarrow> bool \<Rightarrow> node_ptr \<Rightarrow> 's world \<Rightarrow> unit outcome \<times> 's world" where
  "HandshakeDone_HandleMessage env h peer verifyId nodeId w =
     (if \<not> w_started w then (Ok (), snd (peer_End env peer w))
      else if pe_challenge (w_heap w peer) \<noteq> hd_challenge h then (Err (GoError ''Invalid challenge'' []), w)
      else
        sbind (identify_peer peer verifyId nodeId w) (\<lambda>_ w.
          let w = peer_SetHandshakeDone peer True (peer_SetConnected peer True w) in
          if hd_supportedFeatures h \<noteq> SupportedFeatures
          then (Err (GoError ''Remote node does not support required features'' []), w)
          else sbind (AddPeer env peer w) (\<lambda>_ w. adopt_uris env (hd_connectionUris h) peer w)))"

definition AnnouncePeers_HandleMessage ::
  "'s env \<Rightarrow> URL list \<Rightarrow> peer_ref \<Rightarrow> 's world \<Rightarrow> unit outcome \<times> 's world" where
  "AnnouncePeers_HandleMessage env connectionUris peer w =
     (case connectionUris of
        [] \<Rightarrow> (Ok (), w)
      | first # _ \<Rightarrow> Mediator_ConnectToNode env [first] False (Some peer) w)"

section \<open>signed_message.go\<close>

definition SignedMessage_HandleMessage ::
  "'s env \<Rightarrow> SignedMessage \<Rightarrow> nat \<Rightarrow> peer_ref \<Rightarrow> bool \<Rightarrow> 's world \<Rightarrow> unit outcome \<times> 's world" where
  "SignedMessage_HandleMessage env s a peer verifyId w =
     sbind (pure_step (signedMessageReader_DecodeMsgpack (v_mp env) (sm_message s)) w) (\<lambda>(kind, payload) w.
       case GetSignedMessageType kind of
         None \<Rightarrow> (Ok (), w)
       | Some t \<Rightarrow>
           if SignedRequiresHandshake t \<and> \<not> pe_handshaked (w_heap w peer)
           then sbind (pure_step (NodeId_ToString (v_mb env) (sm_nodeId s)) w) (\<lambda>_ w. (Ok (), w))
           else (case t of
             T_HandshakeDone \<Rightarrow>
               sbind (pure_step (HandshakeDone_DecodeMessage (v_mp env) (v_urlParse env) payload) w) (\<lambda>h w.
                 HandshakeDone_HandleMessage env h peer verifyId (a, sm_nodeId s) w)
           | T_AnnouncePeers \<Rightarrow>
               sbind (pure_step (AnnouncePeers_DecodeMessage env payload) w) (\<lambda>uris w.
                 AnnouncePeers_HandleMessage env uris peer w)))"

section \<open>hash_query.go\<close>

text \<open>The known locations: the announcement of the best node among those is sent back.\<close>

primrec available_nodes :: "multibase_lib \<Rightarrow> string list \<Rightarrow> NodeId list" where
  "available_nodes mb [] = []"
| "available_nodes mb (key # keys) =
     (case DecodeNodeId mb key of Ok nodeId \<Rightarrow> nodeId # available_nodes mb keys | _ \<Rightarrow> available_nodes mb keys)"

definition reply_cached :: "'s env \<Rightarrow> HashQuery \<Rightarrow> peer_ref \<Rightarrow> 's world \<Rightarrow> unit outcome \<times> 's world" where
  "reply_cached env h peer w =
     sbind (Mediator_GetCachedStorageLocations env (hq_hash h) (hq_kinds h) w) (\<lambda>mapLocations w.
       if Map_Size mapLocations > 0 then
         sbind (Mediator_SortNodesByScore env (available_nodes (v_mb env) (Map_Keys mapLocations)) w)
           (\<lambda>(score, err) w.
             case err of
               Some e \<Rightarrow> (Err e, w)
             | None \<Rightarrow>
                 sbind (pure_step (obind (go_index score 0) (NodeId_ToString (v_mb env))) w)
                   (\<lambda>sortedNodeId w.
                     case Map_Get mapLocations sortedNodeId of
                       Some entry \<Rightarrow> SendMessage env peer (sl_providerMessage entry) w
                     | None \<Rightarrow> (Ok (), w)))
       else (Ok (), w))"

definition reply_provided :: "'s env \<Rightarrow> HashQuery \<Rightarrow> peer_ref \<Rightarrow> 's world \<Rightarrow> unit outcome \<times> 's world" where
  "reply_provided env h peer w =
     (case v_providerStore env of
        None \<Rightarrow> (Ok (), w)
      | Some store \<Rightarrow>
          if ps_CanProvide store (hq_hash h) (hq_kinds h) then
            sbind (pure_step (obind (ps_Provide store (hq_hash h) (hq_kinds h)) (\<lambda>location.
                PrepareProvideMessage (v_ed env) (v_KeyPair env) (hq_hash h) location)) w)
              (\<lambda>message w. SendMessage env peer message w)
          else (Ok (), w))"

text \<open>The query goes to every other peer; a failed write is logged.\<close>

primrec forward_query ::
  "'s env \<Rightarrow> bytes \<Rightarrow> node_ptr option \<Rightarrow> peer_ref list \<Rightarrow> 's world \<Rightarrow> unit outcome \<times> 's world" where
  "forward_query env msg from [] w = (Ok (), w)"
| "forward_query env msg from (p # ps) w =
     sbind (pure_step (id_Equals (peer_Id w p) from) w) (\<lambda>same w.
       forward_query env msg from ps (if same then w else snd (SendMessage env p msg w)))"

definition HashQuery_HandleMessage ::
  "'s env \<Rightarrow> HashQuery \<Rightarrow> bytes \<Rightarrow> peer_ref \<Rightarrow> 's world \<Rightarrow> unit outcome \<times> 's world" where
  "HashQuery_HandleMessage env h original peer w =
     sbind (reply_cached env h peer w) (\<lambda>_ w.
     sbind (reply_provided env h peer w) (\<lambda>_ w.
     sbind (pure_step (Multihash_ToString (hq_hash h)) w) (\<lambda>hashString w.
       let i = peer_Id w peer; table = w_hashQueryRoutingTable w in
       case Map_Get table hashString of
         Some peers \<Rightarrow>
           (Ok (), if Set_Contains peers [i] then w
                   else w\<lparr>w_hashQueryRoutingTable := Map_Put table hashString (Set_Add peers [i])\<rparr>)
       | None \<Rightarrow>
           let w = w\<lparr>w_hashQueryRoutingTable := Map_Put table hashString (Set_Add NewSet [i])\<rparr>
           in forward_query env original i (Map_Values (w_peers w)) w)))"

section \<open>storage_location.go\<close>

text \<open>
  The peers that asked for the hash get the announcement. The comparison with the peer the
  message came from is between a \<open>*NodeId\<close> and a \<open>Peer\<close>, and false. The table entry goes
  with the first of them that is not skipped and whose write does not fail.
\<close>

primrec forward_location ::
  "'s env \<Rightarrow> bytes \<Rightarrow> NodeId \<Rightarrow> string \<Rightarrow> node_ptr option list \<Rightarrow> 's world \<Rightarrow> unit outcome \<times> 's world" where
  "forward_location env msg nodeId hashStr [] w = (Ok (), w)"
| "forward_location env msg nodeId hashStr (peerId # ids) w =
     sbind (pure_step (case peerId of
              None \<Rightarrow> Panic
            | Some (_, n) \<Rightarrow> Ok (NodeId_Equals n (ArgNodeId nodeId) \<or> NodeId_Equals n ArgOther)) w) (\<lambda>skip w.
       if skip then forward_location env msg nodeId hashStr ids w
       else
         sbind (pure_step (id_ToString env peerId) w) (\<lambda>peerIdStr w.
           let removed = (\<lambda>w. w\<lparr>w_hashQueryRoutingTable := Map_Remove (w_hashQueryRoutingTable w) hashStr\<rparr>) in
           case Map_Get (w_peers w) peerIdStr of
             None \<Rightarrow> forward_location env msg nodeId hashStr ids (removed w)
           | Some foundPeer \<Rightarrow>
               (case SendMessage env foundPeer msg w of
                  (Ok _, w) \<Rightarrow> forward_location env msg nodeId hashStr ids (removed w)
                | (Err _, w) \<Rightarrow> forward_location env msg nodeId hashStr ids w
                | (Panic, w) \<Rightarrow> (Panic, w))))"

definition StorageLocation_HandleMessage ::
  "'s env \<Rightarrow> bytes \<Rightarrow> 's world \<Rightarrow> unit outcome \<times> 's world" where
  "StorageLocation_HandleMessage env msg w =
     sbind (pure_step (parse_storage_location (v_ed env) (v_spare env msg) msg) w) (\<lambda>(hash, nodeId, location) w.
       case AddStorageLocation env hash nodeId location msg w of
         (Panic, w) \<Rightarrow> (Panic, w)
       | (Err _, w) \<Rightarrow> (Err (GoError ''Failed to add storage location'' []), w)
       | (Ok _, w) \<Rightarrow>
           sbind (pure_step (Multihash_ToString hash) w) (\<lambda>hashStr w.
             forward_location env msg nodeId hashStr
               (Set_Values (case Map_Get (w_hashQueryRoutingTable w) hashStr of Some l \<Rightarrow> l | None \<Rightarrow> NewSet)) w))"

section \<open>registry_entry.go and registry_query.go\<close>

definition RegistryEntryRequest_HandleMessage ::
  "'s env \<Rightarrow> SignedRegistryEntry \<Rightarrow> peer_ref \<Rightarrow> 's world \<Rightarrow> unit outcome \<times> 's world" where
  "RegistryEntryRequest_HandleMessage env sre peer w =
     sbind (pure_step (CIDFromRegistryPublicKey (ArgBytes (sre_pk sre))) w) (\<lambda>_ w.
     sbind (pure_step (id_ToString env (peer_Id w peer)) w) (\<lambda>_ w.
     sbind (pure_step (ToBase64Url (v_mb env) (sre_pk sre)) w) (\<lambda>_ w.
       Registry_Set env sre False (Some peer) w)))"

definition RegistryQuery_HandleMessage ::
  "'s env \<Rightarrow> bytes \<Rightarrow> peer_ref \<Rightarrow> 's world \<Rightarrow> unit outcome \<times> 's world" where
  "RegistryQuery_HandleMessage env pk peer w =
     sbind (pure_step (CIDFromRegistryPublicKey (ArgBytes pk)) w) (\<lambda>_ w.
     sbind (pure_step (id_ToString env (peer_Id w peer)) w) (\<lambda>_ w.
     sbind (pure_step (ToBase64Url (v_mb env) pk) w) (\<lambda>_ w.
     sbind (Registry_Get env pk w) (\<lambda>sre w.
       case sre of
         None \<Rightarrow> (Ok (), w)
       | Some e \<Rightarrow> SendMessage env peer (MarshalSignedRegistryEntry e) w))))"

section \<open>The dispatch\<close>

definition dispatch_to ::
  "'s env \<Rightarrow> message_type \<Rightarrow> bytes \<Rightarrow> bytes \<Rightarrow> peer_ref \<Rightarrow> bool \<Rightarrow> 's world \<Rightarrow> unit outcome \<times> 's world" where
  "dispatch_to env t data message peer verifyId w =
     (case t of
        T_HandshakeOpen \<Rightarrow>
          sbind (pure_step (HandshakeOpen_DecodeMessage (v_mp env) data) w) (\<lambda>h w.
            HandshakeOpen_HandleMessage env h peer w)
      | T_HashQuery \<Rightarrow>
          sbind (pure_step (HashQuery_DecodeMessage (v_mp env) data) w) (\<lambda>h w.
            HashQuery_HandleMessage env h message peer w)
      | T_StorageLocation \<Rightarrow> StorageLocation_HandleMessage env message w
      | T_RegistryEntry \<Rightarrow>
          sbind (pure_step (RegistryEntryRequest_DecodeMessage message) w) (\<lambda>sre w.
            RegistryEntryRequest_HandleMessage env sre peer w)
      | T_RegistryQuery \<Rightarrow>
          sbind (pure_step (RegistryQuery_DecodeMessage (v_mp env) data) w) (\<lambda>pk w.
            RegistryQuery_HandleMessage env pk peer w)
      | T_SignedMessage \<Rightarrow>
          sbind (pure_step (SignedMessage_DecodeMessage (v_mp env) (v_ed env) data) w) (\<lambda>s w.
            let (a, w) = alloc w in SignedMessage_HandleMessage env s a peer verifyId w))"

text \<open>The callback of \<open>OnNewPeerListen\<close>.\<close>

definition OnMessage :: "'s env \<Rightarrow> peer_ref \<Rightarrow> bool \<Rightarrow> bytes \<Rightarrow> 's world \<Rightarrow> unit outcome \<times> 's world" where
  "OnMessage env peer verifyId message w =
     sbind (pure_step (IncomingMessageReader_DecodeMsgpack (v_mp env) message) w) (\<lambda>reader w.
       case GetMessageType (imr_Kind reader) of
         None \<Rightarrow> (Err (GoError ''unknown message type'' [imr_Kind reader]), w)
       | Some handler \<Rightarrow>
           if RequiresHandshake handler \<and> \<not> pe_handshaked (w_heap w peer) then (Ok (), w)
           else dispatch_to env handler (imr_Data reader) message peer verifyId w)"

end
