(* ===== verification/Handler_Frames.thy ===== *)
theory Handler_Frames
  imports Message_Handlers
begin

text \<open>
  What the operations of the services leave alone. A view of the state that does not look at
  the store, the log of writes, the notes of hash queries and the subscriptions is the same
  after every operation that does not dial and is no closing handshake. The contract of such a
  view is a locale; it is met by the peer table, and by all that the life of a connection
  depends on.
\<close>

section \<open>Views that ignore stores, writes and subscriptions\<close>

lemma case_outcome_snd:
  "snd (case m of (Ok a, w) \<Rightarrow> f a w | (Err e, w) \<Rightarrow> g e w | (Panic, w) \<Rightarrow> h w) =
    (case fst m of Ok a \<Rightarrow> snd (f a (snd m)) | Err e \<Rightarrow> snd (g e (snd m)) | Panic \<Rightarrow> snd (h (snd m)))"
  by (cases m; cases "fst m") auto

locale bystander =
  fixes view :: "'s world \<Rightarrow> 'v"
  assumes view_wire: "view (w\<lparr>w_wire := a\<rparr>) = view w"
    and view_store: "view (w\<lparr>w_store := b\<rparr>) = view w"
    and view_table: "view (w\<lparr>w_hashQueryRoutingTable := c\<rparr>) = view w"
    and view_streams: "view (w\<lparr>w_streams := d\<rparr>) = view w"
    and view_subs: "view (w\<lparr>w_subs := e\<rparr>) = view w"
    and view_fired: "view (w\<lparr>w_fired := f\<rparr>) = view w"
begin

lemmas view_simps = view_wire view_store view_table view_streams view_subs view_fired

lemma view_Send [simp]: "view (snd (SendMessage env p msg w)) = view w"
  by (simp add: SendMessage_def view_simps split: option.split)

lemma view_store_step [simp]: "view (snd (store_step g w)) = view w"
  by (simp add: store_step_def view_simps split: prod.split)

lemma view_getFromDB [simp]: "view (snd (getFromDB env pk w)) = view w"
  by (simp add: getFromDB_def sbind_snd split: outcome.split option.split)

lemma view_broadcast_to [simp]: "view (snd (broadcast_to env msg from ps w)) = view w"
  by (induction ps arbitrary: w) (simp_all add: sbind_snd case_outcome_snd split: outcome.split)

lemma view_send_to_all [simp]: "view (snd (send_to_all env msg ps w)) = view w"
  by (induction ps arbitrary: w) (simp_all add: case_outcome_snd split: outcome.split)

lemma view_send_hash [simp]: "view (send_hash_to_all env msg ps w) = view w"
  by (induction ps arbitrary: w) simp_all

lemma view_store_entry [simp]: "view (snd (store_entry env sre from w)) = view w"
  by (simp add: store_entry_def BroadcastEntry_def sbind_snd Let_def view_simps split: outcome.split option.split)

lemma view_Registry_Set [simp]: "view (snd (Registry_Set env sre t from w)) = view w"
  by (simp add: Registry_Set_def sbind_snd split: outcome.split option.split)

lemma view_read [simp]: "view (snd (readStorageLocationsFromDB env hash w)) = view w"
  by (simp add: readStorageLocationsFromDB_def sbind_snd split: outcome.split option.split)

lemma view_Get [simp]: "view (snd (GetCachedStorageLocations env hash kinds l w)) = view w"
  by (simp add: GetCachedStorageLocations_def sbind_snd split: outcome.split)

lemma view_Add [simp]: "view (snd (AddStorageLocation env hash n loc msg w)) = view w"
  by (simp add: AddStorageLocation_def sbind_snd Let_def split: outcome.split)

lemma view_forward_query [simp]: "view (snd (forward_query env msg from ps w)) = view w"
  by (induction ps arbitrary: w) (simp_all add: sbind_snd split: outcome.split)

lemma view_forward_location [simp]: "view (snd (forward_location env msg n hs ids w)) = view w"
  by (induction ids arbitrary: w)
    (simp_all add: sbind_snd case_outcome_snd Let_def view_simps split: outcome.split option.split)

lemma view_replies [simp]:
  "view (snd (reply_cached env h p w)) = view w" "view (snd (reply_provided env h p w)) = view w"
  by (simp_all add: reply_cached_def reply_provided_def Mediator_GetCachedStorageLocations_def
      Mediator_SortNodesByScore_def sbind_snd split: outcome.split option.split prod.split)

lemma view_handlers [simp]:
  "view (snd (HandshakeOpen_HandleMessage env ho p w)) = view w"
  "view (snd (HashQuery_HandleMessage env h msg p w)) = view w"
  "view (snd (StorageLocation_HandleMessage env msg w)) = view w"
  "view (snd (RegistryEntryRequest_HandleMessage env sre p w)) = view w"
  by (simp_all add: HandshakeOpen_HandleMessage_def SignMessageSimple_def HashQuery_HandleMessage_def
      StorageLocation_HandleMessage_def RegistryEntryRequest_HandleMessage_def sbind_snd case_outcome_snd
      Let_def view_simps split: outcome.split option.split prod.split)

text \<open>A lookup sleeps, so other goroutines have to leave the view alone, too.\<close>

lemma view_poll:
  "\<forall>w. view (v_others env w) = view w \<Longrightarrow> view (snd (poll env pk n res w)) = view w"
  by (induction n arbitrary: res w) (simp_all add: sbind_snd split: outcome.split)

lemma view_Registry_Get:
  "\<forall>w. view (v_others env w) = view w \<Longrightarrow> view (snd (Registry_Get env pk w)) = view w"
  by (simp add: Registry_Get_def SendRegistryRequest_def sbind_snd Let_def view_poll view_simps split: outcome.split)

lemma view_RegistryQuery:
  "\<forall>w. view (v_others env w) = view w \<Longrightarrow> view (snd (RegistryQuery_HandleMessage env pk p w)) = view w"
  by (simp add: RegistryQuery_HandleMessage_def sbind_snd view_Registry_Get split: outcome.split option.split)

end

interpretation peers: bystander w_peers
  by unfold_locales simp_all

interpretation heap: bystander w_heap
  by unfold_locales simp_all

text \<open>What the life of a connection depends on.\<close>

definition core :: "'s world \<Rightarrow> (string, peer_ref) gomap \<times> (peer_ref \<Rightarrow> Peer) \<times> nat \<times> (peer_ref \<times> bool) list \<times>
    go_task list \<times> int \<times> peer_ref list \<times> peer_ref list" where
  "core w = (w_peers w, w_heap w, w_next w, w_listening w, w_tasks w, w_connections w, w_waiting w, w_hungup w)"

interpretation core: bystander core
  by unfold_locales (simp_all add: core_def)

end
