(* ===== verification/Node_Protocol.thy ===== *)
theory Node_Protocol
  imports Handler_Frames
begin

text \<open>
  What a message can do to a node. Before the handshake nothing but handshakes has an effect; a
  new entry of the peer table is authenticated by a signature over the challenge; two nodes
  complete the handshake; what the handlers reply, forward and record.
\<close>

section \<open>The handshake\<close>

text \<open>
  What a message has to be to enter a peer under the identity \<open>n\<close>: a signed message by \<open>n\<close>,
  its signature valid, whose content is a closing handshake with the challenge \<open>c\<close>.
\<close>

definition closing_handshake :: "'s env \<Rightarrow> bytes \<Rightarrow> SignedMessage \<Rightarrow> HandshakeDone \<Rightarrow> bool" where
  "closing_handshake env message s h \<longleftrightarrow>
     (\<exists>m kind payload. IncomingMessageReader_DecodeMsgpack (v_mp env) message = Ok m \<and>
       GetMessageType (imr_Kind m) = Some T_SignedMessage \<and>
       SignedMessage_DecodeMessage (v_mp env) (v_ed env) (imr_Data m) = Ok s \<and>
       signedMessageReader_DecodeMsgpack (v_mp env) (sm_message s) = Ok (kind, payload) \<and>
       GetSignedMessageType kind = Some T_HandshakeDone \<and>
       HandshakeDone_DecodeMessage (v_mp env) (v_urlParse env) payload = Ok h)"

definition handshake_proof :: "'s env \<Rightarrow> bytes \<Rightarrow> bytes \<Rightarrow> NodeId \<Rightarrow> bool" where
  "handshake_proof env c message n \<longleftrightarrow>
     (\<exists>s h. closing_handshake env message s h \<and> sm_nodeId s = n \<and> hd_challenge h = c)"

text \<open>Such a message carries a signature by \<open>n\<close>, with the challenge in what is signed.\<close>

lemma handshake_proof_signed:
  assumes "handshake_proof env c message n"
  obtains signed sig where "length (node_bytes n) = 33" "length sig = 64"
    "ed_verify (v_ed env) (drop 1 (node_bytes n)) signed sig"
    "\<exists>kind payload h. signedMessageReader_DecodeMsgpack (v_mp env) signed = Ok (kind, payload) \<and>
      HandshakeDone_DecodeMessage (v_mp env) (v_urlParse env) payload = Ok h \<and> hd_challenge h = c"
  using assms unfolding handshake_proof_def closing_handshake_def
  by (metis SignedMessage_DecodeMessage_Ok)

text \<open>Once a peer is in the table, dialling the URIs it sent comes to nothing.\<close>

lemma ConnectToNode_known:
  assumes "multibase_laws (v_mb env)" "NodeId_ToString (v_mb env) n = Ok s" "Map_Contains (w_peers w) s"
  shows "snd (ConnectToNode env [u\<lparr>url_User := Some (s, pw)\<rparr>] retry from w) = w"
proof -
  have "DecodeNodeId (v_mb env) s = Ok n"
    using NodeId_ToString_decode [OF assms(1), of n] assms(2) by auto
  then have "connect_once env [u\<lparr>url_User := Some (s, pw)\<rparr>] retry from w \<in>
      {(Ok False, w), (Err errUnsupportedProtocol, w)}"
    using assms(2,3)
    by (auto simp: connect_once_def connect_identified_def connection_uri_def)
  then show ?thesis by (subst ConnectToNode.simps) auto
qed

lemma adopt_uris_known:
  assumes "multibase_laws (v_mb env)" "id_ToString env (peer_Id w p) = Ok s" "Map_Contains (w_peers w) s"
  shows "snd (adopt_uris env uris p w) = (case uris of [] \<Rightarrow> w
    | _ \<Rightarrow> peer_SetConnectionURIs p (map (\<lambda>uri. uri\<lparr>url_User := Some (s, None)\<rparr>) uris) w)"
proof (cases uris)
  case (Cons u us)
  obtain a n where "peer_Id w p = Some (a, n)" "NodeId_ToString (v_mb env) n = Ok s"
    using assms(2) by (auto simp: id_ToString_def split: option.splits)
  then show ?thesis
    using Cons assms ConnectToNode_known [OF assms(1)]
    by (simp add: adopt_uris_def Mediator_ConnectToNode_def peer_SetConnectionURIs_def upd_peer_def)
qed (simp add: adopt_uris_def)

text \<open>
  What an accepted closing handshake does to the state: identity and flags of the connection,
  the peer table, and the connection's URIs.
\<close>

definition handshake_peer :: "bool \<Rightarrow> node_ptr \<Rightarrow> Peer \<Rightarrow> Peer" where
  "handshake_peer verifyId i b =
     b\<lparr>pe_id := (if verifyId then pe_id b else Some i), pe_isConnected := True, pe_handshaked := True\<rparr>"

lemma handshake_marks:
  fixes a :: nat
  assumes "verifyId \<Longrightarrow> \<exists>b. peer_Id w p = Some (b, n)"
  defines "w2 \<equiv> w\<lparr>w_heap := (w_heap w)(p := handshake_peer verifyId (a, n) (w_heap w p))\<rparr>"
  shows "sbind (identify_peer p verifyId (a, n) w) (\<lambda>_ w. f (peer_SetHandshakeDone p True (peer_SetConnected p True w))) =
    f w2" and "\<exists>b. peer_Id w2 p = Some (b, n)"
  using assms(1) unfolding w2_def
  by (auto simp: identify_peer_def id_Equals_def NodeId_Equals_def peer_SetHandshakeDone_def peer_SetConnected_def
      peer_SetId_def upd_peer_def handshake_peer_def peer_Id_def)

lemma HandshakeDone_accepted:
  fixes a :: nat
  assumes "multibase_laws (v_mb env)" "NodeId_ToString (v_mb env) n = Ok s"
    and "w_started w" "pe_challenge (w_heap w p) = hd_challenge h" "hd_supportedFeatures h = SupportedFeatures"
    and "verifyId \<Longrightarrow> \<exists>b. peer_Id w p = Some (b, n)"
  defines "w' \<equiv> snd (HandshakeDone_HandleMessage env h p verifyId (a, n) w)"
  shows "w_peers w' = Map_Put (w_peers w) s p \<and> pe_handshaked (w_heap w' p) \<and> (\<exists>b. peer_Id w' p = Some (b, n)) \<and>
    (\<exists>us. core w' = (Map_Put (w_peers w) s p,
      (w_heap w)(p := (handshake_peer verifyId (a, n) (w_heap w p))\<lparr>pe_connectionURIs := us\<rparr>),
      w_next w, w_listening w, w_tasks w, w_connections w, w_waiting w, w_hungup w))"
proof -
  let ?w2 = "w\<lparr>w_heap := (w_heap w)(p := handshake_peer verifyId (a, n) (w_heap w p))\<rparr>"
  obtain b where b: "peer_Id ?w2 p = Some (b, n)" using handshake_marks(2) [OF assms(6)] by blast
  then have s: "id_ToString env (peer_Id ?w2 p) = Ok s" using assms(2) by (simp add: id_ToString_def)
  obtain w3 where add: "AddPeer env p ?w2 = (Ok (), w3)" "w_peers w3 = Map_Put (w_peers w) s p"
    "w_heap w3 = w_heap ?w2" "w_next w3 = w_next w" "w_listening w3 = w_listening w" "w_tasks w3 = w_tasks w"
    "w_connections w3 = w_connections w" "w_waiting w3 = w_waiting w" "w_hungup w3 = w_hungup w"
    using s by (simp add: AddPeer_def Let_def)
  have "id_ToString env (peer_Id w3 p) = Ok s" "Map_Contains (w_peers w3) s"
    using add s by (simp_all add: peer_Id_def)
  from adopt_uris_known [OF assms(1) this, of "hd_connectionUris h"]
  have snd: "w' = (case hd_connectionUris h of [] \<Rightarrow> w3
      | _ \<Rightarrow> peer_SetConnectionURIs p (map (\<lambda>uri. uri\<lparr>url_User := Some (s, None)\<rparr>) (hd_connectionUris h)) w3)"
    using assms(3-5) add(1) handshake_marks(1) [OF assms(6), where f = "\<lambda>w. sbind (AddPeer env p w)
        (\<lambda>_ w. adopt_uris env (hd_connectionUris h) p w)"]
    by (simp add: w'_def HandshakeDone_HandleMessage_def Let_def)
  show ?thesis
  proof (cases "hd_connectionUris h")
    case Nil
    have "(handshake_peer verifyId (a, n) (w_heap w p))\<lparr>pe_connectionURIs := pe_connectionURIs (w_heap w p)\<rparr> =
        handshake_peer verifyId (a, n) (w_heap w p)" by (simp add: handshake_peer_def)
    then have "\<exists>us. core w' = (Map_Put (w_peers w) s p,
        (w_heap w)(p := (handshake_peer verifyId (a, n) (w_heap w p))\<lparr>pe_connectionURIs := us\<rparr>),
        w_next w, w_listening w, w_tasks w, w_connections w, w_waiting w, w_hungup w)"
      using Nil snd add by (intro exI [of _ "pe_connectionURIs (w_heap w p)"]) (simp add: core_def)
    then show ?thesis using Nil snd add b by (simp add: peer_Id_def handshake_peer_def)
  next
    case Cons
    then show ?thesis
      using snd add b by (simp add: peer_Id_def core_def handshake_peer_def peer_SetConnectionURIs_def upd_peer_def) blast
  qed
qed

lemma HandshakeDone_frame:
  assumes "multibase_laws (v_mb env)"
  defines "w' \<equiv> \<lambda>env h p v i (w :: 's world). snd (HandshakeDone_HandleMessage env h p v i w)"
  shows "\<not> w_started w \<Longrightarrow> w' env h p v (a, n) w = w\<lparr>w_closed := w_closed w @ [p]\<rparr>"
    and "w_started w \<Longrightarrow> pe_challenge (w_heap w p) \<noteq> hd_challenge h \<Longrightarrow> w' env h p v (a, n) w = w"
    and "w_started w \<Longrightarrow> v \<Longrightarrow> \<nexists>b. peer_Id w p = Some (b, n) \<Longrightarrow> w' env h p v (a, n) w = w"
    and "w_started w \<Longrightarrow> hd_supportedFeatures h \<noteq> SupportedFeatures \<Longrightarrow> w_peers (w' env h p v (a, n) w) = w_peers w"
    and "w_started w \<Longrightarrow> pe_challenge (w_heap w p) = hd_challenge h \<Longrightarrow> (v \<Longrightarrow> \<exists>b. peer_Id w p = Some (b, n)) \<Longrightarrow>
      hd_supportedFeatures h \<noteq> SupportedFeatures \<Longrightarrow> core (w' env h p v (a, n) w) =
      (w_peers w, (w_heap w)(p := handshake_peer v (a, n) (w_heap w p)), w_next w, w_listening w, w_tasks w, w_connections w, w_waiting w, w_hungup w)"
  by (auto simp: w'_def HandshakeDone_HandleMessage_def peer_End_def identify_peer_def id_Equals_def NodeId_Equals_def
      peer_SetHandshakeDone_def peer_SetConnected_def peer_SetId_def upd_peer_def Let_def core_def handshake_peer_def
      peer_Id_def split: option.splits)

text \<open>The closing handshake in a signed message, after the frames have been taken off.\<close>

lemma OnMessage_handshake:
  "closing_handshake env message s h \<Longrightarrow> OnMessage env p verifyId message w =
    HandshakeDone_HandleMessage env h p verifyId (w_next w, sm_nodeId s) (w\<lparr>w_next := Suc (w_next w)\<rparr>)"
  by (auto simp: closing_handshake_def OnMessage_def RequiresHandshake_def dispatch_to_def alloc_def
      SignedMessage_HandleMessage_def SignedRequiresHandshake_def)

text \<open>Everything else, before the handshake: at most one reply to the peer itself.\<close>

definition confined :: "peer_ref \<Rightarrow> 's world \<Rightarrow> 's world \<Rightarrow> bool" where
  "confined p w w' \<longleftrightarrow> (\<exists>es cs k. w' = w\<lparr>w_wire := w_wire w @ es, w_closed := w_closed w @ cs, w_next := k\<rparr> \<and>
     (\<forall>e \<in> set es. we_peer e = p) \<and> set cs \<subseteq> {p})"

lemma confined_refl [simp]: "confined p w w" "confined p w (w\<lparr>w_next := k\<rparr>)"
  "confined p w (w\<lparr>w_next := k, w_closed := w_closed w @ [p]\<rparr>)"
  unfolding confined_def
  by (rule exI [of _ "[]"], rule exI [of _ "[]"], simp, rule exI [of _ "w_next w"], simp)
    (rule exI [of _ "[]"], rule exI [of _ "[]"], simp, rule exI [of _ k], simp,
     rule exI [of _ "[]"], rule exI [of _ "[p]"], rule exI [of _ k], simp)

lemma confined_send: "confined p w (snd (SendMessage env p msg w))"
proof -
  obtain b where "snd (SendMessage env p msg w) = w\<lparr>w_wire := w_wire w @ [\<lparr>we_peer = p, we_message = msg, we_sent = b\<rparr>]\<rparr>"
    by (metis SendMessage_result prod.collapse)
  then show ?thesis unfolding confined_def
    by (intro exI [of _ "[\<lparr>we_peer = p, we_message = msg, we_sent = b\<rparr>]"] exI [of _ "[]"] exI [of _ "w_next w"]) simp
qed

lemma OnMessage_other_confined:
  assumes "\<not> pe_handshaked (w_heap w p)" "\<nexists>s h. closing_handshake env message s h"
  shows "confined p w (snd (OnMessage env p verifyId message w))"
proof (cases "\<exists>m. IncomingMessageReader_DecodeMsgpack (v_mp env) message = Ok m \<and>
    (GetMessageType (imr_Kind m) = Some T_SignedMessage \<or> GetMessageType (imr_Kind m) = Some T_HandshakeOpen)")
  case False
  then have "snd (OnMessage env p verifyId message w) = w"
    using assms(1) by (auto simp: OnMessage_def sbind_snd RequiresHandshake_def split: outcome.split option.split message_type.split)
  then show ?thesis by simp
next
  case True
  then obtain m where m: "IncomingMessageReader_DecodeMsgpack (v_mp env) message = Ok m"
    "GetMessageType (imr_Kind m) = Some T_SignedMessage \<or> GetMessageType (imr_Kind m) = Some T_HandshakeOpen" by blast
  show ?thesis
  proof (cases "GetMessageType (imr_Kind m) = Some T_SignedMessage")
    case True
    with m(1) show ?thesis
      using assms
      by (auto simp: OnMessage_def dispatch_to_def alloc_def SignedMessage_HandleMessage_def SignedRequiresHandshake_def
          RequiresHandshake_def closing_handshake_def sbind_snd
          split: outcome.splits option.splits prod.splits signed_message_type.splits)
  next
    case False
    with m have "snd (OnMessage env p verifyId message w) =
        snd (sbind (pure_step (HandshakeOpen_DecodeMessage (v_mp env) (imr_Data m)) w)
          (\<lambda>h w. HandshakeOpen_HandleMessage env h p w))"
      by (simp add: OnMessage_def RequiresHandshake_def dispatch_to_def)
    then show ?thesis
      using confined_send [of p w env]
      by (simp add: sbind_snd HandshakeOpen_HandleMessage_def SignMessageSimple_def split: outcome.split)
  qed
qed

section \<open>Who changes the peer table\<close>

text \<open>
  Nothing but closing handshakes does, as long as the other goroutines, which run while one
  sleeps, leave it alone.
\<close>

definition idle_peers :: "'s env \<Rightarrow> bool" where
  "idle_peers env \<longleftrightarrow> (\<forall>w. w_peers (v_others env w) = w_peers w)"

lemma idle_handler_peers:
  assumes "idle_peers env"
  shows "w_peers (snd (RegistryQuery_HandleMessage env pk p w)) = w_peers w"
    and "w_peers (snd (AnnouncePeers_HandleMessage env uris p w)) = w_peers w"
  using peers.view_RegistryQuery [of env] ConnectToNode_peers [of env] assms
  by (simp_all add: AnnouncePeers_HandleMessage_def Mediator_ConnectToNode_def idle_peers_def split: list.split)

lemma OnMessage_other_peers:
  assumes "idle_peers env" "\<nexists>s h. closing_handshake env message s h"
  shows "w_peers (snd (OnMessage env p verifyId message w)) = w_peers w"
proof (cases "\<exists>m. IncomingMessageReader_DecodeMsgpack (v_mp env) message = Ok m \<and>
    GetMessageType (imr_Kind m) = Some T_SignedMessage")
  case True
  with assms show ?thesis
    using idle_handler_peers [OF assms(1)]
    by (auto simp: OnMessage_def dispatch_to_def alloc_def SignedMessage_HandleMessage_def
        RequiresHandshake_def closing_handshake_def sbind_snd
        split: outcome.split option.split prod.split signed_message_type.split)
next
  case False
  then show ?thesis
    using idle_handler_peers [OF assms(1)]
    by (auto simp: OnMessage_def dispatch_to_def sbind_snd split: outcome.split option.split message_type.split)
qed

lemma HandshakeDone_peers:
  assumes "multibase_laws (v_mb env)"
  shows "w_peers (snd (HandshakeDone_HandleMessage env h p v (a, n) w)) = w_peers w \<or>
    w_started w \<and> pe_challenge (w_heap w p) = hd_challenge h \<and> (v \<longrightarrow> (\<exists>b. peer_Id w p = Some (b, n))) \<and>
    (\<exists>s. NodeId_ToString (v_mb env) n = Ok s \<and>
      w_peers (snd (HandshakeDone_HandleMessage env h p v (a, n) w)) = Map_Put (w_peers w) s p)"
proof (cases "w_started w \<and> pe_challenge (w_heap w p) = hd_challenge h \<and>
    (v \<longrightarrow> (\<exists>b. peer_Id w p = Some (b, n))) \<and> hd_supportedFeatures h = SupportedFeatures")
  case True
  moreover obtain s where "NodeId_ToString (v_mb env) n = Ok s" using NodeId_ToString_total [OF assms] by blast
  ultimately show ?thesis using HandshakeDone_accepted [OF assms, of n s w p h v a] by blast
next
  case False
  then consider "\<not> w_started w" | "w_started w" "pe_challenge (w_heap w p) \<noteq> hd_challenge h"
    | "w_started w" v "\<nexists>b. peer_Id w p = Some (b, n)" | "w_started w" "hd_supportedFeatures h \<noteq> SupportedFeatures"
    by blast
  then show ?thesis
    using HandshakeDone_frame [OF assms] by cases simp_all
qed

lemma HandshakeDone_outside:
  assumes "multibase_laws (v_mb env)"
  shows "snd (HandshakeDone_HandleMessage env h p v (a, n) w) \<in> {w, w\<lparr>w_closed := w_closed w @ [p]\<rparr>} \<or>
    w_started w \<and> pe_challenge (w_heap w p) = hd_challenge h \<and> (v \<longrightarrow> (\<exists>b. peer_Id w p = Some (b, n)))"
proof -
  consider "\<not> w_started w" | "w_started w" "pe_challenge (w_heap w p) \<noteq> hd_challenge h"
    | "w_started w" v "\<nexists>b. peer_Id w p = Some (b, n)"
    | "w_started w" "pe_challenge (w_heap w p) = hd_challenge h" "v \<longrightarrow> (\<exists>b. peer_Id w p = Some (b, n))"
    by blast
  then show ?thesis
    using HandshakeDone_frame [OF assms] by cases simp_all
qed

section \<open>Replies and relays\<close>

lemma storage_frame [simp]:
  "w_heap (snd (GetCachedStorageLocations env hash kinds l w)) = w_heap w"
  "w_wire (snd (GetCachedStorageLocations env hash kinds l w)) = w_wire w"
  "w_hashQueryRoutingTable (snd (GetCachedStorageLocations env hash kinds l w)) = w_hashQueryRoutingTable w"
  "w_heap (snd (AddStorageLocation env hash n loc msg w)) = w_heap w"
  "w_wire (snd (AddStorageLocation env hash n loc msg w)) = w_wire w"
  "w_hashQueryRoutingTable (snd (AddStorageLocation env hash n loc msg w)) = w_hashQueryRoutingTable w"
  by (simp_all add: GetCachedStorageLocations_def AddStorageLocation_def readStorageLocationsFromDB_def sbind_snd Let_def
      split: outcome.splits option.splits)

text \<open>What was written, without the outcomes of the writes.\<close>

definition sent :: "'s world \<Rightarrow> (peer_ref \<times> bytes) list" where
  "sent w = map (\<lambda>e. (we_peer e, we_message e)) (w_wire w)"

lemma sent_SendMessage [simp]: "sent (snd (SendMessage env p msg w)) = sent w @ [(p, msg)]"
  by (simp add: sent_def SendMessage_def split: option.split)

lemma forward_query_sends:
  assumes "\<forall>q \<in> set ps. peer_Id w q \<noteq> None"
  shows "fst (forward_query env msg (Some i) ps w) = Ok () \<and>
    sent (snd (forward_query env msg (Some i) ps w)) =
      sent w @ map (\<lambda>q. (q, msg)) (filter (\<lambda>q. id_Equals (peer_Id w q) (Some i) \<noteq> Ok True) ps) \<and>
    w_hashQueryRoutingTable (snd (forward_query env msg (Some i) ps w)) = w_hashQueryRoutingTable w"
  using assms
proof (induction ps arbitrary: w)
  case (Cons q ps)
  then obtain j where j: "peer_Id w q = Some j" by auto
  let ?w = "snd (SendMessage env q msg w)"
  have same: "peer_Id ?w r = peer_Id w r" for r by (simp add: peer_Id_def)
  obtain b where "id_Equals (Some j) (Some i) = Ok b" by (cases i; cases j) (simp add: id_Equals_def)
  then show ?case
    using Cons.IH [of w] Cons.IH [of ?w] Cons.prems j same by (cases b) simp_all
qed simp

definition relay_target :: "'s env \<Rightarrow> 's world \<Rightarrow> NodeId \<Rightarrow> node_ptr option \<Rightarrow> peer_ref option" where
  "relay_target env w nodeId i =
     (case i of
        None \<Rightarrow> None
      | Some (_, n) \<Rightarrow> if n = nodeId then None
          else (case NodeId_ToString (v_mb env) n of Ok s \<Rightarrow> Map_Get (w_peers w) s | _ \<Rightarrow> None))"

lemma relay_target_peers: "w_peers v = w_peers w \<Longrightarrow> relay_target env v = relay_target env w"
  unfolding relay_target_def [abs_def] by (rule ext)+ (simp only:)

lemma SendMessage_ok:
  "v_send env = (\<lambda>_ _ _. None) \<Longrightarrow> SendMessage env p msg w =
    (Ok (), w\<lparr>w_wire := w_wire w @ [\<lparr>we_peer = p, we_message = msg, we_sent = True\<rparr>]\<rparr>)"
  by (simp add: SendMessage_def)

lemma forward_location_sends:
  assumes "multibase_laws (v_mb env)" "v_send env = (\<lambda>_ _ _. None)" "\<forall>i \<in> set ids. i \<noteq> None"
  shows "fst (forward_location env msg nodeId hs ids w) = Ok () \<and>
    sent (snd (forward_location env msg nodeId hs ids w)) =
      sent w @ map (\<lambda>q. (q, msg)) (List.map_filter (relay_target env w nodeId) ids) \<and>
    Map_Get (w_hashQueryRoutingTable (snd (forward_location env msg nodeId hs ids w))) =
      (if \<exists>i \<in> set ids. map_option snd i \<noteq> Some nodeId
       then (Map_Get (w_hashQueryRoutingTable w))(hs := None) else Map_Get (w_hashQueryRoutingTable w))"
  using assms(3)
proof (induction ids arbitrary: w)
  case (Cons i ids)
  then obtain a n where i: "i = Some (a, n)" by auto
  have empty: "Map_Get (Map_Remove m hs) = (Map_Get m)(hs := None)" for m :: "(string, node_ptr option goset) gomap"
    by (simp add: fun_eq_iff)
  show ?case
  proof (cases "n = nodeId")
    case True
    then show ?thesis
      using Cons i by (simp add: NodeId_Equals_def map_filter_simps relay_target_def)
  next
    case False
    obtain s where s: "NodeId_ToString (v_mb env) n = Ok s" using NodeId_ToString_total [OF assms(1)] by blast
    have skip: "\<not> (NodeId_Equals n (ArgNodeId nodeId) \<or> NodeId_Equals n ArgOther)"
      using False by (simp add: NodeId_Equals_def)
    let ?removed = "\<lambda>w :: 'a world. w\<lparr>w_hashQueryRoutingTable := Map_Remove (w_hashQueryRoutingTable w) hs\<rparr>"
    define w1 where "w1 = ?removed (case Map_Get (w_peers w) s of None \<Rightarrow> w
      | Some q \<Rightarrow> w\<lparr>w_wire := w_wire w @ [\<lparr>we_peer = q, we_message = msg, we_sent = True\<rparr>]\<rparr>)"
    have step: "forward_location env msg nodeId hs (i # ids) w = forward_location env msg nodeId hs ids w1"
      using skip s i by (simp add: id_ToString_def SendMessage_ok [OF assms(2)] w1_def split: option.split)
    have "w_peers w1 = w_peers w" by (simp add: w1_def split: option.split)
    then have "relay_target env w1 = relay_target env w" by (rule relay_target_peers)
    moreover have "sent w1 = sent w @ (case Map_Get (w_peers w) s of None \<Rightarrow> [] | Some q \<Rightarrow> [(q, msg)])"
      "Map_Get (w_hashQueryRoutingTable w1) = (Map_Get (w_hashQueryRoutingTable w))(hs := None)"
      by (simp_all add: w1_def sent_def empty split: option.split)
    moreover have "relay_target env w nodeId i = Map_Get (w_peers w) s" using False s i by (simp add: relay_target_def)
    ultimately show ?thesis
      unfolding step using Cons.IH [of w1] Cons.prems False i
      by (simp add: map_filter_simps fun_upd_def cong: if_cong split: option.split)
  qed
qed (simp add: map_filter_simps)

text \<open>The answer to an opening message, as the node that sent the challenge reads it.\<close>

lemma handshake_reply:
  assumes "msgpack_laws (v_mp A)" "v_mp B = v_mp A" "v_ed B = v_ed A"
    and "usable_key (v_ed B) (v_KeyPair B)" "PublicKey (v_KeyPair B) = Ok pk" "w_localNodeID wB = Some (x, NewNodeId pk)"
    and "ho_networkId h = v_Network B" "length (ho_handshake h) < 2 ^ 32"
    and "printable (v_urlString B) (v_urlParse A) (v_selfConnectionUris B)"
    and "length (HandshakeDone_EncodeMsgpack (v_mp B) (v_urlString B)
      (NewHandshakeDoneRequest (ho_handshake h) SupportedFeatures (v_selfConnectionUris B))) < 2 ^ 32"
  obtains m s where "\<And>q. HandshakeOpen_HandleMessage B h q wB = SendMessage B q m wB" "sm_nodeId s = NewNodeId pk"
    "closing_handshake A m s \<lparr>hd_challenge = ho_handshake h, hd_supportedFeatures = SupportedFeatures,
      hd_connectionUris = v_selfConnectionUris B, hd_handshake = []\<rparr>"
proof -
  let ?mp = "v_mp A" and ?uris = "v_selfConnectionUris B" and ?c = "ho_handshake h"
  let ?done = "NewHandshakeDoneRequest ?c SupportedFeatures ?uris"
  let ?inner = "HandshakeDone_EncodeMsgpack ?mp (v_urlString B) ?done"
  let ?h = "\<lparr>hd_challenge = ?c, hd_supportedFeatures = SupportedFeatures, hd_connectionUris = ?uris, hd_handshake = []\<rparr>"
  obtain sig where sig: "SignedMessage_Sign (v_ed A) (v_KeyPair B) (Some (NewNodeId pk)) ?inner =
      Ok \<lparr>sm_nodeId = NewNodeId pk, sm_signature = sig, sm_message = ?inner\<rparr>"
    and dec: "SignedMessage_DecodeMessage ?mp (v_ed A) (mp_EncodeBytes ?mp pk @ mp_EncodeBytes ?mp sig
      @ mp_EncodeBytes ?mp ?inner) = Ok \<lparr>sm_nodeId = NewNodeId pk, sm_signature = sig, sm_message = ?inner\<rparr>"
    using signed_message_decoded [of ?mp "v_ed A" "v_KeyPair B" pk ?inner] assms(1-5,10) by auto
  let ?s = "\<lparr>sm_nodeId = NewNodeId pk, sm_signature = sig, sm_message = ?inner\<rparr>"
  define m where "m = SignedMessage_EncodeMsgpack ?mp ?s"
  have reply: "HandshakeOpen_HandleMessage B h q wB = SendMessage B q m wB" for q
    using assms(2,3,6,7) sig
    by (simp add: HandshakeOpen_HandleMessage_def Mediator_NetworkId_def SignMessageSimple_def m_def)
  obtain data where frame: "IncomingMessageReader_DecodeMsgpack ?mp m = Ok \<lparr>imr_Kind = ProtocolMethodSignedMessage, imr_Data = data\<rparr>"
    and data: "data = mp_EncodeBytes ?mp pk @ mp_EncodeBytes ?mp sig @ mp_EncodeBytes ?mp ?inner"
    using msgpack_int [OF assms(1), of ProtocolMethodSignedMessage]
    by (simp add: m_def SignedMessage_EncodeMsgpack_def IncomingMessageReader_DecodeMsgpack_def int64_range_def
        go_consts NewNodeId_def)
  have types: "GetMessageType ProtocolMethodSignedMessage = Some T_SignedMessage"
    "GetSignedMessageType ProtocolMethodHandshakeDone = Some T_HandshakeDone"
    by (simp_all add: GetMessageType_def messageTypes_def GetSignedMessageType_def signedMessageTypes_def go_consts)
  obtain payload where inner: "signedMessageReader_DecodeMsgpack ?mp ?inner = Ok (ProtocolMethodHandshakeDone, payload)"
    "HandshakeDone_DecodeMessage ?mp (v_urlParse A) payload = Ok ?h"
    using HandshakeDone_encoded [of ?mp ?c SupportedFeatures "v_urlString B" "v_urlParse A" ?uris] assms(1,8,9)
    by (auto simp: int64_range_def go_consts)
  have "closing_handshake A m ?s ?h"
    unfolding closing_handshake_def using frame types dec data inner by fastforce
  with reply show thesis by (intro that [of m ?s]) simp_all
qed

section \<open>Announcements\<close>

lemma forward_query_extends: "\<exists>rest. sent (snd (forward_query env msg from ps w)) = sent w @ rest"
proof (induction ps arbitrary: w)
  case (Cons p ps)
  show ?case
  proof (cases "id_Equals (peer_Id w p) from")
    case (Ok b)
    then show ?thesis using Cons [of w] Cons [of "snd (SendMessage env p msg w)"] by (cases b) auto
  qed simp_all
qed simp

lemma HashQuery_provides:
  assumes "fst (GetCachedStorageLocations env (hq_hash h) (hq_kinds h) False w) = Ok []"
    and "v_providerStore env = Some store" "ps_CanProvide store (hq_hash h) (hq_kinds h)"
    and "ps_Provide store (hq_hash h) (hq_kinds h) = Ok loc"
    and "PrepareProvideMessage (v_ed env) (v_KeyPair env) (hq_hash h) loc = Ok msg"
  shows "\<exists>rest. sent (snd (HashQuery_HandleMessage env h original q w)) = sent w @ (q, msg) # rest"
proof -
  let ?w = "snd (GetCachedStorageLocations env (hq_hash h) (hq_kinds h) False w)"
  have cached: "reply_cached env h q w = (Ok (), ?w)"
    using assms(1) by (cases "GetCachedStorageLocations env (hq_hash h) (hq_kinds h) False w")
      (simp add: reply_cached_def Mediator_GetCachedStorageLocations_def Map_Size_def)
  have provided: "reply_provided env h q ?w = SendMessage env q msg ?w"
    using assms(2-5) by (simp add: reply_provided_def)
  obtain r w1 where s: "SendMessage env q msg ?w = (r, w1)" by fastforce
  then have w1: "sent w1 = sent w @ [(q, msg)]" using sent_SendMessage [of env q msg ?w] by (simp add: sent_def)
  have "\<exists>rest. sent (snd (HashQuery_HandleMessage env h original q w)) = sent w1 @ rest"
  proof (cases "\<exists>u str. r = Ok u \<and> Multihash_ToString (hq_hash h) = Ok str")
    case True
    have t: "sent (w1\<lparr>w_hashQueryRoutingTable := x\<rparr>) = sent w1" for x by (simp add: sent_def)
    from True show ?thesis
      using forward_query_extends [of env original "peer_Id w1 q"] t
      by (auto simp: HashQuery_HandleMessage_def cached provided s Let_def split: option.split) (metis t)
  next
    case False
    then show ?thesis
      by (cases r; cases "Multihash_ToString (hq_hash h)") (auto simp: HashQuery_HandleMessage_def cached provided s)
  qed
  then show ?thesis using w1 by auto
qed

lemma forward_location_store: "w_store (snd (forward_location env msg n hs ids w)) = w_store w"
  by (induction ids arbitrary: w)
    (simp_all add: sbind_snd case_outcome_snd Let_def SendMessage_frame split: outcome.split option.split)

lemma announcement_handled:
  assumes "msgpack_laws (v_mp env)" "pe_handshaked (w_heap w p)"
    and "PrepareProvideMessage ed kp hash loc0 = Ok msg"
    and "parse_storage_location (v_ed env) (v_spare env msg) msg = Ok (hash, node, loc)"
    and "OnMessage env p v msg w = (Ok (), w2)"
  obtains w1 where "AddStorageLocation env hash node loc msg w = (Ok (), w1)" "w_store w2 = w_store w1"
proof -
  obtain rest where msg: "msg = 5 # rest" using assms(3) by (rule provide_message_kind)
  have "IncomingMessageReader_DecodeMsgpack (v_mp env) msg =
      Ok \<lparr>imr_Kind = RecordTypeStorageLocation, imr_Data = rest\<rparr>"
    using msgpack_fixint [OF assms(1), of 5 rest] by (simp add: msg IncomingMessageReader_DecodeMsgpack_def go_consts)
  moreover have "GetMessageType RecordTypeStorageLocation = Some T_StorageLocation"
    by (simp add: GetMessageType_def messageTypes_def go_consts)
  ultimately have run: "StorageLocation_HandleMessage env msg w = (Ok (), w2)"
    using assms(2,5) by (simp add: OnMessage_def dispatch_to_def)
  obtain r w1 where add: "AddStorageLocation env hash node loc msg w = (r, w1)" by fastforce
  have "r = Ok () \<and> (\<exists>hs ids. forward_location env msg node hs ids w1 = (Ok (), w2))"
    using run unfolding StorageLocation_HandleMessage_def assms(4) pure_step_simps sbind_simps prod.case add
    by (cases r; cases "Multihash_ToString hash") auto
  with forward_location_store [of env msg node _ _ w1] have "r = Ok () \<and> w_store w2 = w_store w1" by (metis snd_conv)
  with add show thesis by (auto intro: that)
qed

section \<open>Properties\<close>

text \<open>
  C3: two nodes that speak the same protocol complete the handshake. A node \<open>B\<close> with a usable
  key answers the opening message of \<open>A\<close> with one message; when \<open>A\<close> gets it over the connection
  it sent its challenge on, it enters \<open>B\<close> in its peer table under the identity of \<open>B\<close>'s key,
  with the handshake marked as done.
\<close>
theorem handshake_completes:
  assumes "msgpack_laws (v_mp A)" "multibase_laws (v_mb A)" "v_mp B = v_mp A" "v_ed B = v_ed A"
    and "usable_key (v_ed B) (v_KeyPair B)" "PublicKey (v_KeyPair B) = Ok pk" "w_localNodeID wB = Some (x, NewNodeId pk)"
    and "ho_networkId h = v_Network B" "length (ho_handshake h) < 2 ^ 32"
    and "printable (v_urlString B) (v_urlParse A) (v_selfConnectionUris B)"
    and "length (HandshakeDone_EncodeMsgpack (v_mp B) (v_urlString B)
      (NewHandshakeDoneRequest (ho_handshake h) SupportedFeatures (v_selfConnectionUris B))) < 2 ^ 32"
    and "w_started wA" "pe_challenge (w_heap wA p) = ho_handshake h"
    and "verifyId \<Longrightarrow> \<exists>b. peer_Id wA p = Some (b, NewNodeId pk)"
  shows "\<exists>e s. w_wire (snd (HandshakeOpen_HandleMessage B h q wB)) = w_wire wB @ [e] \<and> we_peer e = q \<and>
    NodeId_ToString (v_mb A) (NewNodeId pk) = Ok s \<and>
    w_peers (snd (OnMessage A p verifyId (we_message e) wA)) = Map_Put (w_peers wA) s p \<and>
    pe_handshaked (w_heap (snd (OnMessage A p verifyId (we_message e) wA)) p) \<and>
    (\<exists>b. peer_Id (snd (OnMessage A p verifyId (we_message e) wA)) p = Some (b, NewNodeId pk))"
proof -
  obtain s where s: "NodeId_ToString (v_mb A) (NewNodeId pk) = Ok s" using NodeId_ToString_total [OF assms(2)] by blast
  let ?h = "\<lparr>hd_challenge = ho_handshake h, hd_supportedFeatures = SupportedFeatures,
    hd_connectionUris = v_selfConnectionUris B, hd_handshake = []\<rparr>"
  obtain m sm where reply: "\<And>q. HandshakeOpen_HandleMessage B h q wB = SendMessage B q m wB"
    and sm: "sm_nodeId sm = NewNodeId pk" "closing_handshake A m sm ?h"
    using handshake_reply [OF assms(1,3-11)] by blast
  have eq: "OnMessage A p verifyId m wA =
      HandshakeDone_HandleMessage A ?h p verifyId (w_next wA, NewNodeId pk) (wA\<lparr>w_next := Suc (w_next wA)\<rparr>)"
    using OnMessage_handshake [OF sm(2)] sm(1) by simp
  have "w_wire (snd (HandshakeOpen_HandleMessage B h q wB)) =
      w_wire wB @ [\<lparr>we_peer = q, we_message = m, we_sent = v_send B q m (w_wire wB) = None\<rparr>]"
    by (simp add: reply SendMessage_def split: option.splits)
  moreover have "pe_challenge (w_heap (wA\<lparr>w_next := Suc (w_next wA)\<rparr>) p) = hd_challenge ?h" using assms(13) by simp
  ultimately show ?thesis
    using HandshakeDone_accepted [OF assms(2) s, of "wA\<lparr>w_next := Suc (w_next wA)\<rparr>" p ?h verifyId "w_next wA"]
      assms(12,14) s eq by (auto simp: peer_Id_def)
qed

theorem handshake_completes_witness:
  "\<exists>(e :: wire_event) s. we_peer e = 4 \<and> NodeId_ToString plain_multibase (NewNodeId (0xed # replicate 32 5)) = Ok s \<and>
    w_peers (snd (OnMessage plain_env 1 False (we_message e) plain_node)) = Map_Put (w_peers plain_node) s 1"
proof -
  let ?h = "\<lparr>ho_challenge = [], ho_networkId = ''s5'', ho_handshake = [1, 2, 3]\<rparr>"
  have env: "v_mp plain_env = wide_msgpack" "v_mb plain_env = plain_multibase" "v_ed plain_env = plain_ed25519"
    "v_KeyPair plain_env = \<lparr>kp_Bytes = replicate 64 5\<rparr>" "v_Network plain_env = ''s5''" "v_selfConnectionUris plain_env = []"
    by (simp_all add: plain_env_def)
  have pk: "PublicKey \<lparr>kp_Bytes = replicate 64 5\<rparr> = Ok (0xed # replicate 32 5)"
    by (subst PublicKey_usable [OF plain_usable_key]) simp_all
  have short: "length (HandshakeDone_EncodeMsgpack wide_msgpack (v_urlString plain_env)
      (NewHandshakeDoneRequest [1, 2, 3] SupportedFeatures [])) < 2 ^ 32"
    by (simp add: HandshakeDone_EncodeMsgpack_def NewHandshakeDoneRequest_def EncodeMsgpackURLs_def
        wide_msgpack_def wide_int_def wide_raw_def)
  have node: "w_localNodeID plain_node = Some (0, NewNodeId (0xed # replicate 32 5))" "w_started plain_node"
    "pe_challenge (w_heap plain_node 1) = [1, 2, 3]"
    by (simp_all add: plain_node_def plain_peer_def)
  show ?thesis
    using handshake_completes [of plain_env plain_env "0xed # replicate 32 5" plain_node 0 ?h plain_node 1 False 4]
      wide_msgpack_laws plain_multibase_laws plain_usable_key [of "replicate 64 5"] pk short node
    by (simp add: env printable_def) blast
qed

text \<open>
  C4: the peer table is authenticated. Whatever message a node gets, its peer table stays as it
  is or gains one entry: the connection the message came over, under an identity that has
  signed the challenge sent over this very connection, and that the connection was dialled for,
  if it was dialled. The node has to have started.
\<close>
theorem peer_table_authentic:
  assumes "multibase_laws (v_mb env)" "idle_peers env"
  shows "w_peers (snd (OnMessage env p verifyId message w)) = w_peers w \<or>
    (\<exists>n s. handshake_proof env (pe_challenge (w_heap w p)) message n \<and> NodeId_ToString (v_mb env) n = Ok s \<and>
      w_peers (snd (OnMessage env p verifyId message w)) = Map_Put (w_peers w) s p \<and>
      (verifyId \<longrightarrow> (\<exists>b. peer_Id w p = Some (b, n))) \<and> w_started w)"
proof (cases "\<exists>s h. closing_handshake env message s h")
  case True
  then obtain s h where c: "closing_handshake env message s h" by blast
  from c have pr: "handshake_proof env (hd_challenge h) message (sm_nodeId s)" by (auto simp: handshake_proof_def)
  show ?thesis
    using HandshakeDone_peers [OF assms(1), of h p verifyId "w_next w" "sm_nodeId s" "w\<lparr>w_next := Suc (w_next w)\<rparr>"]
      OnMessage_handshake [OF c, of p verifyId w] pr
    by (auto simp: peer_Id_def)
next
  case False
  then show ?thesis using OnMessage_other_peers [OF assms(2)] by blast
qed

theorem peer_table_authentic_witness:
  "w_peers (snd (OnMessage plain_env 1 False [1, 2] (plain_node\<lparr>w_started := False\<rparr>))) = [(''p'', 1)]"
  using peer_table_authentic [of plain_env 1 False "[1, 2]" "plain_node\<lparr>w_started := False\<rparr>"] plain_multibase_laws
  by (simp add: idle_peers_def plain_env_def plain_node_def)



text \<open>
  A registry entry that another node broadcasts reaches the registry. The bytes a node
  writes for an entry, received over an authenticated connection, are handled as \<open>Set\<close> of just
  this entry, untrusted, with the connection as its source.
\<close>
lemma broadcast_entry_is_set:
  assumes "msgpack_laws (v_mp env)" "multibase_laws (v_mb env)" "wire_entry sre"
    and "pe_handshaked (w_heap w p)" "peer_Id w p = Some i"
  shows "OnMessage env p verifyId (MarshalSignedRegistryEntry sre) w = Registry_Set env sre False (Some p) w"
proof -
  obtain data where data: "MarshalSignedRegistryEntry sre = 7 # data"
    by (simp add: MarshalSignedRegistryEntry_def MarshalRegistryEntry_def go_consts)
  have frame: "IncomingMessageReader_DecodeMsgpack (v_mp env) (MarshalSignedRegistryEntry sre) =
      Ok \<lparr>imr_Kind = RecordTypeRegistryEntry, imr_Data = data\<rparr>"
    using msgpack_fixint [OF assms(1), of 7 data] data
    by (simp add: IncomingMessageReader_DecodeMsgpack_def go_consts)
  have type: "GetMessageType RecordTypeRegistryEntry = Some T_RegistryEntry"
    by (simp add: GetMessageType_def messageTypes_def go_consts)
  obtain s where id: "id_ToString env (peer_Id w p) = Ok s"
    using NodeId_ToString_total [OF assms(2)] assms(5) by (cases i) (auto simp: id_ToString_def)
  have "multibase_prefix ''base64url'' = Some (CHR ''u'')" by (simp add: multibase_prefix_def)
  with assms(2) obtain t where b64: "ToBase64Url (v_mb env) (sre_pk sre) = Ok t"
    by (auto simp: ToBase64Url_def elim: ToBase_Ok [where data = "sre_pk sre"])
  obtain c where "CIDFromRegistryPublicKey (ArgBytes (sre_pk sre)) = Ok c"
    by (simp add: CIDFromRegistryPublicKey_def CIDFromHash_def CIDTypeMap_def go_consts)
  then show ?thesis
    using frame type assms(3,4) id b64 entry.dec_enc [OF assms(3)]
    by (simp add: OnMessage_def dispatch_to_def RegistryEntryRequest_DecodeMessage_def
        RegistryEntryRequest_HandleMessage_def)
qed

text \<open>
  A short storage announcement brings the receiver down. The handler slices the message
  without looking at its length: an authenticated peer that sends the type byte and less than
  33 bytes makes it panic, unless the buffer happens to be larger.
\<close>
lemma short_announcement_panics:
  assumes "msgpack_laws (v_mp env)" "pe_handshaked (w_heap w p)" "length rest < 33" "v_spare env (5 # rest) = []"
  shows "OnMessage env p verifyId (5 # rest) w = (Panic, w)"
proof -
  have "IncomingMessageReader_DecodeMsgpack (v_mp env) (5 # rest) =
      Ok \<lparr>imr_Kind = RecordTypeStorageLocation, imr_Data = rest\<rparr>"
    using msgpack_fixint [OF assms(1), of 5 rest] by (simp add: IncomingMessageReader_DecodeMsgpack_def go_consts)
  moreover have "GetMessageType RecordTypeStorageLocation = Some T_StorageLocation"
    by (simp add: GetMessageType_def messageTypes_def go_consts)
  moreover have "parse_storage_location (v_ed env) [] (5 # rest) = Panic"
    using assms(3) by (simp add: parse_storage_location_def go_slice_def)
  ultimately show ?thesis
    using assms(2,4) by (simp add: OnMessage_def dispatch_to_def StorageLocation_HandleMessage_def)
qed

text \<open>
  C32: what becomes of a hash query nothing is known about. The first query for a hash notes the
  asking connection's identity and goes to every peer with another identity, in the order of
  the table; a later one is only noted.
\<close>
theorem hash_query_recorded:
  fixes msg :: bytes
  assumes "fst (GetCachedStorageLocations env (hq_hash h) (hq_kinds h) False w) = Ok []" "v_providerStore env = None"
    and "Multihash_ToString (hq_hash h) = Ok hs" "peer_Id w p = Some i"
    and "\<forall>q \<in> set (Map_Values (w_peers w)). peer_Id w q \<noteq> None"
  defines "w' \<equiv> snd (HashQuery_HandleMessage env h msg p w)"
  shows "fst (HashQuery_HandleMessage env h msg p w) = Ok () \<and>
    (case Map_Get (w_hashQueryRoutingTable w) hs of
       None \<Rightarrow> Map_Get (w_hashQueryRoutingTable w') hs = Some [Some i] \<and>
         sent w' = sent w @ map (\<lambda>q. (q, msg))
           (filter (\<lambda>q. id_Equals (peer_Id w q) (Some i) \<noteq> Ok True) (Map_Values (w_peers w)))
     | Some ps \<Rightarrow> Map_Get (w_hashQueryRoutingTable w') hs = Some (if Some i \<in> set ps then ps else ps @ [Some i]) \<and>
         sent w' = sent w)"
proof -
  let ?w = "snd (GetCachedStorageLocations env (hq_hash h) (hq_kinds h) False w)"
  have cached: "reply_cached env h p w = (Ok (), ?w)"
    using assms(1) by (cases "GetCachedStorageLocations env (hq_hash h) (hq_kinds h) False w")
      (simp add: reply_cached_def Mediator_GetCachedStorageLocations_def Map_Size_def)
  have provided: "reply_provided env h p ?w = (Ok (), ?w)" using assms(2) by (simp add: reply_provided_def)
  have ids: "peer_Id ?w q = peer_Id w q" "sent ?w = sent w" for q by (simp_all add: peer_Id_def sent_def)
  let ?t = "\<lambda>x. ?w\<lparr>w_hashQueryRoutingTable := x\<rparr>"
  have t: "peer_Id (?t x) q = peer_Id w q" "sent (?t x) = sent w" for x q by (simp_all add: peer_Id_def sent_def)
  show ?thesis
  proof (cases "Map_Get (w_hashQueryRoutingTable w) hs")
    case None
    let ?w1 = "?t (Map_Put (w_hashQueryRoutingTable w) hs [Some i])"
    have "HashQuery_HandleMessage env h msg p w = forward_query env msg (Some i) (Map_Values (w_peers w)) ?w1"
      using None cached provided assms(3,4) ids
      by (simp add: HashQuery_HandleMessage_def Let_def Set_Add_def NewSet_def)
    then show ?thesis
      using None forward_query_sends [of "Map_Values (w_peers w)" ?w1 env msg i] assms(5) t by (simp add: w'_def)
  next
    case (Some ps)
    then show ?thesis
      using cached provided assms(3,4) ids t
      by (simp add: HashQuery_HandleMessage_def Let_def w'_def Set_Contains_def Set_Add_def)
  qed
qed

theorem hash_query_recorded_witness:
  "\<exists>hs. Map_Get (w_hashQueryRoutingTable (snd (HashQuery_HandleMessage plain_env
      (NewHashRequest (NewMultihash [31, 1]) []) [4] 1 plain_node))) hs = Some [Some (0, plain_id)]"
proof -
  let ?h = "NewHashRequest (NewMultihash [31, 1]) []"
  obtain hs where hs: "Multihash_ToString (hq_hash ?h) = Ok hs"
    using Multihash_ToString_total [of "NewMultihash [31, 1]"] by (auto simp: NewHashRequest_def NewMultihash_def)
  have "fst (GetCachedStorageLocations plain_env (hq_hash ?h) (hq_kinds ?h) False plain_node) = Ok []"
    using plain_no_locations [of plain_node] by (simp add: NewMap_def plain_node_store)
  moreover have "v_providerStore plain_env = None" "peer_Id plain_node q = Some (0, plain_id)"
    "w_hashQueryRoutingTable plain_node = NewMap" for q
    by (simp_all add: plain_env_def plain_node_def peer_Id_def plain_peer_def)
  ultimately show ?thesis
    using hash_query_recorded [of plain_env ?h plain_node hs 1 "(0, plain_id)" "[4]"] hs by auto
qed

text \<open>
  An announcement is relayed to those who asked. Once the location is stored, every noted
  identity other than the announcing one that is in the peer table gets the message, in the
  order of the notes, and the notes on the hash are dropped. With all writes successful nobody
  is left out; the connection the message came from is not excepted.
\<close>
lemma announcement_relayed:
  assumes "multibase_laws (v_mb env)" "v_send env = (\<lambda>_ _ _. None)"
    and "parse_storage_location (v_ed env) (v_spare env msg) msg = Ok (hash, nodeId, location)"
    and "fst (AddStorageLocation env hash nodeId location msg w) = Ok ()" "Multihash_ToString hash = Ok hs"
    and "Map_Get (w_hashQueryRoutingTable w) hs = Some ids" "\<forall>i \<in> set ids. i \<noteq> None"
  defines "w' \<equiv> snd (StorageLocation_HandleMessage env msg w)"
  shows "fst (StorageLocation_HandleMessage env msg w) = Ok () \<and>
    sent w' = sent w @ map (\<lambda>q. (q, msg)) (List.map_filter (relay_target env w nodeId) ids) \<and>
    Map_Get (w_hashQueryRoutingTable w') hs =
      (if \<exists>i \<in> set ids. map_option snd i \<noteq> Some nodeId then None else Some ids)"
proof -
  obtain w1 where add: "AddStorageLocation env hash nodeId location msg w = (Ok (), w1)"
    using assms(4) by (metis prod.collapse)
  then have frame: "w_peers w1 = w_peers w" "w_hashQueryRoutingTable w1 = w_hashQueryRoutingTable w" "w_wire w1 = w_wire w"
    using storage_frame(5,6) [of env hash nodeId location msg w] peers.view_Add [of env hash nodeId location msg w]
    by simp_all
  then have eq: "StorageLocation_HandleMessage env msg w = forward_location env msg nodeId hs ids w1"
    using add assms(3,5,6) by (simp add: StorageLocation_HandleMessage_def Set_Values_def)
  have "relay_target env w1 nodeId = relay_target env w nodeId" "sent w1 = sent w"
    using frame relay_target_peers [OF frame(1)] by (simp_all add: sent_def)
  then show ?thesis
    using forward_location_sends [OF assms(1,2,7), of msg nodeId hs w1] eq assms(6) frame by (simp add: w'_def)
qed

end
