(* ===== verification/Http_Service.thy ===== *)
theory Http_Service
  imports P2P_Service
begin

text \<open>
  \<open>service/default/http.go\<close>: the routes, connections that come in, and the lists of nodes and
  peers. The parser of addresses and the test for loopback addresses are those of Go's \<open>net\<close>
  package, parameters here; of the JSON encoder only its input is modelled. Lemmas: which
  connections are refused, and under which address the others are known.
\<close>

section \<open>Routes\<close>

datatype http_handler = H_version | H_p2p | H_p2pNodes | H_p2pPeers

definition GetHttpRouter :: "(string \<times> http_handler) list" where
  "GetHttpRouter = [(''GET /s5/version'', H_version), (''GET /s5/p2p'', H_p2p),
     (''GET /s5/p2p/nodes'', H_p2pNodes), (''GET /s5/p2p/peers'', H_p2pPeers)]"

definition versionHandler :: string where "versionHandler = ''development''"

section \<open>Connections that come in\<close>

text \<open>
  An address is given by its text: \<open>nl_ParseIP\<close> yields that of the address it has read,
  \<open>nl_AddrIP\<close> that of the address in a TCP address (none for other kinds of addresses).
\<close>

record net_lib =
  nl_ParseIP :: "string \<Rightarrow> string option"
  nl_IsLoopback :: "string \<Rightarrow> bool"
  nl_AddrIP :: "string \<Rightarrow> string option"

record http_request =
  rq_RealIP :: string
  rq_ForwardedFor :: string

definition client_ip :: "net_lib \<Rightarrow> http_request \<Rightarrow> string option" where
  "client_ip nl r =
     (let realIP = rq_RealIP r; forwardedFor = rq_ForwardedFor r in
      if realIP \<noteq> [] then nl_ParseIP nl realIP
      else if forwardedFor \<noteq> [] then nl_ParseIP nl (takeWhile (\<lambda>c. c \<noteq> CHR '','') forwardedFor)
      else None)"

definition blockConnection :: "net_lib \<Rightarrow> string option \<Rightarrow> string \<Rightarrow> bool" where
  "blockConnection nl clientIP addr =
     (case clientIP of
        Some ip \<Rightarrow> nl_IsLoopback nl ip
      | None \<Rightarrow> (case nl_AddrIP nl addr of Some ip \<Rightarrow> nl_IsLoopback nl ip | None \<Rightarrow> False))"

definition peer_SetIP :: "peer_ref \<Rightarrow> string \<Rightarrow> 's world \<Rightarrow> 's world" where
  "peer_SetIP p ip = upd_peer p (\<lambda>b. b\<lparr>pe_ip := ip\<rparr>)"

text \<open>
  \<open>accepted\<close> is what the websocket library made of the request: the socket, known by its remote
  address, or an error.
\<close>

definition p2pHandler ::
  "'s env \<Rightarrow> net_lib \<Rightarrow> string outcome \<Rightarrow> http_request \<Rightarrow> 's world \<Rightarrow> 's world" where
  "p2pHandler env nl accepted r w =
     (case accepted of
        Ok c \<Rightarrow>
          (case CreateTransportPeer ''wss'' c [] w of
             (Ok peer, w) \<Rightarrow>
               let clientIP = client_ip nl r in
               if blockConnection nl clientIP (pe_ip (w_heap w peer)) then snd (peer_End env peer w)
               else
                 let w = (case clientIP of Some ip \<Rightarrow> peer_SetIP peer ip w | None \<Rightarrow> w)
                 in (Tracker_Add w)\<lparr>w_tasks := w_tasks w @ [Go_OnNewPeer peer False]\<rparr>
           | (_, w) \<Rightarrow> w)
      | _ \<Rightarrow> w)"

section \<open>Lists of nodes\<close>

record P2PNodeResponse =
  nr_Id :: string
  nr_Uris :: "string list"

definition p2pNodesHandler :: "'s env \<Rightarrow> 's world \<Rightarrow> P2PNodeResponse list outcome" where
  "p2pNodesHandler env w =
     obind (id_ToString env (w_localNodeID w)) (\<lambda>localId.
       Ok (map (\<lambda>uri. \<lparr>nr_Id = localId, nr_Uris = [v_urlString env uri]\<rparr>) (v_selfConnectionUris env)))"

primrec list_peers :: "'s env \<Rightarrow> 's world \<Rightarrow> peer_ref list \<Rightarrow> P2PNodeResponse list outcome" where
  "list_peers env w [] = Ok []"
| "list_peers env w (p # ps) =
     (case id_ToString env (peer_Id w p) of
        Panic \<Rightarrow> Panic
      | Err err \<Rightarrow> list_peers env w ps
      | Ok pid \<Rightarrow>
          let uris = pe_connectionURIs (w_heap w p) in
          if length uris = 0 then list_peers env w ps
          else obind (list_peers env w ps) (\<lambda>peerList.
            Ok (\<lparr>nr_Id = pid, nr_Uris = map (v_urlString env) uris\<rparr> # peerList)))"

definition p2pPeersHandler :: "'s env \<Rightarrow> 's world \<Rightarrow> P2PNodeResponse list outcome" where
  "p2pPeersHandler env w = list_peers env w (Map_Values (w_peers w))"

section \<open>Facts\<close>

lemma CreateTransportPeer_wss:
  "CreateTransportPeer ''wss'' c us w =
    (Ok (w_next w), w\<lparr>w_next := Suc (w_next w), w_heap := (w_heap w)(w_next w := \<lparr>pe_connectionURIs = us,
      pe_isConnected = False, pe_challenge = [], pe_id = None, pe_handshaked = False, pe_abuser = False, pe_ip = c\<rparr>)\<rparr>)"
  by (simp add: CreateTransportPeer_def transports_def alloc_def upd_peer_def Let_def)

text \<open>
  A connection that came in is refused or becomes one new peer, not identified, whose goroutine
  is started; all others stay as they are.
\<close>

lemma p2pHandler_cases:
  obtains "p2pHandler env nl accepted r w = w"
  | p where "p = w_next w" "w_next (p2pHandler env nl accepted r w) = Suc p"
    "\<And>q. q \<noteq> p \<Longrightarrow> w_heap (p2pHandler env nl accepted r w) q = w_heap w q"
    "\<not> pe_handshaked (w_heap (p2pHandler env nl accepted r w) p)"
    "w_peers (p2pHandler env nl accepted r w) = w_peers w"
    "w_listening (p2pHandler env nl accepted r w) = w_listening w"
    "w_waiting (p2pHandler env nl accepted r w) = w_waiting w"
    "(w_tasks (p2pHandler env nl accepted r w), w_connections (p2pHandler env nl accepted r w)) \<in>
      {(w_tasks w, w_connections w), (w_tasks w @ [Go_OnNewPeer p False], w_connections w + 1)}"
proof (cases accepted)
  case (Ok c)
  then show thesis
    by (intro that(2) [of "w_next w"])
      (simp_all add: p2pHandler_def CreateTransportPeer_wss Let_def peer_End_def peer_SetIP_def upd_peer_def split: option.split)
qed (use that(1) in \<open>simp_all add: p2pHandler_def\<close>)

lemma list_peers_known:
  assumes "multibase_laws (v_mb env)" "\<forall>p \<in> set ps. peer_Id w p \<noteq> None"
  shows "list_peers env w ps = Ok (List.map_filter (\<lambda>p.
    case id_ToString env (peer_Id w p) of
      Ok s \<Rightarrow> if pe_connectionURIs (w_heap w p) = [] then None
        else Some \<lparr>nr_Id = s, nr_Uris = map (v_urlString env) (pe_connectionURIs (w_heap w p))\<rparr>
    | _ \<Rightarrow> None) ps)"
  using assms(2)
proof (induction ps)
  case (Cons p ps)
  then obtain a n where "peer_Id w p = Some (a, n)" by auto
  moreover obtain s where "NodeId_ToString (v_mb env) n = Ok s" using NodeId_ToString_total [OF assms(1)] by blast
  ultimately show ?case using Cons by (simp add: map_filter_simps id_ToString_def)
qed (simp add: map_filter_simps)

section \<open>Properties\<close>

text \<open>
  Which connections the HTTP handler lets in. A request that carries an address in its
  headers is judged by that address alone, any other by the address of its socket: a loopback
  address is refused and its connection closed, every other one becomes a new peer, known by the
  address from the headers if there is one.
\<close>
lemma p2pHandler_admits:
  "let p = w_next w; w' = p2pHandler env nl (Ok addr) r w;
     ip = (case client_ip nl r of None \<Rightarrow> nl_AddrIP nl addr | Some i \<Rightarrow> Some i) in
   if map_option (nl_IsLoopback nl) ip = Some True
   then w_tasks w' = w_tasks w \<and> w_closed w' = w_closed w @ [p]
   else w_tasks w' = w_tasks w @ [Go_OnNewPeer p False] \<and> w_closed w' = w_closed w \<and>
     pe_ip (w_heap w' p) = (case client_ip nl r of None \<Rightarrow> addr | Some i \<Rightarrow> i)"
  by (simp add: p2pHandler_def CreateTransportPeer_wss blockConnection_def Let_def peer_End_def peer_SetIP_def upd_peer_def
      split: option.split)

end
