(* ===== verification/Node_Life.thy ===== *)
theory Node_Life
  imports P2P_Service
begin

text \<open>
  \<open>node/node.go\<close> and \<open>node/services.go\<close>: a node is made, initialised, started and stopped, each
  service in turn. Lemmas: what the steps do to the flags and to the goroutines that dial.
\<close>

section \<open>Making a node\<close>

text \<open>The state after \<open>DefaultNode\<close>: the tables of the new services, over a store.\<close>

definition NewP2P :: "'s \<Rightarrow> (peer_ref \<Rightarrow> Peer) \<Rightarrow> 's world" where
  "NewP2P s heap = \<lparr>w_store = s, w_heap = heap, w_wire = [], w_closed = [], w_next = 0,
     w_started = False, w_starting = False, w_localNodeID = None,
     w_reconnectDelay = NewMap, w_peers = NewMap, w_peersPending = NewMap,
     w_outgoingPeerBlocklist = NewMap, w_incomingPeerBlockList = NewMap, w_incomingIPBlocklist = NewMap,
     w_outgoingPeerFailures = NewMap, w_hashQueryRoutingTable = NewMap, w_streams = NewMap, w_subs = NewMap,
     w_inited = False, w_dials = [], w_tasks = [], w_listening = [], w_fired = [],
     w_connections = 0, w_waiting = [], w_hungup = []\<rparr>"

section \<open>The services in turn\<close>

text \<open>\<open>Init\<close> of the HTTP and storage services, \<open>Start\<close> of the others and every \<open>Stop\<close> do nothing.\<close>

definition Registry_Init :: "'s env \<Rightarrow> 's world \<Rightarrow> unit outcome \<times> 's world" where
  "Registry_Init env w = store_step (v_openRegistry env) w"

definition Storage_Start :: "'s env \<Rightarrow> 's world \<Rightarrow> unit outcome \<times> 's world" where
  "Storage_Start env w = store_step (v_openCache env) w"

definition idle_service :: "'s world \<Rightarrow> unit outcome \<times> 's world" where
  "idle_service w = (Ok (), w)"

datatype service = Svc_P2P | Svc_Registry | Svc_HTTP | Svc_Storage

definition Services_All :: "service list" where
  "Services_All = [Svc_P2P, Svc_Registry, Svc_HTTP, Svc_Storage]"

primrec svc_Init :: "'s env \<Rightarrow> service \<Rightarrow> 's world \<Rightarrow> unit outcome \<times> 's world" where
  "svc_Init env Svc_P2P = P2P_Init env"
| "svc_Init env Svc_Registry = Registry_Init env"
| "svc_Init env Svc_HTTP = idle_service"
| "svc_Init env Svc_Storage = idle_service"

primrec svc_Start :: "'s env \<Rightarrow> service \<Rightarrow> 's world \<Rightarrow> unit outcome \<times> 's world" where
  "svc_Start env Svc_P2P = P2P_Start env"
| "svc_Start env Svc_Registry = idle_service"
| "svc_Start env Svc_HTTP = idle_service"
| "svc_Start env Svc_Storage = Storage_Start env"

definition svc_Stop :: "service \<Rightarrow> 's world \<Rightarrow> unit outcome \<times> 's world" where
  "svc_Stop svc = idle_service"

primrec each_service :: "(service \<Rightarrow> 's world \<Rightarrow> unit outcome \<times> 's world) \<Rightarrow> service list \<Rightarrow> 's world \<Rightarrow> unit outcome \<times> 's world" where
  "each_service f [] w = (Ok (), w)"
| "each_service f (svc # svcs) w = sbind (f svc w) (\<lambda>_ w. each_service f svcs w)"

definition Services_Init :: "'s env \<Rightarrow> 's world \<Rightarrow> unit outcome \<times> 's world" where
  "Services_Init env w =
     sbind (store_step (v_openDB env) w) (\<lambda>_ w.
       each_service (svc_Init env) Services_All w)"

definition Services_Start :: "'s env \<Rightarrow> 's world \<Rightarrow> unit outcome \<times> 's world" where
  "Services_Start env w =
     sbind (each_service (svc_Start env) Services_All (w\<lparr>w_starting := True\<rparr>)) (\<lambda>_ w.
       (Ok (), w\<lparr>w_started := True, w_starting := False\<rparr>))"

definition Services_Stop :: "'s world \<Rightarrow> unit outcome \<times> 's world" where
  "Services_Stop w =
     sbind (each_service svc_Stop Services_All w) (\<lambda>_ w.
       (Ok (), w\<lparr>w_started := False\<rparr>))"

text \<open>The methods of \<open>Node\<close>; the tables of message types that \<open>Start\<close> fills are constants here.\<close>

definition Node_IsStarted :: "'s world \<Rightarrow> bool" where "Node_IsStarted w = w_started w"

definition Node_Start :: "'s env \<Rightarrow> 's world \<Rightarrow> unit outcome \<times> 's world" where
  "Node_Start env w = Services_Start env w"

definition Node_Init :: "'s env \<Rightarrow> 's world \<Rightarrow> unit outcome \<times> 's world" where
  "Node_Init env w = Services_Init env w"

definition Node_Stop :: "'s world \<Rightarrow> unit outcome \<times> 's world" where
  "Node_Stop w = Services_Stop w"

definition Node_NetworkId :: "'s env \<Rightarrow> string" where "Node_NetworkId env = v_Network env"

definition Node_NodeId :: "'s world \<Rightarrow> node_ptr option" where "Node_NodeId w = w_localNodeID w"

section \<open>Facts\<close>

lemma start_connects_eq:
  "\<exists>ts. snd (start_connects env ps w) = w\<lparr>w_tasks := w_tasks w @ map Go_Connect ts\<rparr> \<and>
     (fst (start_connects env ps w) = Ok () \<longrightarrow> length ts = length ps)"
proof (induction ps arbitrary: w)
  case Nil
  show ?case by (rule exI [of _ "[]"]) simp
next
  case (Cons p ps)
  show ?case
  proof (cases "v_urlParse env p")
    case (Ok u)
    obtain ts where "snd (start_connects env ps (w\<lparr>w_tasks := w_tasks w @ [Go_Connect [u]]\<rparr>)) =
        w\<lparr>w_tasks := w_tasks w @ [Go_Connect [u]] @ map Go_Connect ts\<rparr>"
      "fst (start_connects env ps (w\<lparr>w_tasks := w_tasks w @ [Go_Connect [u]]\<rparr>)) = Ok () \<longrightarrow> length ts = length ps"
      using Cons.IH [of "w\<lparr>w_tasks := w_tasks w @ [Go_Connect [u]]\<rparr>"] by auto
    then show ?thesis using Ok by (intro exI [of _ "[u] # ts"]) simp
  qed (rule exI [of _ "[]"], simp)+
qed

lemma start_connects_all:
  "start_connects env ps w = (Ok (), w') \<longleftrightarrow> (\<exists>us. map (v_urlParse env) ps = map Ok us \<and>
     w' = w\<lparr>w_tasks := w_tasks w @ map (\<lambda>u. Go_Connect [u]) us\<rparr>)"
proof (induction ps arbitrary: w)
  case (Cons p ps)
  show ?case
  proof (cases "v_urlParse env p")
    case (Ok u)
    then show ?thesis using Cons by (auto simp: Cons_eq_map_conv)
  qed (auto simp: Cons_eq_map_conv)
qed auto

text \<open>The services in turn, without those that have nothing to do.\<close>

lemma sbind_return [simp]: "sbind m (\<lambda>_ w. (Ok (), w)) = m"
  by (cases m; cases "fst m") auto

lemma each_service_eq [simp]:
  "each_service (svc_Init env) Services_All w = sbind (P2P_Init env w) (\<lambda>_ w. Registry_Init env w)"
  "each_service (svc_Start env) Services_All w = sbind (P2P_Start env w) (\<lambda>_ w. Storage_Start env w)"
  "each_service svc_Stop Services_All w = (Ok (), w)"
  by (simp_all add: Services_All_def idle_service_def svc_Stop_def)

lemma Services_Stop_eq: "Services_Stop w = (Ok (), w\<lparr>w_started := False\<rparr>)"
  by (simp add: Services_Stop_def)

text \<open>A start that succeeds, and one that fails and leaves the node as if it were still starting.\<close>

lemma Services_Start_cases:
  "(\<exists>us s. Services_Start env w = (Ok (), w\<lparr>w_store := s, w_started := True, w_starting := False,
      w_tasks := w_tasks w @ map (\<lambda>u. Go_Connect [u]) us\<rparr>) \<and> map (v_urlParse env) (v_InitialPeers env) = map Ok us) \<or>
   (\<exists>r us s. Services_Start env w = (r, w\<lparr>w_store := s, w_starting := True, w_tasks := w_tasks w @ map Go_Connect us\<rparr>) \<and> r \<noteq> Ok ())"
proof -
  let ?w = "w\<lparr>w_starting := True\<rparr>"
  obtain r w1 where p2p: "P2P_Start env ?w = (r, w1)" by (cases "P2P_Start env ?w")
  show ?thesis
  proof (cases "r = Ok ()")
    case True
    then obtain us where us: "map (v_urlParse env) (v_InitialPeers env) = map Ok us"
      "w1 = ?w\<lparr>w_tasks := w_tasks ?w @ map (\<lambda>u. Go_Connect [u]) us\<rparr>"
      using p2p by (auto simp: P2P_Start_def start_connects_all)
    obtain q s where open': "v_openCache env (w_store w) = (q, s)" by (cases "v_openCache env (w_store w)")
    show ?thesis
    proof (cases "q = Ok ()")
      case True
      then have "Services_Start env w = (Ok (), w\<lparr>w_store := s, w_started := True, w_starting := False,
          w_tasks := w_tasks w @ map (\<lambda>u. Go_Connect [u]) us\<rparr>)"
        using p2p \<open>r = Ok ()\<close> us open' by (simp add: Services_Start_def Storage_Start_def store_step_def)
      with us(1) show ?thesis by blast
    next
      case False
      then have "Services_Start env w = (q, w\<lparr>w_store := s, w_starting := True,
          w_tasks := w_tasks w @ map Go_Connect (map (\<lambda>u. [u]) us)\<rparr>)"
        using p2p \<open>r = Ok ()\<close> us open'
        by (cases q) (simp_all add: Services_Start_def Storage_Start_def store_step_def comp_def)
      with False show ?thesis by blast
    qed
  next
    case False
    obtain ts where "w1 = ?w\<lparr>w_tasks := w_tasks w @ map Go_Connect ts\<rparr>"
      using start_connects_eq [of env "v_InitialPeers env" ?w] p2p by (auto simp: P2P_Start_def)
    then have "Services_Start env w = (r, w\<lparr>w_store := w_store w, w_starting := True, w_tasks := w_tasks w @ map Go_Connect ts\<rparr>)"
      using p2p False by (cases r) (simp_all add: Services_Start_def)
    with False show ?thesis by blast
  qed
qed

lemma block_all_frame [simp]:
  "w_peers (snd (block_all env ps w)) = w_peers w" "w_heap (snd (block_all env ps w)) = w_heap w"
  "w_next (snd (block_all env ps w)) = w_next w" "w_listening (snd (block_all env ps w)) = w_listening w"
  "w_tasks (snd (block_all env ps w)) = w_tasks w" "w_waiting (snd (block_all env ps w)) = w_waiting w"
  "w_connections (snd (block_all env ps w)) = w_connections w" "w_inited (snd (block_all env ps w)) = w_inited w"
  by (induction ps arbitrary: w) (simp_all add: sbind_snd split: outcome.split)

lemma block_all_Ok:
  "fst (block_all env ps w) = Ok () \<Longrightarrow> p \<in> set ps \<Longrightarrow>
    Map_Contains (w_incomingPeerBlockList (snd (block_all env ps w))) p \<and>
    Map_Contains (w_outgoingPeerBlocklist (snd (block_all env ps w))) p"
proof (induction ps arbitrary: w)
  case (Cons q ps)
  have keep: "Map_Contains (w_incomingPeerBlockList w) p \<and> Map_Contains (w_outgoingPeerBlocklist w) p \<Longrightarrow>
      Map_Contains (w_incomingPeerBlockList (snd (block_all env qs w))) p \<and>
      Map_Contains (w_outgoingPeerBlocklist (snd (block_all env qs w))) p" for qs w
    by (induction qs arbitrary: w) (simp_all add: sbind_snd split: outcome.split)
  show ?case
    using Cons keep by (auto simp: sbind_fst sbind_snd split: outcome.splits)
qed simp

lemma Services_Init_frame [simp]:
  "w_peers (snd (Services_Init env w)) = w_peers w" "w_heap (snd (Services_Init env w)) = w_heap w"
  "w_next w \<le> w_next (snd (Services_Init env w))" "w_listening (snd (Services_Init env w)) = w_listening w"
  "w_tasks (snd (Services_Init env w)) = w_tasks w" "w_waiting (snd (Services_Init env w)) = w_waiting w"
  "w_connections (snd (Services_Init env w)) = w_connections w"
  by (auto simp: Services_Init_def P2P_Init_def Registry_Init_def store_step_def alloc_def idle_service_def sbind_snd Let_def
      split: prod.split outcome.split)


text \<open>
  An entry of the blocklist that is no identity makes \<open>Init\<close> fail, but the service counts as
  initialised by then: the next \<open>Init\<close> does nothing and reports success.
\<close>

lemma Init_after_bad_blocklist:
  assumes "\<not> w_inited w" "PublicKey (v_KeyPair env) = Ok pk" "v_openNodes env (w_store w) = (Ok (), s)"
    and "P2P_Init env w = (Err e, w1)"
  shows "P2P_Init env w1 = (Ok (), w1)"
proof -
  have "w1 = snd (block_all env (v_Blocklist env) (w\<lparr>w_next := Suc (w_next w), w_localNodeID := Some (w_next w, NewNodeId pk),
      w_store := s, w_inited := True\<rparr>))"
    using assms by (simp add: P2P_Init_def alloc_def store_step_def Let_def)
  then have "w_inited w1" by simp
  then show ?thesis by (simp add: P2P_Init_def)
qed

lemma P2P_Init_blocks:
  assumes "\<not> w_inited w" "P2P_Init env w = (Ok (), w')" "b \<in> set (v_Blocklist env)"
  shows "Map_Contains (w_outgoingPeerBlocklist w') b"
proof -
  obtain v where "block_all env (v_Blocklist env) v = (Ok (), w')"
    using assms(1,2) by (auto simp: P2P_Init_def alloc_def Let_def sbind_eq_Ok)
  with block_all_Ok [of env "v_Blocklist env" v b] assms(3) show ?thesis by simp
qed

section \<open>Properties\<close>



end
