(* ===== verification/Node_Run.thy ===== *)
theory Node_Run
  imports Node_Protocol Http_Service Node_Life
begin

text \<open>
  The life of a node as a sequence of events, each handled to its end: connections that come
  in (the HTTP handler for \<open>/s5/p2p\<close>), goroutines that run, messages, connections that close,
  and calls of the services by the application. Lemmas: an invariant of every state a node
  can get to (who is in the peer table has completed the handshake and has an identity; who is
  listened to has a challenge of the node), and that every entry of the peer table goes back to
  a message in which that identity signed a challenge of the node.
\<close>

section \<open>Events\<close>

datatype node_event = Ev_Accept | Ev_Run go_task | Ev_Message peer_ref bool bytes
  | Ev_Close peer_ref | Ev_Listened peer_ref | Ev_Return peer_ref | Ev_Init | Ev_Start | Ev_Stop | Ev_Call

definition run_task :: "'s env \<Rightarrow> go_task \<Rightarrow> 's world \<Rightarrow> unit outcome \<times> 's world" where
  "run_task env t w =
     (let w = w\<lparr>w_tasks := remove1 t (w_tasks w)\<rparr> in
      case t of
        Go_OnNewPeer p verifyId \<Rightarrow>
          let w' = snd (OnNewPeer env p verifyId w)
          in if w_waiting w' = w_waiting w then Tracker_Done w' else (Ok (), w')
      | Go_Connect uris \<Rightarrow> ConnectToNode env uris 0 None w)"

text \<open>
  A message is handled by a goroutine of its own, which may still be waiting when the connection is
  closed and \<open>OnClose\<close> has run (\<open>Ws_Listen\<close>): a closed connection stays in \<open>w_listening\<close> until
  \<open>ListenForMessages\<close> returns (\<open>Ev_Listened\<close>). Then the \<open>OnNewPeer\<close> that waits for it returns,
  and its goroutine calls \<open>Done\<close>; one that did not get to the wait has done so at once.
\<close>

inductive node_step :: "'s env \<Rightarrow> 's world \<Rightarrow> node_event \<Rightarrow> 's world \<Rightarrow> bool" for env where
  ns_init: "node_step env w Ev_Init (snd (Services_Init env w))"
| ns_start: "node_step env w Ev_Start (snd (Services_Start env w))"
| ns_stop: "node_step env w Ev_Stop (snd (Services_Stop w))"
| ns_accept: "node_step env w Ev_Accept (p2pHandler env nl accepted r w)"
| ns_run: "t \<in> set (w_tasks w) \<Longrightarrow> node_step env w (Ev_Run t) (snd (run_task env t w))"
| ns_message: "(p, v) \<in> set (w_listening w) \<Longrightarrow>
    node_step env w (Ev_Message p v m) (snd (OnMessage env p v m w))"
| ns_close: "(p, v) \<in> set (w_listening w) \<Longrightarrow> p \<notin> set (w_hungup w) \<Longrightarrow>
    node_step env w (Ev_Close p) (OnPeerClose env p (w\<lparr>w_hungup := p # w_hungup w\<rparr>))"
| ns_listened: "p \<in> set (w_hungup w) \<Longrightarrow>
    node_step env w (Ev_Listened p) (w\<lparr>w_listening := filter (\<lambda>x. fst x \<noteq> p) (w_listening w)\<rparr>)"
| ns_return: "p \<in> set (w_waiting w) \<Longrightarrow> p \<notin> fst ` set (w_listening w) \<Longrightarrow>
    node_step env w (Ev_Return p) (snd (Tracker_Done (w\<lparr>w_waiting := remove1 p (w_waiting w)\<rparr>)))"
| ns_query: "node_step env w Ev_Call (snd (SendHashRequest env hash kinds w))"
| ns_set: "node_step env w Ev_Call (snd (Registry_Set env sre trusted from w))"
| ns_get: "node_step env w Ev_Call (snd (Registry_Get env pk w))"
| ns_add: "node_step env w Ev_Call (snd (AddStorageLocation env hash n loc msg w))"
| ns_find: "node_step env w Ev_Call (snd (GetCachedStorageLocations env hash kinds l w))"

inductive node_run :: "'s env \<Rightarrow> 's world \<Rightarrow> node_event list \<Rightarrow> 's world \<Rightarrow> bool" for env w0 where
  nr_start: "node_run env w0 [] w0"
| nr_step: "node_run env w0 es w \<Longrightarrow> node_step env w e w' \<Longrightarrow> node_run env w0 (es @ [e]) w'"

section \<open>Growth of the heap of peers\<close>

text \<open>
  What every operation but the start of a connection does to the peers that exist: challenges
  stay, and the marks of a finished handshake are not taken back.
\<close>

definition peer_le :: "Peer \<Rightarrow> Peer \<Rightarrow> bool" where
  "peer_le a b \<longleftrightarrow> pe_challenge b = pe_challenge a \<and> (pe_handshaked a \<longrightarrow> pe_handshaked b) \<and>
     (pe_id a \<noteq> None \<longrightarrow> pe_id b \<noteq> None) \<and>
     (pe_handshaked b \<longrightarrow> pe_handshaked a \<or> pe_id b \<noteq> None)"

definition heap_le :: "'s world \<Rightarrow> 's world \<Rightarrow> bool" where
  "heap_le w w' \<longleftrightarrow> w_next w \<le> w_next w' \<and> (\<forall>p < w_next w. peer_le (w_heap w p) (w_heap w' p))"

lemma peer_le_refl [simp]: "peer_le a a" by (simp add: peer_le_def)

lemma peer_le_trans: "peer_le a b \<Longrightarrow> peer_le b c \<Longrightarrow> peer_le a c"
  by (auto simp: peer_le_def)

lemma heap_le_refl [simp]: "heap_le w w" by (simp add: heap_le_def)

lemma heap_le_trans: "heap_le u v \<Longrightarrow> heap_le v w \<Longrightarrow> heap_le u w"
  unfolding heap_le_def by (meson le_trans less_le_trans peer_le_trans)

lemma heap_le_core: "core w' = core w \<Longrightarrow> heap_le w w'"
  by (simp add: core_def heap_le_def)


section \<open>Dialling\<close>

text \<open>
  The goroutines that run while one sleeps are taken to leave the connections alone: steps of
  connections are steps of their own here.
\<close>

definition calm :: "'s env \<Rightarrow> bool" where
  "calm env \<longleftrightarrow> (\<forall>w. core (v_others env w) = core w)"

text \<open>
  What dialling does: it makes new peers, with an identity, and starts a goroutine for each.
\<close>

definition new_dialled :: "'s world \<Rightarrow> go_task \<Rightarrow> bool" where
  "new_dialled w t \<longleftrightarrow> (\<exists>p. t = Go_OnNewPeer p True \<and> p < w_next w \<and> pe_id (w_heap w p) \<noteq> None)"

definition connect_effect :: "'s world \<Rightarrow> 's world \<Rightarrow> bool" where
  "connect_effect w w' \<longleftrightarrow> heap_le w w' \<and> w_peers w' = w_peers w \<and> w_listening w' = w_listening w \<and>
     w_waiting w' = w_waiting w \<and> w_hungup w' = w_hungup w \<and> (\<exists>ts. w_tasks w' = w_tasks w @ ts \<and>
       w_connections w' = w_connections w + int (length ts) \<and> (\<forall>t \<in> set ts. new_dialled w' t))"

lemma new_dialled_le: "new_dialled v t \<Longrightarrow> heap_le v w \<Longrightarrow> new_dialled w t"
  by (auto simp: new_dialled_def heap_le_def peer_le_def)

lemma connect_effect_core: "core w' = core w \<Longrightarrow> connect_effect w w'"
  by (simp add: connect_effect_def heap_le_core) (simp add: core_def)

lemma connect_effect_refl [simp]: "connect_effect w w"
  by (rule connect_effect_core) (rule refl)

lemma connect_effect_trans:
  assumes "connect_effect u v" "connect_effect v w"
  shows "connect_effect u w"
proof -
  obtain ts us where *: "w_tasks v = w_tasks u @ ts" "\<forall>t \<in> set ts. new_dialled v t"
    "w_tasks w = w_tasks v @ us" "\<forall>t \<in> set us. new_dialled w t" and le: "heap_le v w"
    and count: "w_connections v = w_connections u + int (length ts)" "w_connections w = w_connections v + int (length us)"
    using assms unfolding connect_effect_def by blast
  then have "w_tasks w = w_tasks u @ ts @ us" "\<forall>t \<in> set (ts @ us). new_dialled w t"
    "w_connections w = w_connections u + int (length (ts @ us))"
    using new_dialled_le [OF _ le] by auto
  then show ?thesis
    using assms heap_le_trans unfolding connect_effect_def by metis
qed

lemma EndForAbuse_effect: "connect_effect w (snd (EndForAbuse env p w))"
  by (auto simp: connect_effect_def EndForAbuse_def peer_End_def upd_peer_def heap_le_def peer_le_def split: option.split)

lemma block_sender_effect: "connect_effect w (snd (block_sender env from w))"
proof -
  have same: "connect_effect w (snd (EndForAbuse env p v))" if "core v = core w" for p v
    using connect_effect_trans [OF connect_effect_core [OF that] EndForAbuse_effect] .
  show ?thesis
    by (auto simp: block_sender_def sbind_snd Let_def core_def intro!: same
        split: option.split outcome.split)
qed

lemma give_up_effect: "connect_effect w (snd (give_up env i from w))"
proof -
  have "connect_effect w (f (snd (block_sender env from v)))" if "core v = core w" "\<And>w. core (f w) = core w" for v f
    using that connect_effect_trans block_sender_effect connect_effect_core by metis
  from this [where f = "\<lambda>w. w\<lparr>w_outgoingPeerBlocklist := Map_Put (w_outgoingPeerBlocklist w) i True\<rparr>"]
    this [where f = "\<lambda>w. w"]
  show ?thesis
    by (auto simp: give_up_def sbind_snd Let_def core_def intro: connect_effect_core split: outcome.split)
qed

lemma back_off_effect: "calm env \<Longrightarrow> connect_effect w (snd (back_off env i w))"
  by (rule connect_effect_core) (simp add: back_off_def calm_def core_def sbind_snd split: outcome.split)

text \<open>
  The counter goes up before the text of the identity is asked for again, but that cannot fail:
  \<open>ConnectToNode\<close> has asked for it before.
\<close>

lemma connected_effect:
  "NodeId_ToString (v_mb env) n = Ok i \<Longrightarrow> connect_effect w (snd (connected env i n u s w))"
  by (auto simp: connected_def CreateTransportPeer_def alloc_def upd_peer_def peer_SetId_def sbind_snd Let_def
      connect_effect_def heap_le_def new_dialled_def id_ToString_def peer_Id_def split: outcome.split)

lemma attempt_effect:
  assumes "calm env" "NodeId_ToString (v_mb env) n = Ok i"
  shows "connect_effect w (snd (attempt env i n u retry from w))"
proof -
  let ?w = "snd (CreateTransportSocket env (url_Scheme u) u w)"
  have sock: "connect_effect w ?w"
    by (rule connect_effect_core) (simp add: CreateTransportSocket_def core_def)
  note after = sock connect_effect_trans [OF sock give_up_effect] connect_effect_trans [OF sock connected_effect [OF assms(2)]]
    connect_effect_trans [OF sock back_off_effect [OF assms(1)]]
  show ?thesis
    by (simp add: attempt_def case_outcome_snd sbind_snd after split: outcome.split)
qed

lemma ConnectToNode_effect:
  assumes "calm env"
  shows "connect_effect w (snd (ConnectToNode env uris retry from w))"
  using assms
proof (induction env uris retry "from" w rule: ConnectToNode.induct)
  case (1 env uris retry "from" w)
  have once: "connect_effect w (snd (connect_once env uris retry from w))"
    using connect_once_cases [of env uris retry "from" w] attempt_effect [OF "1.prems"] block_sender_effect [of w env "from"]
    by (auto simp: sbind_snd may_dial_def split: outcome.split)
  show ?case
    using once connect_effect_trans [OF once] 1
    by (subst ConnectToNode.simps) (auto split: prod.splits outcome.splits bool.splits)
qed

section \<open>Messages\<close>

lemma OnMessage_other_effect:
  assumes "calm env" "\<nexists>s h. closing_handshake env message s h"
  shows "connect_effect w (snd (OnMessage env p verifyId message w))"
proof -
  have calm: "\<forall>w. core (v_others env w) = core w" using assms(1) by (simp add: calm_def)
  have next': "connect_effect w w'" if "connect_effect (w\<lparr>w_next := Suc (w_next w)\<rparr>) w'" for w' :: "'a world"
    using that by (auto simp: connect_effect_def heap_le_def)
  have announce: "connect_effect w (snd (AnnouncePeers_HandleMessage env uris p w))" for uris w
    using ConnectToNode_effect [OF assms(1)]
    by (simp add: AnnouncePeers_HandleMessage_def Mediator_ConnectToNode_def split: list.split)
  have handlers:
    "connect_effect w (snd (HandshakeOpen_HandleMessage env ho p w))"
    "connect_effect w (snd (HashQuery_HandleMessage env h msg p w))"
    "connect_effect w (snd (StorageLocation_HandleMessage env msg w))"
    "connect_effect w (snd (RegistryEntryRequest_HandleMessage env sre p w))"
    "connect_effect w (snd (RegistryQuery_HandleMessage env pk p w))" for ho h msg sre pk and w :: "'a world"
    by (rule connect_effect_core, simp add: core.view_RegistryQuery [OF calm])+
  show ?thesis
  proof (cases "\<exists>m. IncomingMessageReader_DecodeMsgpack (v_mp env) message = Ok m \<and>
      GetMessageType (imr_Kind m) = Some T_SignedMessage")
    case True
    with assms show ?thesis
      by (auto simp: OnMessage_def dispatch_to_def alloc_def SignedMessage_HandleMessage_def
          RequiresHandshake_def closing_handshake_def sbind_snd next' [OF announce] next' [OF connect_effect_refl]
          split: outcome.split option.split prod.split signed_message_type.split)
  next
    case False
    then show ?thesis
      using handlers by (auto simp: OnMessage_def dispatch_to_def sbind_snd split: outcome.split option.split message_type.split)
  qed
qed


section \<open>What holds in every state of a node\<close>

text \<open>
  A connection the node knows of exists, and once its handshake is marked as done it has an
  identity; a connection that is read has a challenge that the node made, and an identity to
  compare with, if it has to be compared; what is in the peer table has completed the handshake.
\<close>

definition known_peers :: "'s world \<Rightarrow> peer_ref set" where
  "known_peers w = fst ` set (w_listening w) \<union> snd ` set (w_peers w) \<union> {p. \<exists>v. Go_OnNewPeer p v \<in> set (w_tasks w)}"

definition own_challenges :: "'s env \<Rightarrow> 's world \<Rightarrow> bool" where
  "own_challenges env w \<longleftrightarrow>
     (\<forall>(p, v) \<in> set (w_listening w). \<exists>c. pe_challenge (w_heap w p) = v_challenge env c)"

definition node_wf :: "'s env \<Rightarrow> 's world \<Rightarrow> bool" where
  "node_wf env w \<longleftrightarrow> own_challenges env w \<and>
     (\<forall>p \<in> known_peers w. p < w_next w \<and> (pe_handshaked (w_heap w p) \<longrightarrow> pe_id (w_heap w p) \<noteq> None)) \<and>
     (\<forall>p. (p, True) \<in> set (w_listening w) \<or> Go_OnNewPeer p True \<in> set (w_tasks w) \<longrightarrow> pe_id (w_heap w p) \<noteq> None) \<and>
     (\<forall>p \<in> snd ` set (w_peers w). pe_handshaked (w_heap w p))"

lemma node_wfE:
  assumes "node_wf env w"
  obtains "own_challenges env w" "\<And>p. p \<in> known_peers w \<Longrightarrow> p < w_next w"
    "\<And>p. p \<in> known_peers w \<Longrightarrow> pe_handshaked (w_heap w p) \<Longrightarrow> pe_id (w_heap w p) \<noteq> None"
    "\<And>p. (p, True) \<in> set (w_listening w) \<Longrightarrow> pe_id (w_heap w p) \<noteq> None"
    "\<And>p. Go_OnNewPeer p True \<in> set (w_tasks w) \<Longrightarrow> pe_id (w_heap w p) \<noteq> None"
    "\<And>p. p \<in> snd ` set (w_peers w) \<Longrightarrow> pe_handshaked (w_heap w p)"
  using assms unfolding node_wf_def by blast

lemma known_peersI:
  "(p, v) \<in> set (w_listening w) \<Longrightarrow> p \<in> known_peers w"
  "Go_OnNewPeer p v \<in> set (w_tasks w) \<Longrightarrow> p \<in> known_peers w"
  "p \<in> snd ` set (w_peers w) \<Longrightarrow> p \<in> known_peers w"
  by (force simp: known_peers_def)+

lemma known_peersE:
  assumes "p \<in> known_peers w"
  obtains v where "(p, v) \<in> set (w_listening w)" | "p \<in> snd ` set (w_peers w)"
    | v where "Go_OnNewPeer p v \<in> set (w_tasks w)"
  using assms unfolding known_peers_def by (elim UnE imageE CollectE exE) auto

text \<open>
  One rule for all steps that let the heap grow and add to the tables no more than they may.
\<close>

lemma node_wf_mono:
  fixes w w' :: "'s world"
  assumes "node_wf env w" and le: "heap_le w w'"
    and listening: "set (w_listening w') \<subseteq> set (w_listening w)"
    and peers: "\<And>p. p \<in> snd ` set (w_peers w') \<Longrightarrow>
      p \<in> snd ` set (w_peers w) \<or> p \<in> known_peers w \<and> pe_handshaked (w_heap w' p)"
    and tasks: "\<And>p v. Go_OnNewPeer p v \<in> set (w_tasks w') \<Longrightarrow> Go_OnNewPeer p v \<in> set (w_tasks w) \<or>
      p < w_next w' \<and> (pe_handshaked (w_heap w' p) \<or> v \<longrightarrow> pe_id (w_heap w' p) \<noteq> None)"
  shows "node_wf env w'"
proof (rule node_wfE [OF assms(1)])
  assume wf: "own_challenges env w" "\<And>p. p \<in> known_peers w \<Longrightarrow> p < w_next w"
    "\<And>p. p \<in> known_peers w \<Longrightarrow> pe_handshaked (w_heap w p) \<Longrightarrow> pe_id (w_heap w p) \<noteq> None"
    "\<And>p. (p, True) \<in> set (w_listening w) \<Longrightarrow> pe_id (w_heap w p) \<noteq> None"
    "\<And>p. Go_OnNewPeer p True \<in> set (w_tasks w) \<Longrightarrow> pe_id (w_heap w p) \<noteq> None"
    "\<And>p. p \<in> snd ` set (w_peers w) \<Longrightarrow> pe_handshaked (w_heap w p)"
  have grow: "peer_le (w_heap w p) (w_heap w' p)" "p < w_next w'" if "p \<in> known_peers w" for p
    using le wf(2) [OF that] by (auto simp: heap_le_def)
  have old: "p < w_next w' \<and> (pe_handshaked (w_heap w' p) \<longrightarrow> pe_id (w_heap w' p) \<noteq> None)"
    if "p \<in> known_peers w" for p
    using grow [OF that] wf(3) [OF that] by (auto simp: peer_le_def)
  have "own_challenges env w'"
    unfolding own_challenges_def
  proof clarify
    fix p v assume "(p, v) \<in> set (w_listening w')"
    then have *: "(p, v) \<in> set (w_listening w)" using listening by blast
    then obtain c where "pe_challenge (w_heap w p) = v_challenge env c"
      using wf(1) unfolding own_challenges_def by blast
    then show "\<exists>c. pe_challenge (w_heap w' p) = v_challenge env c"
      using grow(1) [OF known_peersI(1) [OF *]] by (auto simp: peer_le_def)
  qed
  moreover have "p < w_next w' \<and> (pe_handshaked (w_heap w' p) \<longrightarrow> pe_id (w_heap w' p) \<noteq> None)"
    if "p \<in> known_peers w'" for p
  proof -
    from that show ?thesis
    proof (cases rule: known_peersE)
      case (1 v)
      then show ?thesis using old [OF known_peersI(1)] listening by blast
    next
      case 2
      then show ?thesis using peers old known_peersI(3) by blast
    next
      case (3 v)
      then show ?thesis using tasks [OF 3] old known_peersI(2) by blast
    qed
  qed
  moreover have "pe_id (w_heap w' p) \<noteq> None"
    if "(p, True) \<in> set (w_listening w') \<or> Go_OnNewPeer p True \<in> set (w_tasks w')" for p
  proof -
    have "p \<in> known_peers w \<and> pe_id (w_heap w p) \<noteq> None \<or> pe_id (w_heap w' p) \<noteq> None"
      using that listening wf(4,5) tasks [of p True] known_peersI(1,2) by blast
    then show ?thesis using grow(1) by (auto simp: peer_le_def)
  qed
  moreover have "pe_handshaked (w_heap w' p)" if "p \<in> snd ` set (w_peers w')" for p
  proof (cases "p \<in> snd ` set (w_peers w)")
    case True
    then show ?thesis using wf(6) [OF True] grow(1) [OF known_peersI(3) [OF True]] by (simp add: peer_le_def)
  next
    case False
    then show ?thesis using peers [OF that] by blast
  qed
  ultimately show ?thesis unfolding node_wf_def by blast
qed

lemma node_wf_connect:
  assumes "node_wf env w" "connect_effect w w'"
  shows "node_wf env w'"
proof -
  obtain ts where ts: "w_tasks w' = w_tasks w @ ts" "\<forall>t \<in> set ts. new_dialled w' t"
    and same: "heap_le w w'" "w_peers w' = w_peers w" "w_listening w' = w_listening w"
    using assms(2) unfolding connect_effect_def by blast
  have "v \<and> p < w_next w' \<and> pe_id (w_heap w' p) \<noteq> None" if "Go_OnNewPeer p v \<in> set ts" for p v
    using bspec [OF ts(2) that] by (simp add: new_dialled_def)
  with assms(1) same(1) show ?thesis
    by (rule_tac node_wf_mono [of env w]) (auto simp: same ts(1))
qed

lemma node_wf_core: "node_wf env w \<Longrightarrow> core w' = core w \<Longrightarrow> node_wf env w'"
  using node_wf_connect connect_effect_core by blast


section \<open>The steps\<close>

lemma accept_wf:
  assumes "node_wf env w"
  shows "node_wf env (p2pHandler env nl accepted r w)" (is "node_wf env ?w")
proof (rule p2pHandler_cases [of env nl accepted r w])
  fix p assume new: "p = w_next w" "w_next ?w = Suc p" "\<And>q. q \<noteq> p \<Longrightarrow> w_heap ?w q = w_heap w q"
    "\<not> pe_handshaked (w_heap ?w p)" "w_peers ?w = w_peers w" "w_listening ?w = w_listening w"
    "w_waiting ?w = w_waiting w"
    "(w_tasks ?w, w_connections ?w) \<in> {(w_tasks w, w_connections w), (w_tasks w @ [Go_OnNewPeer p False], w_connections w + 1)}"
  have "heap_le w ?w" using new(1-3) by (auto simp: heap_le_def)
  with assms show ?thesis
  proof (rule node_wf_mono)
    fix q v assume "Go_OnNewPeer q v \<in> set (w_tasks ?w)"
    then have "Go_OnNewPeer q v \<in> set (w_tasks w) \<or> q = p \<and> \<not> v" using new(8) by auto
    then show "Go_OnNewPeer q v \<in> set (w_tasks w) \<or>
        q < w_next ?w \<and> (pe_handshaked (w_heap ?w q) \<or> v \<longrightarrow> pe_id (w_heap ?w q) \<noteq> None)"
      using new(2,4) by auto
  qed (simp_all add: new(5,6))
qed (use assms in simp)

text \<open>The steps of the life of the node leave its connections alone.\<close>

lemma lifecycle_wf:
  assumes "node_wf env w"
  shows "node_wf env (snd (Services_Init env w))" "node_wf env (snd (Services_Start env w))"
    "node_wf env (snd (Services_Stop w))"
proof -
  show "node_wf env (snd (Services_Init env w))"
    using assms by (rule node_wf_mono) (simp_all add: heap_le_def)
  show "node_wf env (snd (Services_Start env w))"
    using assms Services_Start_cases [of env w] by (auto elim!: node_wf_mono simp: heap_le_def)
  show "node_wf env (snd (Services_Stop w))"
    using assms by (rule node_wf_mono) (simp_all add: heap_le_def Services_Stop_eq)
qed

text \<open>The start of a connection gives it a challenge of the node; it is the only step that changes one.\<close>

definition listening_core where
  "listening_core env w p v c ws = (w_peers w, (w_heap w)(p := (w_heap w p)\<lparr>pe_challenge := v_challenge env c\<rparr>),
     Suc (w_next w), w_listening w @ [(p, v)], w_tasks w, w_connections w, w_waiting w @ ws, w_hungup w)"

lemma OnNewPeer_cases:
  "connect_effect w (snd (OnNewPeer env p v w)) \<and> w_waiting (snd (OnNewPeer env p v w)) = w_waiting w \<or>
   (\<exists>c. core (snd (OnNewPeer env p v w)) = listening_core env w p v c []) \<or>
   (\<exists>c. core (snd (OnNewPeer env p v w)) = listening_core env w p v c [p])"
proof (cases "snd (OnNewPeer env p v w) = snd (EndForAbuse env p w)")
  case True
  then show ?thesis using EndForAbuse_effect [of w env p] by (simp add: connect_effect_def)
next
  case False
  then have "core (snd (OnNewPeer env p v w)) = listening_core env w p v (w_next w) [] \<or>
      core (snd (OnNewPeer env p v w)) = listening_core env w p v (w_next w) [p]"
    by (auto simp: OnNewPeer_def Let_def alloc_def peer_SetChallenge_def upd_peer_def listening_core_def sbind_snd
        SendMessage_def core_def split: if_splits option.split)
  then show ?thesis by blast
qed

lemma node_wf_listen:
  assumes "node_wf env w" "p \<in> known_peers w" "v \<longrightarrow> pe_id (w_heap w p) \<noteq> None"
    and "core w' = listening_core env w p v c ws"
  shows "node_wf env w'"
proof (rule node_wfE [OF assms(1)])
  assume wf: "own_challenges env w" "\<And>p. p \<in> known_peers w \<Longrightarrow> p < w_next w"
    "\<And>p. p \<in> known_peers w \<Longrightarrow> pe_handshaked (w_heap w p) \<Longrightarrow> pe_id (w_heap w p) \<noteq> None"
    "\<And>p. (p, True) \<in> set (w_listening w) \<Longrightarrow> pe_id (w_heap w p) \<noteq> None"
    "\<And>p. Go_OnNewPeer p True \<in> set (w_tasks w) \<Longrightarrow> pe_id (w_heap w p) \<noteq> None"
    "\<And>p. p \<in> snd ` set (w_peers w) \<Longrightarrow> pe_handshaked (w_heap w p)"
  have eq: "w_peers w' = w_peers w" "w_heap w' = (w_heap w)(p := (w_heap w p)\<lparr>pe_challenge := v_challenge env c\<rparr>)"
    "w_next w' = Suc (w_next w)" "w_listening w' = w_listening w @ [(p, v)]" "w_tasks w' = w_tasks w"
    using assms(4) by (simp_all add: core_def listening_core_def)
  have same: "pe_id (w_heap w' q) = pe_id (w_heap w q)" "pe_handshaked (w_heap w' q) = pe_handshaked (w_heap w q)" for q
    by (simp_all add: eq)
  have "known_peers w' = known_peers w"
    using assms(2) by (auto simp: known_peers_def eq)
  moreover have "own_challenges env w'"
    using wf(1) by (auto simp: own_challenges_def eq)
  ultimately show ?thesis
    using wf(2-6) assms(3) unfolding node_wf_def same by (auto simp: eq less_Suc_eq)
qed

lemma node_wf_untask: "node_wf env w \<Longrightarrow> node_wf env (w\<lparr>w_tasks := remove1 t (w_tasks w)\<rparr>)"
  by (erule node_wf_mono) (auto simp: heap_le_def dest: in_set_remove1 [THEN iffD1, rotated] notin_set_remove1)


lemma Map_Put_values: "snd ` set (Map_Put m k v) \<subseteq> insert v (snd ` set m)"
  by (induction m) (auto simp: Map_Put_def)

lemma Map_Remove_subset: "set (Map_Remove m k) \<subseteq> set m"
  by (auto simp: Map_Remove_def AList.delete_eq)

lemma HandshakeDone_wf:
  assumes "multibase_laws (v_mb env)" "node_wf env w" "p \<in> known_peers w"
  shows "node_wf env (snd (HandshakeDone_HandleMessage env h p v (a, n) w))" (is "node_wf env ?w")
proof (cases "w_started w \<and> pe_challenge (w_heap w p) = hd_challenge h \<and> (v \<longrightarrow> (\<exists>b. peer_Id w p = Some (b, n)))")
  case False
  then have "?w \<in> {w, w\<lparr>w_closed := w_closed w @ [p]\<rparr>}" using HandshakeDone_outside [OF assms(1)] by blast
  then have "core ?w = core w" by (auto simp: core_def)
  with assms(2) show ?thesis by (rule node_wf_core)
next
  case True
  obtain s where s: "NodeId_ToString (v_mb env) n = Ok s" using NodeId_ToString_total [OF assms(1)] by blast
  obtain us m where core: "core ?w = (m, (w_heap w)(p := (handshake_peer v (a, n) (w_heap w p))\<lparr>pe_connectionURIs := us\<rparr>),
      w_next w, w_listening w, w_tasks w, w_connections w, w_waiting w, w_hungup w)" "m \<in> {w_peers w, Map_Put (w_peers w) s p}"
  proof (cases "hd_supportedFeatures h = SupportedFeatures")
    case True
    then show thesis
      using HandshakeDone_accepted [OF assms(1) s, of w p h v a] \<open>w_started w \<and> _\<close> that by blast
  next
    case False
    have "(handshake_peer v (a, n) (w_heap w p))\<lparr>pe_connectionURIs := pe_connectionURIs (w_heap w p)\<rparr> =
        handshake_peer v (a, n) (w_heap w p)" by (simp add: handshake_peer_def)
    then show thesis
      using HandshakeDone_frame(5) [OF assms(1), of w p h v n a] \<open>w_started w \<and> _\<close> False
        that [of "w_peers w" "pe_connectionURIs (w_heap w p)"] by simp
  qed
  have eq: "w_peers ?w = m" "w_heap ?w = (w_heap w)(p := (handshake_peer v (a, n) (w_heap w p))\<lparr>pe_connectionURIs := us\<rparr>)"
    "w_next ?w = w_next w" "w_listening ?w = w_listening w" "w_tasks ?w = w_tasks w"
    using core(1) by (simp_all add: core_def)
  have "heap_le w ?w"
    using True by (auto simp: heap_le_def eq peer_le_def handshake_peer_def peer_Id_def)
  then show ?thesis
  proof (rule node_wf_mono [OF assms(2)])
    fix q assume "q \<in> snd ` set (w_peers ?w)"
    then have "q = p \<or> q \<in> snd ` set (w_peers w)" using core(2) Map_Put_values [of "w_peers w" s p] unfolding eq(1) by blast
    then show "q \<in> snd ` set (w_peers w) \<or> q \<in> known_peers w \<and> pe_handshaked (w_heap ?w q)"
      using assms(3) by (auto simp: eq handshake_peer_def)
  qed (simp_all add: eq)
qed

lemma OnMessage_wf:
  assumes "multibase_laws (v_mb env)" "calm env" "node_wf env w" "p \<in> known_peers w"
  shows "node_wf env (snd (OnMessage env p v message w))"
proof (cases "\<exists>s h. closing_handshake env message s h")
  case True
  then obtain s h where "closing_handshake env message s h" by blast
  note eq = OnMessage_handshake [OF this]
  have "node_wf env (w\<lparr>w_next := Suc (w_next w)\<rparr>)"
    using assms(3) by (rule node_wf_mono) (auto simp: heap_le_def dest: node_wfE [OF assms(3)] intro: known_peersI)
  moreover have "p \<in> known_peers (w\<lparr>w_next := Suc (w_next w)\<rparr>)" using assms(4) by (simp add: known_peers_def)
  ultimately show ?thesis unfolding eq by (rule HandshakeDone_wf [OF assms(1)])
next
  case False
  with assms(2,3) OnMessage_other_effect node_wf_connect show ?thesis by blast
qed

lemma close_peer_frame [simp]:
  "w_heap (OnPeerClose env p w) = w_heap w" "w_next (OnPeerClose env p w) = w_next w"
  "w_tasks (OnPeerClose env p w) = w_tasks w" "w_listening (OnPeerClose env p w) = w_listening w"
  by (simp_all add: OnPeerClose_def Let_def split: option.split outcome.split)

lemma close_peer_table:
  "w_peers (OnPeerClose env p w) = w_peers w \<or> (\<exists>s. w_peers (OnPeerClose env p w) = Map_Remove (w_peers w) s)"
  by (auto simp: OnPeerClose_def Let_def split: option.split outcome.split)

lemma close_wf:
  assumes "node_wf env w"
  shows "node_wf env (OnPeerClose env p w)"
  using assms
proof (rule node_wf_mono)
  have "set (w_peers (OnPeerClose env p w)) \<subseteq> set (w_peers w)"
    using close_peer_table [of env p w] by (auto dest: subsetD [OF Map_Remove_subset])
  then show "q \<in> snd ` set (w_peers w) \<or> q \<in> known_peers w \<and> pe_handshaked (w_heap (OnPeerClose env p w) q)"
    if "q \<in> snd ` set (w_peers (OnPeerClose env p w))" for q using that by blast
qed (auto simp: heap_le_def)

text \<open>The counter and the goroutines that wait do not matter for what always holds of the connections.\<close>

lemma node_wf_count:
  "node_wf env (w\<lparr>w_connections := n\<rparr>) = node_wf env w" "node_wf env (w\<lparr>w_waiting := ps\<rparr>) = node_wf env w"
  "node_wf env (w\<lparr>w_hungup := ps\<rparr>) = node_wf env w" "node_wf env (snd (Tracker_Done w)) = node_wf env w"
  by (simp_all add: node_wf_def own_challenges_def known_peers_def Tracker_Done_def Let_def)

lemma snd_run_task:
  "snd (run_task env (Go_OnNewPeer p v) w) \<in> {snd (OnNewPeer env p v (w\<lparr>w_tasks := remove1 (Go_OnNewPeer p v) (w_tasks w)\<rparr>)),
     snd (Tracker_Done (snd (OnNewPeer env p v (w\<lparr>w_tasks := remove1 (Go_OnNewPeer p v) (w_tasks w)\<rparr>))))}"
  by (simp add: run_task_def Let_def)

lemma run_task_wf:
  assumes "calm env" "node_wf env w" "t \<in> set (w_tasks w)"
  shows "node_wf env (snd (run_task env t w))"
proof -
  let ?w = "w\<lparr>w_tasks := remove1 t (w_tasks w)\<rparr>"
  note wf = node_wf_untask [OF assms(2), of t]
  show ?thesis
  proof (cases t)
    case (Go_Connect uris)
    then show ?thesis
      using node_wf_connect [OF wf ConnectToNode_effect [OF assms(1)]] by (simp add: run_task_def)
  next
    case (Go_OnNewPeer p v)
    have "p \<in> known_peers w" using assms(3) Go_OnNewPeer known_peersI(2) by blast
    moreover have "v \<longrightarrow> pe_id (w_heap w p) \<noteq> None"
      using assms(3) Go_OnNewPeer node_wfE [OF assms(2)] by (cases v) auto
    ultimately have listen: "node_wf env u" if "core u = listening_core env w p v c ws" for u c ws
      using node_wf_listen [OF assms(2)] that by blast
    have "node_wf env u" if "core u = listening_core env ?w p v c ws" for u c ws
    proof -
      let ?v = "w\<lparr>w_heap := (w_heap w)(p := (w_heap w p)\<lparr>pe_challenge := v_challenge env c\<rparr>),
        w_next := Suc (w_next w), w_listening := w_listening w @ [(p, v)], w_waiting := w_waiting w @ ws\<rparr>"
      have "node_wf env ?v" by (rule listen [of ?v c ws]) (simp add: core_def listening_core_def)
      from node_wf_core [OF node_wf_untask [OF this, of t]] that show ?thesis by (simp add: core_def listening_core_def)
    qed
    then have "node_wf env (snd (OnNewPeer env p v ?w))"
      using OnNewPeer_cases [of ?w env p v] node_wf_connect [OF wf] by blast
    then show ?thesis using snd_run_task [of env p v w] by (auto simp: node_wf_count Go_OnNewPeer)
  qed
qed

lemma SendHashRequest_core [simp]: "core (snd (SendHashRequest env hash kinds w)) = core w"
  by (simp add: SendHashRequest_def)

lemma service_wf:
  assumes "calm env" "node_wf env w"
  shows "node_wf env (snd (SendHashRequest env hash kinds w))" "node_wf env (snd (Registry_Set env sre t from w))"
    "node_wf env (snd (Registry_Get env pk w))" "node_wf env (snd (AddStorageLocation env hash n loc msg w))"
    "node_wf env (snd (GetCachedStorageLocations env hash kinds l w))"
  using assms(1) core.view_Registry_Get [of env]
  by (auto simp: calm_def intro!: node_wf_core [OF assms(2)])


text \<open>A step adds to the peer table no more than one authenticated connection.\<close>

lemma OnNewPeer_peers: "w_peers (snd (OnNewPeer env p v w)) = w_peers w"
  using OnNewPeer_cases [of w env p v] by (auto simp: connect_effect_def core_def listening_core_def)

lemma Tracker_Done_peers [simp]: "w_peers (snd (Tracker_Done w)) = w_peers w"
  by (simp add: Tracker_Done_def Let_def)

lemma run_task_peers: "calm env \<Longrightarrow> w_peers (snd (run_task env t w)) = w_peers w"
  using ConnectToNode_effect [of env "w\<lparr>w_tasks := remove1 t (w_tasks w)\<rparr>"]
  by (cases t) (simp_all add: run_task_def OnNewPeer_peers connect_effect_def Let_def)

lemma service_peers:
  assumes "calm env"
  shows "w_peers (snd (SendHashRequest env hash kinds w)) = w_peers w"
    "w_peers (snd (Registry_Get env pk w)) = w_peers w"
  using peers.view_Registry_Get [of env] assms
  by (auto simp: SendHashRequest_def calm_def core_def)

lemma accept_peers: "w_peers (p2pHandler env nl accepted r w) = w_peers w"
  by (rule p2pHandler_cases [of env nl accepted r w]) simp_all

lemma lifecycle_peers:
  "w_peers (snd (Services_Start env w)) = w_peers w" "w_peers (snd (Services_Stop w)) = w_peers w"
  using Services_Start_cases [of env w] by (auto simp: Services_Stop_eq)

definition entered :: "'s env \<Rightarrow> string \<Rightarrow> peer_ref \<Rightarrow> node_event \<Rightarrow> bool" where
  "entered env s p e \<longleftrightarrow> (\<exists>v m n c. e = Ev_Message p v m \<and> handshake_proof env (v_challenge env c) m n \<and>
     NodeId_ToString (v_mb env) n = Ok s)"

lemma OnMessage_enters:
  assumes "multibase_laws (v_mb env)" "calm env" "node_wf env w" "(p, v) \<in> set (w_listening w)"
    and "Map_Get (w_peers (snd (OnMessage env p v m w))) s = Some q"
  shows "Map_Get (w_peers w) s = Some q \<or> entered env s q (Ev_Message p v m)"
proof (cases "\<exists>sm h. closing_handshake env m sm h")
  case True
  then obtain sm h where c: "closing_handshake env m sm h" by blast
  let ?w = "w\<lparr>w_next := Suc (w_next w)\<rparr>"
  obtain k where "pe_challenge (w_heap w p) = v_challenge env k"
    using node_wfE [OF assms(3)] assms(4) unfolding own_challenges_def by blast
  then have "handshake_proof env (v_challenge env k) m (sm_nodeId sm)" if "pe_challenge (w_heap w p) = hd_challenge h"
    using c that by (auto simp: handshake_proof_def)
  then have new: "entered env t p (Ev_Message p v m)"
    if "pe_challenge (w_heap w p) = hd_challenge h" "NodeId_ToString (v_mb env) (sm_nodeId sm) = Ok t" for t
    using that unfolding entered_def by blast
  have "w_peers (snd (OnMessage env p v m w)) = w_peers w \<or> (\<exists>t. entered env t p (Ev_Message p v m) \<and>
      w_peers (snd (OnMessage env p v m w)) = Map_Put (w_peers w) t p)"
    using HandshakeDone_peers [OF assms(1), of h p v "w_next w" "sm_nodeId sm" ?w] new
    unfolding OnMessage_handshake [OF c] by auto
  then show ?thesis using assms(5) by (elim disjE exE conjE) (simp_all split: if_splits)
next
  case False
  then show ?thesis using assms(5) OnMessage_other_effect [OF assms(2), of m w p v] by (simp add: connect_effect_def)
qed

lemma step_enters:
  assumes "multibase_laws (v_mb env)" "calm env" "node_wf env w" "node_step env w e w'"
    and "Map_Get (w_peers w') s = Some q"
  shows "Map_Get (w_peers w) s = Some q \<or> entered env s q e"
  using assms(4)
proof (cases rule: node_step.cases)
  case (ns_message p v m)
  then show ?thesis using OnMessage_enters [OF assms(1-3) ns_message(3), of m s q] assms(5) by simp
next
  case (ns_close p v)
  then show ?thesis using assms(5) close_peer_table [of env p "w\<lparr>w_hungup := p # w_hungup w\<rparr>"] by (auto split: if_splits)
qed (use assms(5) run_task_peers [OF assms(2)] service_peers [OF assms(2)] in \<open>simp_all add: accept_peers lifecycle_peers\<close>)

section \<open>Properties\<close>

text \<open>A node before its first event: no connections and no goroutines that have not run.\<close>

definition unconnected :: "'s world \<Rightarrow> bool" where
  "unconnected w \<longleftrightarrow> w_peers w = [] \<and> w_listening w = [] \<and> (\<forall>p v. Go_OnNewPeer p v \<notin> set (w_tasks w))"

lemma unconnected_wf: "unconnected w \<Longrightarrow> node_wf env w"
  by (auto simp: unconnected_def node_wf_def own_challenges_def known_peers_def)

lemma node_step_wf:
  assumes "multibase_laws (v_mb env)" "calm env" "node_wf env w" "node_step env w e w'"
  shows "node_wf env w'"
  using assms(4)
proof (cases rule: node_step.cases)
  case (ns_message p v m)
  then show ?thesis using OnMessage_wf [OF assms(1-3) known_peersI(1) [OF ns_message(3)]] by simp
next
  case (ns_run t)
  then show ?thesis using run_task_wf [OF assms(2,3) ns_run(3)] by simp
next
  case (ns_close p v)
  then show ?thesis using close_wf [of env "w\<lparr>w_hungup := p # w_hungup w\<rparr>" p] assms(3) by (simp add: node_wf_count)
next
  case (ns_listened p)
  from assms(3) show ?thesis unfolding ns_listened by (rule node_wf_mono) (auto simp: heap_le_def)
next
  case (ns_return p)
  then show ?thesis using assms(3) by (simp add: node_wf_count)
qed (use service_wf [OF assms(2,3)] lifecycle_wf [OF assms(3)] accept_wf [OF assms(3)] in simp_all)

lemma node_run_wf:
  assumes "multibase_laws (v_mb env)" "calm env" "node_run env w0 es w" "node_wf env w0"
  shows "node_wf env w"
  using assms(3)
  by induction (use assms node_step_wf in blast)+


lemma run_enters:
  assumes "multibase_laws (v_mb env)" "calm env" "unconnected w0" "node_run env w0 es w"
    and "Map_Get (w_peers w) s = Some p"
  shows "\<exists>e \<in> set es. entered env s p e"
  using assms(4,5)
proof (induction arbitrary: s p)
  case nr_start
  then show ?case using assms(3) by (simp add: unconnected_def Map_Get_def)
next
  case (nr_step es w e w')
  have "node_wf env w" using node_run_wf [OF assms(1,2) nr_step(1) unconnected_wf [OF assms(3)]] .
  from step_enters [OF assms(1,2) this nr_step(2,4)] nr_step(3) [of s p] show ?case by auto
qed

text \<open>
  C5: what always holds of a node that runs. Whatever events happen after a start without
  connections, in whatever order: a connection the node knows of exists, and has an identity once
  its handshake is marked as done or if it has been dialled; every connection in the peer table
  has completed the handshake; every connection that is read was sent a challenge of the node.
\<close>
theorem node_stays_well_formed:
  assumes "multibase_laws (v_mb env)" "calm env" "unconnected w0" "node_run env w0 es w"
  shows "node_wf env w"
  using node_run_wf [OF assms(1,2,4) unconnected_wf [OF assms(3)]] .

text \<open>
  C6: every entry of the peer table has a history. If a running node has a connection in its peer
  table under some name, then among the events so far is a message over this very connection, and
  in it the identity of that name signed a closing handshake with a challenge that the node made.
\<close>
theorem peer_table_has_history:
  assumes "multibase_laws (v_mb env)" "calm env" "unconnected w0" "node_run env w0 es w"
    and "Map_Get (w_peers w) s = Some p"
  shows "\<exists>v m n c. Ev_Message p v m \<in> set es \<and> NodeId_ToString (v_mb env) n = Ok s \<and>
    handshake_proof env (v_challenge env c) m n"
  using run_enters [OF assms] by (auto simp: entered_def)


text \<open>
  For the witnesses: a node that accepts a connection, starts it, and gets the answer of another
  node with the same configuration.
\<close>

lemma plain_reply:
  assumes "v_mp A = wide_msgpack" "v_ed A = plain_ed25519"
  obtains m sm where "sm_nodeId sm = NewNodeId (0xed # replicate 32 5)" "closing_handshake A m sm
      \<lparr>hd_challenge = replicate 32 9, hd_supportedFeatures = SupportedFeatures, hd_connectionUris = [], hd_handshake = []\<rparr>"
proof -
  let ?c = "replicate 32 9 :: bytes"
    and ?h = "\<lparr>ho_challenge = [], ho_networkId = ''s5'', ho_handshake = replicate 32 9\<rparr>"
  have env: "v_mp plain_env = wide_msgpack" "v_ed plain_env = plain_ed25519"
    "v_KeyPair plain_env = \<lparr>kp_Bytes = replicate 64 5\<rparr>" "v_Network plain_env = ''s5''" "v_selfConnectionUris plain_env = []"
    by (simp_all add: plain_env_def)
  let ?pk = "0xed # replicate 32 5 :: bytes"
  have pk: "PublicKey \<lparr>kp_Bytes = replicate 64 5\<rparr> = Ok ?pk"
    by (subst PublicKey_usable [OF plain_usable_key]) simp_all
  have short: "length (HandshakeDone_EncodeMsgpack wide_msgpack (v_urlString plain_env)
      (NewHandshakeDoneRequest ?c SupportedFeatures [])) < 2 ^ 32"
    by (simp add: HandshakeDone_EncodeMsgpack_def NewHandshakeDoneRequest_def EncodeMsgpackURLs_def
        wide_msgpack_def wide_int_def wide_raw_def)
  show thesis
  proof (rule handshake_reply [of A plain_env ?pk plain_node 0 ?h])
    show "w_localNodeID plain_node = Some (0, NewNodeId ?pk)" by (simp add: plain_node_def)
    show "length (HandshakeDone_EncodeMsgpack (v_mp plain_env) (v_urlString plain_env)
      (NewHandshakeDoneRequest (ho_handshake ?h) SupportedFeatures (v_selfConnectionUris plain_env))) < 2 ^ 32"
      using short by (simp add: env)
  qed (use that assms wide_msgpack_laws plain_usable_key [of "replicate 64 5"] pk in \<open>simp_all add: env printable_def\<close>)
qed

lemma plain_run:
  obtains m w s where "node_run plain_env (plain_node\<lparr>w_peers := NewMap\<rparr>)
      [Ev_Accept, Ev_Run (Go_OnNewPeer 1 False), Ev_Message 1 False m] w"
    "Map_Get (w_peers w) s = Some 1"
proof -
  let ?w0 = "plain_node\<lparr>w_peers := NewMap\<rparr>" and ?c = "replicate 32 9 :: bytes" and ?pk = "0xed # replicate 32 5 :: bytes"
  have env: "v_mp plain_env = wide_msgpack" "v_ed plain_env = plain_ed25519" "v_mb plain_env = plain_multibase"
    by (simp_all add: plain_env_def)
  obtain m sm where m: "sm_nodeId sm = NewNodeId ?pk" "closing_handshake plain_env m sm
      \<lparr>hd_challenge = ?c, hd_supportedFeatures = SupportedFeatures, hd_connectionUris = [], hd_handshake = []\<rparr>"
    using env(1,2) by (rule plain_reply)
  obtain s where s: "NodeId_ToString plain_multibase (NewNodeId ?pk) = Ok s"
    using NodeId_ToString_total [OF plain_multibase_laws] by blast
  let ?nl = "\<lparr>nl_ParseIP = Some, nl_IsLoopback = (\<lambda>_. False), nl_AddrIP = Some\<rparr>"
    and ?r = "\<lparr>rq_RealIP = [], rq_ForwardedFor = []\<rparr>"
  obtain w1 where w1: "p2pHandler plain_env ?nl (Ok ''10.0.0.9'') ?r ?w0 = w1" "w_tasks w1 = [Go_OnNewPeer 1 False]" "w_started w1"
    "w_incomingIPBlocklist w1 = NewMap" "w_incomingPeerBlockList w1 = NewMap" "w_listening w1 = []"
    by (simp add: p2pHandler_def CreateTransportPeer_wss blockConnection_def client_ip_def plain_node_def)
  let ?w2 = "snd (run_task plain_env (Go_OnNewPeer 1 False) w1)"
  have w2: "(1, False) \<in> set (w_listening ?w2)" "pe_challenge (w_heap ?w2 1) = ?c" "w_started ?w2"
    using w1(2-6)
    by (auto simp: run_task_def OnNewPeer_def Let_def alloc_def peer_SetChallenge_def upd_peer_def Map_Contains_def NewMap_def
        SendMessage_def plain_env_def)
  let ?w3 = "snd (OnMessage plain_env 1 False m ?w2)"
  have "node_run plain_env ?w0 ([] @ [Ev_Accept]) w1"
    using nr_step [OF nr_start ns_accept [of plain_env ?w0 ?nl "Ok ''10.0.0.9''" ?r]] w1(1) by simp
  then have "node_run plain_env ?w0 (([] @ [Ev_Accept]) @ [Ev_Run (Go_OnNewPeer 1 False)]) ?w2"
    by (rule nr_step) (rule ns_run, simp add: w1)
  then have "node_run plain_env ?w0 ((([] @ [Ev_Accept]) @ [Ev_Run (Go_OnNewPeer 1 False)]) @ [Ev_Message 1 False m]) ?w3"
    by (rule nr_step) (rule ns_message [OF w2(1)])
  moreover have "Map_Get (w_peers ?w3) s = Some 1"
    using HandshakeDone_accepted [of plain_env "NewNodeId ?pk" s "?w2\<lparr>w_next := Suc (w_next ?w2)\<rparr>" 1
        "\<lparr>hd_challenge = ?c, hd_supportedFeatures = SupportedFeatures, hd_connectionUris = [], hd_handshake = []\<rparr>" False "w_next ?w2"]
      plain_multibase_laws s w2 m(1)
    unfolding OnMessage_handshake [OF m(2)] by (simp add: env)
  ultimately show thesis by (intro that [of m ?w3 s]) simp_all
qed

lemma plain_start: "calm plain_env" "unconnected (plain_node\<lparr>w_peers := NewMap\<rparr>)"
  by (simp_all add: calm_def plain_env_def unconnected_def plain_node_def NewMap_def)

theorem node_stays_well_formed_witness:
  "\<exists>m w. node_run plain_env (plain_node\<lparr>w_peers := NewMap\<rparr>)
      [Ev_Accept, Ev_Run (Go_OnNewPeer 1 False), Ev_Message 1 False m] w \<and> node_wf plain_env w"
proof -
  obtain m w s where run: "node_run plain_env (plain_node\<lparr>w_peers := NewMap\<rparr>)
      [Ev_Accept, Ev_Run (Go_OnNewPeer 1 False), Ev_Message 1 False m] w" by (rule plain_run)
  with node_stays_well_formed [OF _ plain_start run] plain_multibase_laws show ?thesis
    by (auto simp: plain_env_def)
qed

theorem peer_table_has_history_witness:
  "\<exists>m n c w s. node_run plain_env (plain_node\<lparr>w_peers := NewMap\<rparr>)
      [Ev_Accept, Ev_Run (Go_OnNewPeer 1 False), Ev_Message 1 False m] w \<and> Map_Get (w_peers w) s = Some 1 \<and>
    NodeId_ToString plain_multibase n = Ok s \<and> handshake_proof plain_env (v_challenge plain_env c) m n"
proof -
  obtain m w s where run: "node_run plain_env (plain_node\<lparr>w_peers := NewMap\<rparr>)
      [Ev_Accept, Ev_Run (Go_OnNewPeer 1 False), Ev_Message 1 False m] w" and s: "Map_Get (w_peers w) s = Some 1"
    by (rule plain_run)
  have mb: "v_mb plain_env = plain_multibase" by (simp add: plain_env_def)
  then have "multibase_laws (v_mb plain_env)" using plain_multibase_laws by simp
  from peer_table_has_history [OF this plain_start run s] obtain n c where
    "NodeId_ToString plain_multibase n = Ok s" "handshake_proof plain_env (v_challenge plain_env c) m n"
    by (auto simp: mb)
  with run s show ?thesis by blast
qed


lemma NewP2P_unconnected: "unconnected (NewP2P s heap)"
  by (simp add: unconnected_def NewP2P_def NewMap_def)

text \<open>
  C24: the list of peers can always be served. On a running node the handler of
  \<open>/s5/p2p/peers\<close> never meets a peer without an identity, which would crash it, and lists exactly
  the peers of the table that have connection URIs.
\<close>
theorem peers_are_listed:
  assumes "multibase_laws (v_mb env)" "calm env" "unconnected w0" "node_run env w0 es w"
  shows "p2pPeersHandler env w = Ok (List.map_filter (\<lambda>p.
    case id_ToString env (peer_Id w p) of
      Ok s \<Rightarrow> if pe_connectionURIs (w_heap w p) = [] then None
        else Some \<lparr>nr_Id = s, nr_Uris = map (v_urlString env) (pe_connectionURIs (w_heap w p))\<rparr>
    | _ \<Rightarrow> None) (Map_Values (w_peers w)))"
proof -
  have wf: "node_wf env w" using node_run_wf [OF assms(1,2,4) unconnected_wf [OF assms(3)]] .
  have "peer_Id w p \<noteq> None" if "p \<in> set (Map_Values (w_peers w))" for p
  proof -
    have "p \<in> snd ` set (w_peers w)" using that by (simp add: Map_Values_def)
    then show ?thesis using wf known_peersI(3) unfolding node_wf_def peer_Id_def by blast
  qed
  then show ?thesis unfolding p2pPeersHandler_def by (intro list_peers_known [OF assms(1)]) blast
qed

theorem peers_are_listed_witness:
  "\<exists>m w. node_run plain_env (plain_node\<lparr>w_peers := NewMap\<rparr>)
      [Ev_Accept, Ev_Run (Go_OnNewPeer 1 False), Ev_Message 1 False m] w \<and> (\<exists>l. p2pPeersHandler plain_env w = Ok l)"
proof -
  obtain m w s where run: "node_run plain_env (plain_node\<lparr>w_peers := NewMap\<rparr>)
      [Ev_Accept, Ev_Run (Go_OnNewPeer 1 False), Ev_Message 1 False m] w" by (rule plain_run)
  have "v_mb plain_env = plain_multibase" by (simp add: plain_env_def)
  with peers_are_listed [OF _ plain_start run] run plain_multibase_laws show ?thesis by auto
qed



text \<open>
  C25: a start that fails leaves a node that goes on dialling but never completes a handshake. The
  flag that says it is starting stays set, so that \<open>ConnectToNode\<close> works; but every closing
  handshake is answered by closing the connection, and the peer table stays as it is.
\<close>
theorem failed_start_is_half_started:
  assumes "multibase_laws (v_mb env)" "\<not> w_started w" "Services_Start env w = (Err e, w1)"
    and "closing_handshake env m s h"
  shows "w_starting w1 \<and> \<not> Node_IsStarted w1 \<and>
    snd (OnMessage env p v m w1) = w1\<lparr>w_next := Suc (w_next w1), w_closed := w_closed w1 @ [p]\<rparr>"
proof -
  have flags: "w_starting w1 \<and> \<not> w_started w1"
    using Services_Start_cases [of env w] assms(2,3) by auto
  then show ?thesis
    unfolding OnMessage_handshake [OF assms(4)] Node_IsStarted_def
    using HandshakeDone_frame(1) [OF assms(1), of "w1\<lparr>w_next := Suc (w_next w1)\<rparr>" h p v "w_next w1" "sm_nodeId s"]
    by simp
qed


theorem failed_start_is_half_started_witness:
  "\<exists>m w1. Services_Start (plain_env\<lparr>v_InitialPeers := [''x''], v_urlParse := \<lambda>_. Err (LibError ''parse'')\<rparr>)
      (plain_node\<lparr>w_started := False\<rparr>) = (Err (LibError ''parse''), w1) \<and> w_starting w1 \<and>
    snd (OnMessage (plain_env\<lparr>v_InitialPeers := [''x''], v_urlParse := \<lambda>_. Err (LibError ''parse'')\<rparr>) 1 False m w1) =
      w1\<lparr>w_next := Suc (w_next w1), w_closed := w_closed w1 @ [1]\<rparr>"
proof -
  let ?env = "plain_env\<lparr>v_InitialPeers := [''x''], v_urlParse := \<lambda>_. Err (LibError ''parse'')\<rparr>"
  have env: "v_mp ?env = wide_msgpack" "v_ed ?env = plain_ed25519" "multibase_laws (v_mb ?env)"
    by (simp_all add: plain_env_def plain_multibase_laws)
  obtain m sm h where m: "closing_handshake ?env m sm h" using env(1,2) by (rule plain_reply)
  obtain w1 where w1: "Services_Start ?env (plain_node\<lparr>w_started := False\<rparr>) = (Err (LibError ''parse''), w1)"
    by (simp add: Services_Start_def P2P_Start_def)
  have "\<not> w_started (plain_node\<lparr>w_started := False\<rparr>)" by simp
  from failed_start_is_half_started [OF env(3) this w1 m, of 1 False] w1 show ?thesis by blast
qed

end
