(* ===== verification/Conn_Tracker.thy ===== *)
theory Conn_Tracker
  imports Node_Run
begin

text \<open>
  The wait group \<open>connections\<close> of the p2p service, on which \<open>WaitOnConnectedPeers\<close> of \<open>node/node.go\<close>
  waits, and what closing a connection does to another one of the same identity. Lemmas: in every state
  of a running node the counter is the number of goroutines that run \<open>OnNewPeer\<close>; a connection
  whose opening message cannot be written is read, but not counted; closing a connection takes a
  younger one of the same identity out of the peer table.
\<close>

section \<open>The counter\<close>

primrec starts_peer :: "go_task \<Rightarrow> bool" where
  "starts_peer (Go_OnNewPeer p v) = True"
| "starts_peer (Go_Connect us) = False"

text \<open>The goroutines that run \<open>OnNewPeer\<close>: those that have not got to run, and those that wait.\<close>

definition peer_goroutines :: "'s world \<Rightarrow> nat" where
  "peer_goroutines w = length (filter starts_peer (w_tasks w)) + length (w_waiting w)"

definition tracker_exact :: "'s world \<Rightarrow> bool" where
  "tracker_exact w \<longleftrightarrow> w_connections w = int (peer_goroutines w)"

lemma tracker_exact_same:
  "tracker_exact w \<Longrightarrow> w_connections w' = w_connections w \<Longrightarrow> w_tasks w' = w_tasks w \<Longrightarrow> w_waiting w' = w_waiting w \<Longrightarrow>
    tracker_exact w'"
  by (simp add: tracker_exact_def peer_goroutines_def)

lemma tracker_exact_core: "tracker_exact w \<Longrightarrow> core w' = core w \<Longrightarrow> tracker_exact w'"
  by (erule tracker_exact_same) (simp_all add: core_def)

lemma tracker_exact_connect:
  assumes "tracker_exact w" "connect_effect w w'"
  shows "tracker_exact w'"
proof -
  obtain ts where ts: "w_tasks w' = w_tasks w @ ts" "w_connections w' = w_connections w + int (length ts)"
    "\<forall>t \<in> set ts. new_dialled w' t" "w_waiting w' = w_waiting w"
    using assms(2) unfolding connect_effect_def by blast
  have "\<forall>t \<in> set ts. starts_peer t" using ts(3) by (auto simp: new_dialled_def)
  then have "filter starts_peer ts = ts" by (rule filter_True)
  with assms(1) ts show ?thesis by (simp add: tracker_exact_def peer_goroutines_def)
qed

lemma tracker_exact_untask:
  assumes "tracker_exact w" "t \<in> set (w_tasks w)"
  shows "w_connections w = int (peer_goroutines (w\<lparr>w_tasks := remove1 t (w_tasks w)\<rparr>)) + (if starts_peer t then 1 else 0)"
proof -
  have "length (filter starts_peer xs) = length (filter starts_peer (remove1 t xs)) + (if starts_peer t then 1 else 0)"
    if "t \<in> set xs" for xs using that by (induction xs) auto
  from this [OF assms(2)] assms(1) show ?thesis by (simp add: tracker_exact_def peer_goroutines_def)
qed

text \<open>
  A goroutine that runs \<open>OnNewPeer\<close> is counted until it calls \<open>Done\<close>, which does not panic.
\<close>

lemma run_peer_tracked:
  assumes "tracker_exact w" "Go_OnNewPeer p v \<in> set (w_tasks w)"
  shows "fst (run_task env (Go_OnNewPeer p v) w) = Ok () \<and> tracker_exact (snd (run_task env (Go_OnNewPeer p v) w))"
proof -
  let ?t = "Go_OnNewPeer p v"
  let ?w = "w\<lparr>w_tasks := remove1 ?t (w_tasks w)\<rparr>"
  let ?w' = "snd (OnNewPeer env p v ?w)"
  have count: "w_connections ?w = int (peer_goroutines ?w) + 1"
    using tracker_exact_untask [OF assms] by simp
  have "w_tasks ?w' = w_tasks ?w \<and> w_connections ?w' = w_connections ?w \<and> w_waiting ?w' \<in> {w_waiting ?w, w_waiting ?w @ [p]} \<or>
      connect_effect ?w ?w'"
    using OnNewPeer_cases [of ?w env p v] by (auto simp: core_def listening_core_def)
  moreover have "w_waiting ?w' = w_waiting ?w" "w_connections ?w' = int (peer_goroutines ?w') + 1" if "connect_effect ?w ?w'"
  proof -
    have "tracker_exact (?w\<lparr>w_connections := w_connections ?w - 1\<rparr>)"
      using count by (simp add: tracker_exact_def peer_goroutines_def)
    moreover have "connect_effect (?w\<lparr>w_connections := w_connections ?w - 1\<rparr>) (?w'\<lparr>w_connections := w_connections ?w' - 1\<rparr>)"
      using that by (auto simp: connect_effect_def heap_le_def new_dialled_def)
    ultimately have "tracker_exact (?w'\<lparr>w_connections := w_connections ?w' - 1\<rparr>)" by (rule tracker_exact_connect)
    then show "w_connections ?w' = int (peer_goroutines ?w') + 1" by (simp add: tracker_exact_def peer_goroutines_def)
    show "w_waiting ?w' = w_waiting ?w" using that by (simp add: connect_effect_def)
  qed
  ultimately show ?thesis
    using count by (auto simp: run_task_def Let_def Tracker_Done_def tracker_exact_def peer_goroutines_def)
qed

lemma accept_tracked: "tracker_exact w \<Longrightarrow> tracker_exact (p2pHandler env nl accepted r w)"
  by (rule p2pHandler_cases [of env nl accepted r w]) (auto simp: tracker_exact_def peer_goroutines_def)

lemma start_tracked: "tracker_exact w \<Longrightarrow> tracker_exact (snd (Services_Start env w))"
  using Services_Start_cases [of env w] by (auto simp: tracker_exact_def peer_goroutines_def filter_empty_conv)

lemma message_tracked:
  assumes "multibase_laws (v_mb env)" "calm env" "tracker_exact w"
  shows "tracker_exact (snd (OnMessage env p v m w))"
proof (cases "\<exists>s h. closing_handshake env m s h")
  case True
  then obtain s h where c: "closing_handshake env m s h" by blast
  let ?w = "w\<lparr>w_next := Suc (w_next w)\<rparr>"
  let ?w' = "snd (HandshakeDone_HandleMessage env h p v (w_next w, sm_nodeId s) ?w)"
  obtain i where i: "NodeId_ToString (v_mb env) (sm_nodeId s) = Ok i" using NodeId_ToString_total [OF assms(1)] by blast
  have "w_tasks ?w' = w_tasks w \<and> w_connections ?w' = w_connections w \<and> w_waiting ?w' = w_waiting w"
    using HandshakeDone_outside [OF assms(1), where w = ?w and h = h and p = p and v = v and n = "sm_nodeId s" and a = "w_next w"]
      HandshakeDone_accepted [OF assms(1) i, of ?w p h v "w_next w"]
      HandshakeDone_frame(5) [OF assms(1), where w = ?w and h = h and p = p and v = v and n = "sm_nodeId s" and a = "w_next w"]
    by (auto simp: core_def)
  with assms(3) show ?thesis unfolding OnMessage_handshake [OF c] by (auto intro: tracker_exact_same)
next
  case False
  with assms OnMessage_other_effect tracker_exact_connect show ?thesis by blast
qed

lemma close_tracked: "tracker_exact (OnPeerClose env p w) = tracker_exact w"
  by (simp add: tracker_exact_def peer_goroutines_def OnPeerClose_def Let_def split: option.split outcome.split)

lemma return_tracked:
  assumes "tracker_exact w" "p \<in> set (w_waiting w)"
  shows "fst (Tracker_Done (w\<lparr>w_waiting := remove1 p (w_waiting w)\<rparr>)) = Ok () \<and>
    tracker_exact (snd (Tracker_Done (w\<lparr>w_waiting := remove1 p (w_waiting w)\<rparr>)))"
proof -
  have "length (w_waiting w) = Suc (length (remove1 p (w_waiting w)))"
    using assms(2) length_pos_if_in_set [OF assms(2)] by (simp add: length_remove1)
  with assms(1) show ?thesis by (simp add: Tracker_Done_def Let_def tracker_exact_def peer_goroutines_def)
qed

lemma node_step_tracked:
  assumes "multibase_laws (v_mb env)" "calm env" "tracker_exact w" "node_step env w e w'"
  shows "tracker_exact w'"
  using assms(4)
proof (cases rule: node_step.cases)
  case (ns_run t)
  show ?thesis
  proof (cases t)
    case (Go_OnNewPeer p v)
    with run_peer_tracked [OF assms(3)] ns_run show ?thesis by blast
  next
    case (Go_Connect us)
    have "tracker_exact (w\<lparr>w_tasks := remove1 t (w_tasks w)\<rparr>)"
      using tracker_exact_untask [OF assms(3) ns_run(3)] Go_Connect by (simp add: tracker_exact_def peer_goroutines_def)
    from tracker_exact_connect [OF this ConnectToNode_effect [OF assms(2)]] show ?thesis
      using ns_run Go_Connect by (simp add: run_task_def)
  qed
next
  case ns_init
  show ?thesis unfolding ns_init by (rule tracker_exact_same [OF assms(3)]) simp_all
next
  case ns_start
  then show ?thesis using start_tracked [OF assms(3)] by simp
next
  case ns_stop
  show ?thesis unfolding ns_stop by (rule tracker_exact_same [OF assms(3)]) (simp_all add: Services_Stop_eq)
next
  case (ns_message p v m)
  then show ?thesis using message_tracked [OF assms(1-3)] by simp
next
  case (ns_close p v)
  have "tracker_exact (w\<lparr>w_hungup := p # w_hungup w\<rparr>)" by (rule tracker_exact_same [OF assms(3)]) simp_all
  then show ?thesis unfolding ns_close close_tracked .
next
  case (ns_return p)
  then show ?thesis using return_tracked [OF assms(3)] by simp
next
  case (ns_listened p)
  show ?thesis unfolding ns_listened by (rule tracker_exact_same [OF assms(3)]) simp_all
next
  case (ns_accept nl accepted r)
  then show ?thesis using accept_tracked [OF assms(3)] by simp
qed (use assms(2) core.view_Registry_Get [of env] in \<open>auto simp: calm_def intro!: tracker_exact_core [OF assms(3)]\<close>)

lemma node_run_tracked:
  assumes "multibase_laws (v_mb env)" "calm env" "tracker_exact w0" "node_run env w0 es w"
  shows "tracker_exact w"
  using assms(4) by induction (use assms node_step_tracked in blast)+

section \<open>Properties\<close>

text \<open>
  C21: the counter of connections is exact. On a node that was made by \<open>DefaultNode\<close>, after any events
  in any order, the counter of the wait group is the number of goroutines that run \<open>OnNewPeer\<close>: no
  call of \<open>Done\<close> panics, and \<open>WaitOnConnectedPeers\<close> returns exactly when there is none.
\<close>
theorem connection_counter_exact:
  assumes "multibase_laws (v_mb env)" "calm env" "node_run env (NewP2P s heap) es w"
  shows "w_connections w = int (peer_goroutines w) \<and>
    (WaitOnConnectedPeers w \<longleftrightarrow> w_waiting w = [] \<and> (\<forall>p v. Go_OnNewPeer p v \<notin> set (w_tasks w))) \<and>
    (\<forall>p v. Go_OnNewPeer p v \<in> set (w_tasks w) \<longrightarrow> fst (run_task env (Go_OnNewPeer p v) w) = Ok ()) \<and>
    (\<forall>p \<in> set (w_waiting w). fst (Tracker_Done (w\<lparr>w_waiting := remove1 p (w_waiting w)\<rparr>)) = Ok ())"
proof -
  have "tracker_exact (NewP2P s heap)" by (simp add: tracker_exact_def peer_goroutines_def NewP2P_def)
  from node_run_tracked [OF assms(1,2) this assms(3)] have exact: "tracker_exact w" .
  have "filter starts_peer ts = [] \<longleftrightarrow> (\<forall>p v. Go_OnNewPeer p v \<notin> set ts)" for ts
    unfolding filter_empty_conv by (metis go_task.exhaust starts_peer.simps)
  then have "peer_goroutines w = 0 \<longleftrightarrow> w_waiting w = [] \<and> (\<forall>p v. Go_OnNewPeer p v \<notin> set (w_tasks w))"
    unfolding peer_goroutines_def add_eq_0_iff_both_eq_0 length_0_conv by blast
  then have "WaitOnConnectedPeers w \<longleftrightarrow> w_waiting w = [] \<and> (\<forall>p v. Go_OnNewPeer p v \<notin> set (w_tasks w))"
    using exact by (simp add: tracker_exact_def WaitOnConnectedPeers_def)
  with exact run_peer_tracked [OF exact] return_tracked [OF exact] show ?thesis
    by (simp add: tracker_exact_def)
qed


section \<open>A connection that comes in\<close>

definition quiet :: "'s world \<Rightarrow> bool" where
  "quiet w \<longleftrightarrow> w_started w \<and> w_incomingIPBlocklist w = NewMap \<and> w_incomingPeerBlockList w = NewMap \<and> w_tasks w = []"

text \<open>
  The three steps by which a connection gets into the peer table of the sample node.
\<close>

lemma plain_connects:
  assumes "quiet w" "NodeId_ToString plain_multibase (sm_nodeId sm) = Ok s"
    and "closing_handshake plain_env m sm
      \<lparr>hd_challenge = replicate 32 9, hd_supportedFeatures = SupportedFeatures, hd_connectionUris = [], hd_handshake = []\<rparr>"
  defines "k \<equiv> w_next w"
  obtains w1 w2 w3 where "node_step plain_env w Ev_Accept w1" "node_step plain_env w1 (Ev_Run (Go_OnNewPeer k False)) w2"
    "node_step plain_env w2 (Ev_Message k False m) w3" "quiet w3" "w_peers w3 = Map_Put (w_peers w) s k"
    "w_listening w3 = w_listening w @ [(k, False)]" "w_hungup w3 = w_hungup w" "w_next w3 = k + 3"
    "\<exists>a. peer_Id w3 k = Some (a, sm_nodeId sm)" "\<forall>q. q \<noteq> k \<longrightarrow> w_heap w3 q = w_heap w q"
proof -
  let ?nl = "\<lparr>nl_ParseIP = Some, nl_IsLoopback = (\<lambda>_. False), nl_AddrIP = Some\<rparr>"
    and ?r = "\<lparr>rq_RealIP = [], rq_ForwardedFor = []\<rparr>" and ?t = "Go_OnNewPeer k False"
  let ?w1 = "p2pHandler plain_env ?nl (Ok ''10.0.0.9'') ?r w"
  have w1: "w_tasks ?w1 = [?t]" "w_started ?w1" "w_incomingIPBlocklist ?w1 = NewMap" "w_incomingPeerBlockList ?w1 = NewMap"
    "w_listening ?w1 = w_listening w" "w_hungup ?w1 = w_hungup w" "w_next ?w1 = Suc k" "w_peers ?w1 = w_peers w"
    "\<forall>q. q \<noteq> k \<longrightarrow> w_heap ?w1 q = w_heap w q"
    using assms(1) by (simp_all add: quiet_def p2pHandler_def CreateTransportPeer_wss blockConnection_def client_ip_def k_def)
  let ?w2 = "snd (run_task plain_env ?t ?w1)"
  have w2: "(k, False) \<in> set (w_listening ?w2)" "pe_challenge (w_heap ?w2 k) = replicate 32 9" "w_started ?w2"
    "w_incomingIPBlocklist ?w2 = NewMap" "w_incomingPeerBlockList ?w2 = NewMap" "w_tasks ?w2 = []"
    "w_listening ?w2 = w_listening w @ [(k, False)]" "w_hungup ?w2 = w_hungup w" "w_next ?w2 = k + 2" "w_peers ?w2 = w_peers w"
    "\<forall>q. q \<noteq> k \<longrightarrow> w_heap ?w2 q = w_heap w q"
    using w1 by (auto simp: run_task_def OnNewPeer_def Let_def alloc_def peer_SetChallenge_def upd_peer_def Map_Contains_def
        NewMap_def SendMessage_def plain_env_def)
  let ?w3 = "snd (OnMessage plain_env k False m ?w2)"
  have mb: "v_mb plain_env = plain_multibase" by (simp add: plain_env_def)
  have "quiet ?w3 \<and> w_peers ?w3 = Map_Put (w_peers w) s k \<and> w_listening ?w3 = w_listening w @ [(k, False)] \<and>
      w_hungup ?w3 = w_hungup w \<and> w_next ?w3 = k + 3 \<and> (\<exists>a. peer_Id ?w3 k = Some (a, sm_nodeId sm)) \<and>
      (\<forall>q. q \<noteq> k \<longrightarrow> w_heap ?w3 q = w_heap w q)"
    using w2 assms(2) unfolding OnMessage_handshake [OF assms(3)]
    by (simp add: HandshakeDone_HandleMessage_def identify_peer_def peer_SetHandshakeDone_def peer_SetConnected_def peer_SetId_def
        upd_peer_def Let_def AddPeer_def peer_Id_def id_ToString_def mb adopt_uris_def quiet_def)
  moreover have "node_step plain_env w Ev_Accept ?w1" by (rule ns_accept)
  moreover have "node_step plain_env ?w1 (Ev_Run ?t) ?w2" by (rule ns_run) (simp add: w1)
  moreover have "node_step plain_env ?w2 (Ev_Message k False m) ?w3" using w2(1) by (rule ns_message)
  ultimately show thesis by (intro that [of ?w1 ?w2 ?w3]) blast+
qed

theorem connection_counter_exact_witness:
  "\<exists>w. node_run plain_env (NewP2P plain_world (\<lambda>_. plain_peer)) [Ev_Accept] w \<and> w_connections w = 1 \<and> \<not> WaitOnConnectedPeers w"
proof -
  let ?nl = "\<lparr>nl_ParseIP = Some, nl_IsLoopback = (\<lambda>_. False), nl_AddrIP = Some\<rparr>"
    and ?r = "\<lparr>rq_RealIP = [], rq_ForwardedFor = []\<rparr>" and ?fresh = "NewP2P plain_world (\<lambda>_. plain_peer)"
  let ?v = "p2pHandler plain_env ?nl (Ok ''10.0.0.9'') ?r ?fresh"
  have "node_run plain_env ?fresh ([] @ [Ev_Accept]) ?v" using nr_step [OF nr_start ns_accept] .
  then have run: "node_run plain_env ?fresh [Ev_Accept] ?v" by simp
  have t: "w_tasks ?v = [Go_OnNewPeer 0 False]" "w_waiting ?v = []"
    by (simp_all add: p2pHandler_def CreateTransportPeer_wss blockConnection_def client_ip_def NewP2P_def)
  have "multibase_laws (v_mb plain_env)" by (simp add: plain_env_def plain_multibase_laws)
  from connection_counter_exact [OF this plain_start(1) run] t run show ?thesis
    by (auto simp: peer_goroutines_def)
qed

text \<open>
  C22: closing a connection cuts another one of the same identity off. When a connection with an
  identity is closed, the entry of that identity leaves the peer table, also if the entry is
  another connection, which is still open and read: it gets no more broadcasts and queries.
\<close>
theorem close_evicts_other:
  assumes "(p, v) \<in> set (w_listening w)" "p \<notin> set (w_hungup w)" "peer_Id w p = Some (a, n)"
    and "NodeId_ToString (v_mb env) n = Ok s" "Map_Get (w_peers w) s = Some q" "q \<noteq> p"
    and "(q, u) \<in> set (w_listening w)" "q \<notin> set (w_hungup w)"
  shows "\<exists>w'. node_step env w (Ev_Close p) w' \<and> Map_Get (w_peers w') s = None \<and>
    (q, u) \<in> set (w_listening w') \<and> q \<notin> set (w_hungup w') \<and> w_closed w' = w_closed w"
proof -
  let ?v = "w\<lparr>w_hungup := p # w_hungup w\<rparr>"
  have s: "id_ToString env (peer_Id ?v p) = Ok s" "peer_Id ?v p = Some (a, n)"
    using assms(3,4) by (simp_all add: id_ToString_def peer_Id_def)
  have "Map_Contains (w_peers w) s" using assms(5) by (simp add: Map_Contains_def Map_Get_def)
  with s have "w_peers (OnPeerClose env p ?v) = Map_Remove (w_peers w) s" "w_hungup (OnPeerClose env p ?v) = p # w_hungup w"
    "w_closed (OnPeerClose env p ?v) = w_closed w"
    by (simp_all add: OnPeerClose_def Let_def)
  with ns_close [OF assms(1,2), of env] assms(6,7,8) show ?thesis
    by (intro exI [of _ "OnPeerClose env p ?v"]) simp
qed

text \<open>The same node connects twice, and the first connection is closed.\<close>

theorem close_evicts_other_witness:
  "\<exists>m w w' s. node_run plain_env (plain_node\<lparr>w_peers := NewMap\<rparr>)
      [Ev_Accept, Ev_Run (Go_OnNewPeer 1 False), Ev_Message 1 False m,
       Ev_Accept, Ev_Run (Go_OnNewPeer 4 False), Ev_Message 4 False m] w \<and>
    Map_Get (w_peers w) s = Some 4 \<and> node_step plain_env w (Ev_Close 1) w' \<and> Map_Get (w_peers w') s = None \<and>
    (4, False) \<in> set (w_listening w')"
proof -
  let ?w0 = "plain_node\<lparr>w_peers := NewMap\<rparr>"
  have "v_mp plain_env = wide_msgpack" "v_ed plain_env = plain_ed25519" by (simp_all add: plain_env_def)
  then obtain m sm where m: "closing_handshake plain_env m sm
      \<lparr>hd_challenge = replicate 32 9, hd_supportedFeatures = SupportedFeatures, hd_connectionUris = [], hd_handshake = []\<rparr>"
    by (rule plain_reply)
  obtain s where s: "NodeId_ToString plain_multibase (sm_nodeId sm) = Ok s"
    using NodeId_ToString_total [OF plain_multibase_laws] by blast
  have q0: "quiet ?w0" "w_next ?w0 = 1" "w_hungup ?w0 = []" by (simp_all add: quiet_def plain_node_def)
  obtain w1 w2 w3 where first: "node_step plain_env ?w0 Ev_Accept w1" "node_step plain_env w1 (Ev_Run (Go_OnNewPeer 1 False)) w2"
    "node_step plain_env w2 (Ev_Message 1 False m) w3" and q3: "quiet w3"
    and w3: "w_listening w3 = w_listening ?w0 @ [(1, False)]" "w_hungup w3 = []" "w_next w3 = 4"
      "\<exists>a. peer_Id w3 1 = Some (a, sm_nodeId sm)"
    by (rule plain_connects [OF q0(1) s m]) (use q0 in simp)
  obtain w4 w5 w6 where second: "node_step plain_env w3 Ev_Accept w4" "node_step plain_env w4 (Ev_Run (Go_OnNewPeer 4 False)) w5"
    "node_step plain_env w5 (Ev_Message 4 False m) w6"
    and w6: "w_peers w6 = Map_Put (w_peers w3) s 4" "w_listening w6 = w_listening w3 @ [(4, False)]" "w_hungup w6 = []"
      "w_heap w6 1 = w_heap w3 1"
    by (rule plain_connects [OF q3 s m]) (use w3 in simp)
  note steps = first second
  have "node_run plain_env ?w0 [] ?w0" by (rule nr_start)
  from nr_step [OF nr_step [OF nr_step [OF nr_step [OF nr_step [OF nr_step [OF this steps(1)] steps(2)] steps(3)] steps(4)] steps(5)] steps(6)]
  have run: "node_run plain_env ?w0 [Ev_Accept, Ev_Run (Go_OnNewPeer 1 False), Ev_Message 1 False m,
      Ev_Accept, Ev_Run (Go_OnNewPeer 4 False), Ev_Message 4 False m] w6" by simp
  obtain a where id: "peer_Id w6 1 = Some (a, sm_nodeId sm)" using w3(4) w6(4) by (auto simp: peer_Id_def)
  have "Map_Get (w_peers w6) s = Some 4" by (simp add: w6(1))
  moreover have "NodeId_ToString (v_mb plain_env) (sm_nodeId sm) = Ok s" using s by (simp add: plain_env_def)
  ultimately show ?thesis
    using close_evicts_other [OF _ _ id, of False plain_env s 4 False] run w3(1) w6(2,3) by auto
qed

text \<open>
  A connection whose opening message cannot be written is read all the same, but nobody waits for it.
\<close>

lemma uncounted_listener:
  assumes "tracker_exact w" "w_tasks w = [Go_OnNewPeer p v]" "w_waiting w = []"
    and "w_incomingIPBlocklist w = NewMap" "w_incomingPeerBlockList w = NewMap" "\<forall>q msg ws. v_send env q msg ws = Some err"
  shows "\<exists>w'. node_step env w (Ev_Run (Go_OnNewPeer p v)) w' \<and> WaitOnConnectedPeers w' \<and> (p, v) \<in> set (w_listening w')"
proof -
  have "w_connections w = 1" using assms(1-3) by (simp add: tracker_exact_def peer_goroutines_def)
  then have "WaitOnConnectedPeers (snd (run_task env (Go_OnNewPeer p v) w)) \<and>
      (p, v) \<in> set (w_listening (snd (run_task env (Go_OnNewPeer p v) w)))"
    using assms(2-6)
    by (simp add: run_task_def OnNewPeer_def Let_def alloc_def peer_SetChallenge_def upd_peer_def Map_Contains_def NewMap_def
        SendMessage_def Tracker_Done_def WaitOnConnectedPeers_def)
  moreover have "Go_OnNewPeer p v \<in> set (w_tasks w)" using assms(2) by simp
  ultimately show ?thesis using ns_run by blast
qed

end
