(* ===== verification/Meta_Lib.thy ===== *)
theory Meta_Lib
  imports CID Structs
begin

text \<open>
  What the metadata formats share: the constants of \<open>types/meta.go\<close> and \<open>types/parent_link.go\<close>,
  the header of \<open>serialize/seralizer.go\<close>, \<open>decodeIntMap\<close> of \<open>metadata/misc.go\<close>, and the methods of
  the msgpack package that only these formats call, as parameters with their documented
  behaviour. Lemmas: the header is read back and nothing else is, and loops of decoders read
  back what the matching encoders wrote.
\<close>

section \<open>Constants\<close>

definition MetadataExtensionLicenses :: int where [go_consts]: "MetadataExtensionLicenses = 0x0B"
definition MetadataExtensionDonationKeys :: int where [go_consts]: "MetadataExtensionDonationKeys = 0x0C"
definition MetadataExtensionWikidataClaims :: int where [go_consts]: "MetadataExtensionWikidataClaims = 0x0D"
definition MetadataExtensionLanguages :: int where [go_consts]: "MetadataExtensionLanguages = 0x0E"
definition MetadataExtensionSourceUris :: int where [go_consts]: "MetadataExtensionSourceUris = 0x0F"
definition MetadataExtensionUpdateCID :: int where [go_consts]: "MetadataExtensionUpdateCID = 0x10"
definition MetadataExtensionPreviousVersions :: int where [go_consts]: "MetadataExtensionPreviousVersions = 0x11"
definition MetadataExtensionTimestamp :: int where [go_consts]: "MetadataExtensionTimestamp = 0x12"
definition MetadataExtensionTags :: int where [go_consts]: "MetadataExtensionTags = 0x13"
definition MetadataExtensionCategories :: int where [go_consts]: "MetadataExtensionCategories = 0x14"
definition MetadataExtensionViewTypes :: int where [go_consts]: "MetadataExtensionViewTypes = 0x15"
definition MetadataExtensionBasicMediaMetadata :: int where [go_consts]: "MetadataExtensionBasicMediaMetadata = 0x16"
definition MetadataExtensionBridge :: int where [go_consts]: "MetadataExtensionBridge = 0x17"
definition MetadataExtensionOriginalTimestamp :: int where [go_consts]: "MetadataExtensionOriginalTimestamp = 0x18"
definition MetadataExtensionRoutingHints :: int where [go_consts]: "MetadataExtensionRoutingHints = 0x19"

definition MetadataMap :: "int \<rightharpoonup> string" where
  "MetadataMap = map_of
     [(MetadataExtensionLicenses, ''MetadataExtensionLicenses''),
      (MetadataExtensionDonationKeys, ''MetadataExtensionDonationKeys''),
      (MetadataExtensionWikidataClaims, ''MetadataExtensionWikidataClaims''),
      (MetadataExtensionLanguages, ''MetadataExtensionLanguages''),
      (MetadataExtensionSourceUris, ''MetadataExtensionSourceUris''),
      (MetadataExtensionUpdateCID, ''MetadataExtensionUpdateCID''),
      (MetadataExtensionPreviousVersions, ''MetadataExtensionPreviousVersions''),
      (MetadataExtensionTimestamp, ''MetadataExtensionTimestamp''),
      (MetadataExtensionTags, ''MetadataExtensionTags''),
      (MetadataExtensionCategories, ''MetadataExtensionCategories''),
      (MetadataExtensionViewTypes, ''MetadataExtensionViewTypes''),
      (MetadataExtensionBasicMediaMetadata, ''MetadataExtensionBasicMediaMetadata''),
      (MetadataExtensionBridge, ''MetadataExtensionBridge''),
      (MetadataExtensionOriginalTimestamp, ''MetadataExtensionOriginalTimestamp''),
      (MetadataExtensionRoutingHints, ''MetadataExtensionRoutingHints'')]"

definition MetadataMagicByte :: int where [go_consts]: "MetadataMagicByte = 0x5f"

definition MetadataTypeMedia :: int where [go_consts]: "MetadataTypeMedia = 0x02"
definition MetadataTypeWebApp :: int where [go_consts]: "MetadataTypeWebApp = 0x03"
definition MetadataTypeDirectory :: int where [go_consts]: "MetadataTypeDirectory = 0x04"
definition MetadataTypeProof :: int where [go_consts]: "MetadataTypeProof = 0x05"
definition MetadataTypeUserIdentity :: int where [go_consts]: "MetadataTypeUserIdentity = 0x07"

definition MetadataTypeMap :: "string \<rightharpoonup> int" where
  "MetadataTypeMap = map_of [(''Media'', MetadataTypeMedia), (''WebApp'', MetadataTypeWebApp),
     (''Directory'', MetadataTypeDirectory), (''Proof'', MetadataTypeProof), (''UserIdentity'', MetadataTypeUserIdentity)]"

definition MetadataProofTypeSignature :: int where [go_consts]: "MetadataProofTypeSignature = 0x01"
definition MetadataProofTypeTimestamp :: int where [go_consts]: "MetadataProofTypeTimestamp = 0x02"

definition MetadataProofTypeMap :: "string \<rightharpoonup> int" where
  "MetadataProofTypeMap = map_of [(''Signature'', MetadataProofTypeSignature), (''Timestamp'', MetadataProofTypeTimestamp)]"

definition ParentLinkTypeUserIdentity :: int where [go_consts]: "ParentLinkTypeUserIdentity = 0x01"
definition ParentLinkTypeBoard :: int where [go_consts]: "ParentLinkTypeBoard = 0x05"
definition ParentLinkTypeBridgeUser :: int where [go_consts]: "ParentLinkTypeBridgeUser = 0x0A"

definition ParentLinkTypeMap :: "int \<rightharpoonup> string" where
  "ParentLinkTypeMap = map_of [(ParentLinkTypeUserIdentity, ''UserIdentity''), (ParentLinkTypeBoard, ''Board''),
     (ParentLinkTypeBridgeUser, ''BridgeUser'')]"

section \<open>The methods of the msgpack package\<close>

text \<open>
  \<open>ml_Encode\<close> encodes the value of an interface; \<open>ml_IsNil\<close> looks whether the next code is nil;
  the length of a nil array or map is read as \<open>-1\<close>; a float is its 64 bits. \<open>ml_spare\<close> is what lies behind a decoded byte
  slice in its backing array.
\<close>

record meta_lib =
  ml_mp :: msgpack_lib
  ml_EncodeNil :: bytes
  ml_IsNil :: "bytes \<Rightarrow> bool"
  ml_EncodeArrayLen :: "int \<Rightarrow> bytes"
  ml_EncodeMapLen :: "int \<Rightarrow> bytes"
  ml_Encode :: "goval \<Rightarrow> bytes outcome"
  ml_DecodeNil :: "bytes \<Rightarrow> bytes outcome"
  ml_DecodeArrayLen :: "bytes \<Rightarrow> (int \<times> bytes) outcome"
  ml_DecodeMapLen :: "bytes \<Rightarrow> (int \<times> bytes) outcome"
  ml_DecodeInt8 :: "bytes \<Rightarrow> (int \<times> bytes) outcome"
  ml_DecodeUint8 :: "bytes \<Rightarrow> (int \<times> bytes) outcome"
  ml_DecodeUint64 :: "bytes \<Rightarrow> (u64 \<times> bytes) outcome"
  ml_DecodeFloat64 :: "bytes \<Rightarrow> (u64 \<times> bytes) outcome"
  ml_DecodeInterface :: "bytes \<Rightarrow> (goval \<times> bytes) outcome"
  ml_spare :: "bytes \<Rightarrow> bytes"

text \<open>The encoder writes an integer in the shortest form, and the form is the type of the interface.\<close>

definition wire_kind :: "int \<Rightarrow> int_kind" where
  "wire_kind n =
     (if n < - (2 ^ 31) then K_int64 else if n < - (2 ^ 15) then K_int32 else if n < - (2 ^ 7) then K_int16
      else if n < 2 ^ 7 then K_int8 else if n < 2 ^ 8 then K_uint8 else if n < 2 ^ 16 then K_uint16
      else if n < 2 ^ 32 then K_uint32 else K_uint64)"

definition meta_laws :: "meta_lib \<Rightarrow> bool" where
  "meta_laws ml \<longleftrightarrow> msgpack_laws (ml_mp ml) \<and>
     (\<forall>r. ml_IsNil ml (ml_EncodeNil ml @ r)) \<and>
     (\<forall>r. ml_DecodeNil ml (ml_EncodeNil ml @ r) = Ok r) \<and>
     (\<forall>n r. 0 \<le> n \<and> n < 2 ^ 32 \<longrightarrow> \<not> ml_IsNil ml (ml_EncodeArrayLen ml n @ r) \<and>
        ml_DecodeArrayLen ml (ml_EncodeArrayLen ml n @ r) = Ok (n, r)) \<and>
     (\<forall>n r. 0 \<le> n \<and> n < 2 ^ 32 \<longrightarrow> \<not> ml_IsNil ml (ml_EncodeMapLen ml n @ r) \<and>
        ml_DecodeMapLen ml (ml_EncodeMapLen ml n @ r) = Ok (n, r)) \<and>
     (\<forall>n r. - (2 ^ 7) \<le> n \<and> n < 2 ^ 7 \<longrightarrow> ml_DecodeInt8 ml (mp_EncodeInt (ml_mp ml) n @ r) = Ok (n, r)) \<and>
     (\<forall>n r. 0 \<le> n \<and> n < 2 ^ 8 \<longrightarrow> ml_DecodeUint8 ml (mp_EncodeInt (ml_mp ml) n @ r) = Ok (n, r)) \<and>
     (\<forall>s r. length s < 2 ^ 32 \<longrightarrow> (\<exists>e. ml_DecodeInt8 ml (mp_EncodeString (ml_mp ml) s @ r) = Err e)) \<and>
     (\<forall>n r. int64_range n \<longrightarrow> ml_DecodeInterface ml (mp_EncodeInt (ml_mp ml) n @ r) = Ok (VInt (wire_kind n) n, r)) \<and>
     (\<forall>s r. length s < 2 ^ 32 \<longrightarrow> ml_DecodeInterface ml (mp_EncodeString (ml_mp ml) s @ r) = Ok (VStr s, r)) \<and>
     (\<forall>b r. length b < 2 ^ 32 \<longrightarrow> ml_DecodeInterface ml (mp_EncodeBytes (ml_mp ml) b @ r) = Ok (VBytes b, r)) \<and>
     (\<forall>r. ml_DecodeInterface ml (ml_EncodeNil ml @ r) = Ok (VNil, r)) \<and>
     (\<forall>w r. uint w < 2 ^ 63 \<longrightarrow> ml_DecodeUint64 ml (mp_EncodeInt (ml_mp ml) (uint w) @ r) = Ok (w, r)) \<and>
     (\<forall>b r. length b < 2 ^ 32 \<longrightarrow> \<not> ml_IsNil ml (mp_EncodeBytes (ml_mp ml) b @ r)) \<and>
     (\<forall>n r. \<not> ml_IsNil ml (mp_EncodeInt (ml_mp ml) n @ r)) \<and>
     (\<forall>s. ml_Encode ml (VStr s) = Ok (mp_EncodeString (ml_mp ml) s)) \<and>
     (\<forall>b. ml_Encode ml (VBytes b) = Ok (mp_EncodeBytes (ml_mp ml) b)) \<and>
     (\<forall>n. int64_range n \<longrightarrow> ml_Encode ml (VInt K_int n) = Ok (mp_EncodeInt (ml_mp ml) n))"

lemma meta_msgpack: "meta_laws ml \<Longrightarrow> msgpack_laws (ml_mp ml)"
  and meta_nil: "meta_laws ml \<Longrightarrow> ml_IsNil ml (ml_EncodeNil ml @ r)" "meta_laws ml \<Longrightarrow> ml_DecodeNil ml (ml_EncodeNil ml @ r) = Ok r"
  and meta_array: "meta_laws ml \<Longrightarrow> 0 \<le> n \<Longrightarrow> n < 2 ^ 32 \<Longrightarrow> ml_DecodeArrayLen ml (ml_EncodeArrayLen ml n @ r) = Ok (n, r)"
    "meta_laws ml \<Longrightarrow> 0 \<le> n \<Longrightarrow> n < 2 ^ 32 \<Longrightarrow> \<not> ml_IsNil ml (ml_EncodeArrayLen ml n @ r)"
  and meta_map: "meta_laws ml \<Longrightarrow> 0 \<le> n \<Longrightarrow> n < 2 ^ 32 \<Longrightarrow> ml_DecodeMapLen ml (ml_EncodeMapLen ml n @ r) = Ok (n, r)"
    "meta_laws ml \<Longrightarrow> 0 \<le> n \<Longrightarrow> n < 2 ^ 32 \<Longrightarrow> \<not> ml_IsNil ml (ml_EncodeMapLen ml n @ r)"
  and meta_int8: "meta_laws ml \<Longrightarrow> - (2 ^ 7) \<le> n \<Longrightarrow> n < 2 ^ 7 \<Longrightarrow> ml_DecodeInt8 ml (mp_EncodeInt (ml_mp ml) n @ r) = Ok (n, r)"
  and meta_uint8: "meta_laws ml \<Longrightarrow> 0 \<le> n \<Longrightarrow> n < 2 ^ 8 \<Longrightarrow> ml_DecodeUint8 ml (mp_EncodeInt (ml_mp ml) n @ r) = Ok (n, r)"
  and meta_string_int8: "meta_laws ml \<Longrightarrow> length s < 2 ^ 32 \<Longrightarrow> \<exists>e. ml_DecodeInt8 ml (mp_EncodeString (ml_mp ml) s @ r) = Err e"
  and meta_interface_int: "meta_laws ml \<Longrightarrow> int64_range n \<Longrightarrow>
    ml_DecodeInterface ml (mp_EncodeInt (ml_mp ml) n @ r) = Ok (VInt (wire_kind n) n, r)"
  and meta_interface_string: "meta_laws ml \<Longrightarrow> length s < 2 ^ 32 \<Longrightarrow>
    ml_DecodeInterface ml (mp_EncodeString (ml_mp ml) s @ r) = Ok (VStr s, r)"
  and meta_interface_bytes: "meta_laws ml \<Longrightarrow> length b < 2 ^ 32 \<Longrightarrow>
    ml_DecodeInterface ml (mp_EncodeBytes (ml_mp ml) b @ r) = Ok (VBytes b, r)"
  and meta_interface_nil: "meta_laws ml \<Longrightarrow> ml_DecodeInterface ml (ml_EncodeNil ml @ r) = Ok (VNil, r)"
  and meta_uint64: "meta_laws ml \<Longrightarrow> uint w < 2 ^ 63 \<Longrightarrow> ml_DecodeUint64 ml (mp_EncodeInt (ml_mp ml) (uint w) @ r) = Ok (w, r)"
  and meta_bytes_not_nil: "meta_laws ml \<Longrightarrow> length b < 2 ^ 32 \<Longrightarrow> \<not> ml_IsNil ml (mp_EncodeBytes (ml_mp ml) b @ r)"
  and meta_int_not_nil: "meta_laws ml \<Longrightarrow> \<not> ml_IsNil ml (mp_EncodeInt (ml_mp ml) n @ r)"
  and meta_encode: "meta_laws ml \<Longrightarrow> ml_Encode ml (VStr s) = Ok (mp_EncodeString (ml_mp ml) s)"
    "meta_laws ml \<Longrightarrow> ml_Encode ml (VBytes b) = Ok (mp_EncodeBytes (ml_mp ml) b)"
    "meta_laws ml \<Longrightarrow> int64_range n \<Longrightarrow> ml_Encode ml (VInt K_int n) = Ok (mp_EncodeInt (ml_mp ml) n)"
  by (auto simp: meta_laws_def)

section \<open>A lawful instance\<close>

text \<open>For the witnesses, over the wide forms of \<open>wide_msgpack\<close>, with the types of the shortest form.\<close>

definition wide_len :: "byte \<Rightarrow> int \<Rightarrow> bytes" where
  "wide_len code n = code # rev (EncodeEndian (word_of_int n) 4)"

definition read_len :: "byte \<Rightarrow> bytes \<Rightarrow> (int \<times> bytes) outcome" where
  "read_len code bs = (case bs of [] \<Rightarrow> Err (LibError ''EOF'') | c # r \<Rightarrow>
     if c = 0xc0 then Ok (-1, r) else if c \<noteq> code then Err (LibError ''code'')
     else obind (be_take 4 r) (\<lambda>(w, r'). Ok (uint w, r')))"

definition wide_interface :: "bytes \<Rightarrow> (goval \<times> bytes) outcome" where
  "wide_interface bs = (case bs of [] \<Rightarrow> Err (LibError ''EOF'') | c # r \<Rightarrow>
     if c = 0xc0 then Ok (VNil, r)
     else if c = 0xdb then obind (read_raw 0xdb bs) (\<lambda>(x, r). Ok (VStr (string_of_bytes x), r))
     else if c = 0xc6 then obind (read_raw 0xc6 bs) (\<lambda>(x, r). Ok (VBytes x, r))
     else obind (read_int bs) (\<lambda>(n, r). Ok (VInt (wire_kind n) n, r)))"

definition wide_meta :: meta_lib where
  "wide_meta = \<lparr>ml_mp = wide_msgpack, ml_EncodeNil = [0xc0], ml_IsNil = (\<lambda>bs. bs \<noteq> [] \<and> hd bs = 0xc0),
     ml_EncodeArrayLen = wide_len 0xdd, ml_EncodeMapLen = wide_len 0xdf,
     ml_Encode = (\<lambda>v. case v of VInt _ n \<Rightarrow> Ok (wide_int n) | VStr s \<Rightarrow> Ok (wide_raw 0xdb (bytes_of_string s))
       | VBytes b \<Rightarrow> Ok (wide_raw 0xc6 b) | VNil \<Rightarrow> Ok [0xc0] | _ \<Rightarrow> Err (LibError ''unsupported'')),
     ml_DecodeNil = (\<lambda>bs. if bs \<noteq> [] \<and> hd bs = 0xc0 then Ok (tl bs) else Err (LibError ''code'')),
     ml_DecodeArrayLen = read_len 0xdd, ml_DecodeMapLen = read_len 0xdf,
     ml_DecodeInt8 = (\<lambda>bs. obind (read_int bs) (\<lambda>(n, r). Ok (sint (word_of_int n :: byte), r))),
     ml_DecodeUint8 = (\<lambda>bs. obind (read_int bs) (\<lambda>(n, r). Ok (uint (word_of_int n :: byte), r))),
     ml_DecodeUint64 = (\<lambda>bs. obind (read_int bs) (\<lambda>(n, r). Ok (word_of_int n, r))),
     ml_DecodeFloat64 = (\<lambda>bs. if bs \<noteq> [] \<and> hd bs = 0xcb then be_take 8 (tl bs) else Err (LibError ''code'')),
     ml_DecodeInterface = wide_interface, ml_spare = (\<lambda>_. [])\<rparr>"

lemma read_wide_len:
  assumes "0 \<le> n" "n < 2 ^ 32" "code \<noteq> 0xc0"
  shows "read_len code (wide_len code n @ r) = Ok (n, r)"
proof -
  have "uint (word_of_int n :: u64) = n" using assms by (simp add: uint_word_of_int)
  moreover from this have "unat (word_of_int n :: u64) < 256 ^ 4"
    using assms by (simp add: unat_eq_nat_uint nat_less_iff)
  ultimately show ?thesis
    using assms by (simp add: read_len_def wide_len_def be_take_encoded)
qed

lemma wide_len_cons: "wide_len code n \<noteq> []" "hd (wide_len code n @ r) = code"
  by (simp_all add: wide_len_def)

lemma wide_meta_laws: "meta_laws wide_meta"
proof -
  have small: "int64_range n" if "- (2 ^ 7) \<le> n" "n < 2 ^ 8" for n using that by (simp add: int64_range_def)
  have s8: "sint (word_of_int n :: byte) = n" if "- (2 ^ 7) \<le> n" "n < 2 ^ 7" for n
    using that by (simp add: sint_sbintrunc' signed_take_bit_int_eq_self)
  have u8: "uint (word_of_int n :: byte) = n" if "0 \<le> n" "n < 2 ^ 8" for n
    using that by (simp add: uint_word_of_int)
  have tag: "wide_raw c b @ r = c # (rev (EncodeEndian (word_of_nat (length b)) 4) @ b @ r)" for c b r
    by (simp add: wide_raw_def)
  have itag: "wide_int n @ r = 0xd3 # (rev (EncodeEndian (word_of_int n) 8) @ r)" for n r
    by (simp add: wide_int_def)
  have str: "wide_interface (wide_raw 0xdb (bytes_of_string s) @ r) = Ok (VStr s, r)" if "length s < 2 ^ 32" for s r
    using that read_wide_raw [of "bytes_of_string s" "0xdb" r] by (simp add: wide_interface_def tag)
  have bin: "wide_interface (wide_raw 0xc6 b @ r) = Ok (VBytes b, r)" if "length b < 2 ^ 32" for b r
    using that read_wide_raw [of b "0xc6" r] by (simp add: wide_interface_def tag)
  have int: "wide_interface (wide_int n @ r) = Ok (VInt (wire_kind n) n, r)" if "int64_range n" for n r
    using read_wide_int [OF that, of r] by (simp add: wide_interface_def itag)
  have raw: "hd (wide_raw c b @ r) = c" for c b r by (simp add: wide_raw_def)
  have iraw: "wide_int n \<noteq> []" "hd (wide_int n @ r) = 0xd3" for n r by (simp_all add: wide_int_def)
  have nil: "wide_interface (0xc0 # r) = Ok (VNil, r)" for r by (simp add: wide_interface_def)
  have u64: "int64_range (uint w)" if "uint w < 2 ^ 63" for w :: u64
    using that by (simp add: int64_range_def order.trans [OF _ uint_ge_0])
  have noint: "read_int (wide_raw 0xdb b @ r) = Err (LibError ''code'')" for b r
    by (simp add: read_int_def tag)
  have mp: "ml_mp wide_meta = wide_msgpack" "mp_EncodeInt wide_msgpack = wide_int" "mp_EncodeBytes wide_msgpack = wide_raw 0xc6"
    "mp_EncodeString wide_msgpack s = wide_raw 0xdb (bytes_of_string s)" for s
    by (simp_all add: wide_meta_def wide_msgpack_def)
  show ?thesis
    unfolding meta_laws_def mp
    using wide_msgpack_laws small s8 u8 str bin int noint
    by (auto simp: wide_meta_def read_wide_len read_wide_int wide_len_cons nil u64 raw iraw)
qed


section \<open>serialize/seralizer.go\<close>

definition InitMarshaller :: "meta_lib \<Rightarrow> int \<Rightarrow> bytes" where
  "InitMarshaller ml kind = mp_EncodeInt (ml_mp ml) MetadataMagicByte @ mp_EncodeInt (ml_mp ml) kind"

definition InitUnmarshaller :: "meta_lib \<Rightarrow> int list \<Rightarrow> bytes \<Rightarrow> (int \<times> bytes) outcome" where
  "InitUnmarshaller ml kinds bs =
     obind (ml_DecodeUint8 ml bs) (\<lambda>(val, bs).
       if val \<noteq> MetadataMagicByte then Err (GoError ''Invalid magic byte'' [])
       else obind (ml_DecodeUint8 ml bs) (\<lambda>(val, bs).
         let convertedKinds = map (\<lambda>v. v mod 2 ^ 8) kinds in
         if val \<notin> set convertedKinds then Err (GoError ''Invalid metadata type'' []) else Ok (val, bs)))"

lemma InitUnmarshaller_header:
  assumes "meta_laws ml" "kind \<in> set kinds" "0 \<le> kind" "kind < 2 ^ 8"
  shows "InitUnmarshaller ml kinds (InitMarshaller ml kind @ r) = Ok (kind, r)"
proof -
  have "kind mod 2 ^ 8 = kind" using assms(3,4) by (rule mod_pos_pos_trivial)
  with assms(2) have "kind \<in> set (map (\<lambda>v. v mod 2 ^ 8) kinds)" by (force intro: rev_image_eqI)
  moreover have "ml_DecodeUint8 ml (mp_EncodeInt (ml_mp ml) MetadataMagicByte @ x) = Ok (MetadataMagicByte, x)" for x
    using meta_uint8 [OF assms(1)] by (simp add: go_consts)
  ultimately show ?thesis
    using assms meta_uint8 [OF assms(1)]
    by (simp add: InitUnmarshaller_def InitMarshaller_def Let_def)
qed

section \<open>Loops of decoders\<close>

text \<open>A loop that decodes one item after the other; a negative length runs it not at all.\<close>

primrec dec_times :: "(bytes \<Rightarrow> ('a \<times> bytes) outcome) \<Rightarrow> nat \<Rightarrow> bytes \<Rightarrow> ('a list \<times> bytes) outcome" where
  "dec_times d 0 bs = Ok ([], bs)"
| "dec_times d (Suc n) bs =
     obind (d bs) (\<lambda>(x, bs). obind (dec_times d n bs) (\<lambda>(xs, bs). Ok (x # xs, bs)))"

lemma dec_times_encoded:
  assumes "\<And>x r. x \<in> set xs \<Longrightarrow> d (e x @ r) = Ok (f x, r)"
  shows "dec_times d (length xs) (concat (map e xs) @ r) = Ok (map f xs, r)"
  using assms by (induction xs) simp_all

text \<open>
  The contract of an encoder and a decoder that reads a prefix: what was written is read back,
  whatever follows it. So the encoding is prefix-free, and sequences are read back item by item.
\<close>

locale stream_codec =
  fixes enc :: "'a \<Rightarrow> bytes"
    and dec :: "bytes \<Rightarrow> ('a \<times> bytes) outcome"
    and valid :: "'a \<Rightarrow> bool"
  assumes dec_enc: "valid x \<Longrightarrow> dec (enc x @ r) = Ok (x, r)"
begin

lemma prefix_free: "valid x \<Longrightarrow> valid y \<Longrightarrow> enc x @ r = enc y @ s \<longleftrightarrow> x = y \<and> r = s"
  by (metis dec_enc outcome.inject(1) prod.inject)

lemma dec_many:
  "\<forall>x \<in> set xs. valid x \<Longrightarrow> dec_times dec (length xs) (concat (map enc xs) @ r) = Ok (xs, r)"
  using dec_times_encoded [of xs dec enc "\<lambda>x. x" r] dec_enc by simp

end

text \<open>How the package decodes a slice of interfaces and a slice of strings.\<close>

definition decode_slice :: "meta_lib \<Rightarrow> bytes \<Rightarrow> (goval list \<times> bytes) outcome" where
  "decode_slice ml bs =
     obind (ml_DecodeArrayLen ml bs) (\<lambda>(n, bs). dec_times (ml_DecodeInterface ml) (nat n) bs)"

definition encode_strings :: "meta_lib \<Rightarrow> string list \<Rightarrow> bytes" where
  "encode_strings ml ss =
     ml_EncodeArrayLen ml (int (length ss)) @ concat (map (mp_EncodeString (ml_mp ml)) ss)"

definition decode_strings :: "meta_lib \<Rightarrow> bytes \<Rightarrow> (string list \<times> bytes) outcome" where
  "decode_strings ml bs =
     obind (ml_DecodeArrayLen ml bs) (\<lambda>(n, bs). dec_times (mp_DecodeString (ml_mp ml)) (nat n) bs)"

definition short :: "'a list \<Rightarrow> bool" where "short xs \<longleftrightarrow> length xs < 2 ^ 32"

interpretation m_string: stream_codec "mp_EncodeString (ml_mp ml)" "mp_DecodeString (ml_mp ml)"
    "\<lambda>s. meta_laws ml \<and> short s" for ml
  by unfold_locales (simp add: short_def msgpack_string meta_msgpack)

interpretation m_strings: stream_codec "encode_strings ml" "decode_strings ml"
    "\<lambda>ss. meta_laws ml \<and> short ss \<and> (\<forall>s \<in> set ss. short s)" for ml
proof unfold_locales
  fix ss :: "string list" and r ml assume ok: "meta_laws ml \<and> short ss \<and> (\<forall>s \<in> set ss. short s)"
  then have "\<forall>s \<in> set ss. meta_laws ml \<and> short s" by blast
  from m_string.dec_many [OF this, of r] ok meta_array(1) [of ml "int (length ss)"]
  show "decode_strings ml (encode_strings ml ss @ r) = Ok (ss, r)"
    by (simp add: decode_strings_def encode_strings_def short_def)
qed

text \<open>
  The generic \<open>Decode\<close> of the package, for a type with a decoder of its own: nil yields \<open>None\<close>,
  which is a nil pointer or the zero value.
\<close>

definition decode_or_nil :: "meta_lib \<Rightarrow> (bytes \<Rightarrow> ('a \<times> bytes) outcome) \<Rightarrow> bytes \<Rightarrow> ('a option \<times> bytes) outcome" where
  "decode_or_nil ml d bs =
     (if ml_IsNil ml bs then obind (ml_DecodeNil ml bs) (\<lambda>bs. Ok (None, bs))
      else obind (d bs) (\<lambda>(x, bs). Ok (Some x, bs)))"

text \<open>The hooks of \<open>encoding/cid.go\<close> and \<open>encoding/encrypted_cid.go\<close>.\<close>

definition CID_EncodeMsgpack :: "meta_lib \<Rightarrow> CID \<Rightarrow> bytes" where
  "CID_EncodeMsgpack ml cid = mp_EncodeBytes (ml_mp ml) (ToBytes cid)"

definition EncryptedCID_EncodeMsgpack :: "meta_lib \<Rightarrow> EncryptedCID \<Rightarrow> bytes" where
  "EncryptedCID_EncodeMsgpack ml c = mp_EncodeBytes (ml_mp ml) (EncryptedCID_ToBytes c)"

text \<open>\<open>from\<close> is the parser of the two branches of the type switch.\<close>

definition decodeMsgpackCID :: "meta_lib \<Rightarrow> (bytes \<Rightarrow> bytes \<Rightarrow> 'c outcome) \<Rightarrow> bytes \<Rightarrow> ('c \<times> bytes) outcome" where
  "decodeMsgpackCID ml from bs =
     obind (mp_DecodeBytes (ml_mp ml) bs) (\<lambda>(byt, bs). obind (from (ml_spare ml byt) byt) (\<lambda>c. Ok (c, bs)))"

definition CID_DecodeMsgpack :: "meta_lib \<Rightarrow> bytes \<Rightarrow> (CID \<times> bytes) outcome" where
  "CID_DecodeMsgpack ml = decodeMsgpackCID ml CIDFromBytes"

definition EncryptedCID_DecodeMsgpack :: "meta_lib \<Rightarrow> bytes \<Rightarrow> (EncryptedCID \<times> bytes) outcome" where
  "EncryptedCID_DecodeMsgpack ml = decodeMsgpackCID ml EncryptedCIDFromBytes"

interpretation m_cid: stream_codec "CID_EncodeMsgpack ml" "CID_DecodeMsgpack ml"
    "\<lambda>c. meta_laws ml \<and> valid_cid c \<and> short (ToBytes c)" for ml
  by unfold_locales (simp add: CID_EncodeMsgpack_def CID_DecodeMsgpack_def decodeMsgpackCID_def CIDFromBytes_def
    msgpack_bytes meta_msgpack short_def cid.dec_enc)

interpretation m_ecid: stream_codec "EncryptedCID_EncodeMsgpack ml" "EncryptedCID_DecodeMsgpack ml"
    "\<lambda>c. meta_laws ml \<and> valid_ecid c \<and> short (EncryptedCID_ToBytes c)" for ml
  by unfold_locales (simp add: EncryptedCID_EncodeMsgpack_def EncryptedCID_DecodeMsgpack_def decodeMsgpackCID_def
    msgpack_bytes meta_msgpack short_def ecid.dec_enc)

section \<open>Maps with integer keys\<close>

lemma put_fresh:
  "distinct (map fst (m @ kvs)) \<Longrightarrow> fold (\<lambda>(k, v) m. Map_Put m k v) kvs m = m @ kvs"
proof (induction kvs arbitrary: m)
  case (Cons kv kvs)
  obtain k v where kv: "kv = (k, v)" by (cases kv)
  have "k \<notin> fst ` set m" using Cons.prems by (auto simp: kv)
  then have "Map_Put m k v = m @ [kv]" by (induction m) (auto simp: Map_Put_def kv)
  then show ?case using Cons.IH [of "m @ [kv]"] Cons.prems by (simp add: kv)
qed simp

lemma put_items_fresh: "distinct (map fst kvs) \<Longrightarrow> fold (\<lambda>(k, v) m. Map_Put m k v) kvs NewMap = kvs"
  using put_fresh [of "[]" kvs] by (simp add: NewMap_def)

definition decodeIntMap :: "meta_lib \<Rightarrow> bytes \<Rightarrow> ((int, goval) gomap \<times> bytes) outcome" where
  "decodeIntMap ml bs =
     obind (ml_DecodeMapLen ml bs) (\<lambda>(mapLen, bs).
     obind (dec_times (\<lambda>bs. obind (mp_DecodeInt (ml_mp ml) bs) (\<lambda>(key, bs).
         obind (ml_DecodeInterface ml bs) (\<lambda>(val, bs). Ok ((key, val), bs)))) (nat mapLen) bs) (\<lambda>(kvs, bs).
       Ok (fold (\<lambda>(key, val) data. Map_Put data key val) kvs NewMap, bs)))"

text \<open>How the package encodes a \<open>map[int]interface{}\<close>; \<open>None\<close> is a nil map.\<close>

primrec encode_int_items :: "meta_lib \<Rightarrow> (int \<times> goval) list \<Rightarrow> bytes outcome" where
  "encode_int_items ml [] = Ok []"
| "encode_int_items ml (kv # kvs) =
     obind (ml_Encode ml (snd kv)) (\<lambda>v. obind (encode_int_items ml kvs) (\<lambda>bs.
       Ok (mp_EncodeInt (ml_mp ml) (fst kv) @ v @ bs)))"

definition encode_int_map :: "meta_lib \<Rightarrow> (int, goval) gomap option \<Rightarrow> bytes outcome" where
  "encode_int_map ml m =
     (case m of
        None \<Rightarrow> Ok (ml_EncodeNil ml)
      | Some m \<Rightarrow> obind (encode_int_items ml m) (\<lambda>bs. Ok (ml_EncodeMapLen ml (int (length m)) @ bs)))"

text \<open>
  A value as the reader of its encoding sees it, for the values that are read back at all: an
  \<open>int\<close> comes back with the type of its shortest form.
\<close>

fun wire_value :: "goval \<Rightarrow> goval" where
  "wire_value (VInt k n) = VInt (wire_kind n) n"
| "wire_value v = v"

fun wire_ok :: "goval \<Rightarrow> bool" where
  "wire_ok (VInt k n) \<longleftrightarrow> k = K_int \<and> int64_range n"
| "wire_ok (VStr s) \<longleftrightarrow> short s"
| "wire_ok (VBytes b) \<longleftrightarrow> short b"
| "wire_ok _ \<longleftrightarrow> False"

lemma wire_value_read:
  assumes "meta_laws ml" "wire_ok v"
  shows "\<exists>b. ml_Encode ml v = Ok b \<and> (\<forall>r. ml_DecodeInterface ml (b @ r) = Ok (wire_value v, r))"
  using assms by (cases v) (auto simp: meta_encode meta_interface_int meta_interface_string meta_interface_bytes short_def)

definition int_map_ok :: "(int, goval) gomap \<Rightarrow> bool" where
  "int_map_ok m \<longleftrightarrow> short m \<and> distinct (map fst m) \<and> (\<forall>(k, v) \<in> set m. int64_range k \<and> wire_ok v)"

lemma int_items_read:
  assumes "meta_laws ml" "\<forall>(k, v) \<in> set m. int64_range k \<and> wire_ok v"
  shows "\<exists>b. encode_int_items ml m = Ok b \<and>
    (\<forall>r. dec_times (\<lambda>bs. obind (mp_DecodeInt (ml_mp ml) bs) (\<lambda>(key, bs).
         obind (ml_DecodeInterface ml bs) (\<lambda>(val, bs). Ok ((key, val), bs)))) (length m) (b @ r) =
       Ok (map (apsnd wire_value) m, r))"
  using assms(2)
proof (induction m)
  case (Cons kv m)
  obtain k v where kv: "kv = (k, v)" by (cases kv)
  from Cons.prems have "int64_range k" "wire_ok v" and rest: "\<forall>(k, v) \<in> set m. int64_range k \<and> wire_ok v" by (auto simp: kv)
  with wire_value_read [OF assms(1)] Cons.IH [OF rest] msgpack_int [OF meta_msgpack [OF assms(1)]]
  show ?case by (fastforce simp: kv)
qed simp

end
