(* ===== verification/Web_App.thy ===== *)
theory Web_App
  imports Meta_Lib "HOL-Library.List_Lexorder" "HOL-Library.Char_ord"
begin

text \<open>
  \<open>metadata/extra.go\<close>, \<open>metadata/web_app.go\<close> and \<open>metadata/web_app_reference.go\<close>: extension
  data, and the metadata of a web app with its map of files. Lemmas: a web app without extension
  data is read back, with its files in order; one with extension data is not.
\<close>

section \<open>extra.go\<close>

text \<open>A value of the extension data: what a decoder yields, or a parsed identifier.\<close>

datatype extra_value = EV goval | EV_CID CID

record ExtraMetadata =
  em_Data :: "(int, extra_value) gomap"

definition NewExtraMetadata :: "(int, extra_value) gomap \<Rightarrow> ExtraMetadata" where
  "NewExtraMetadata data = \<lparr>em_Data = data\<rparr>"

definition extension_names :: "(int \<times> string) list" where
  "extension_names =
     [(MetadataExtensionLicenses, ''licenses''), (MetadataExtensionDonationKeys, ''donationKeys''),
      (MetadataExtensionWikidataClaims, ''wikidataClaims''), (MetadataExtensionLanguages, ''languages''),
      (MetadataExtensionSourceUris, ''sourceUris''), (MetadataExtensionPreviousVersions, ''previousVersions''),
      (MetadataExtensionTimestamp, ''timestamp''), (MetadataExtensionOriginalTimestamp, ''originalTimestamp''),
      (MetadataExtensionTags, ''tags''), (MetadataExtensionCategories, ''categories''),
      (MetadataExtensionBasicMediaMetadata, ''basicMediaMetadata''), (MetadataExtensionViewTypes, ''viewTypes''),
      (MetadataExtensionBridge, ''bridge''), (MetadataExtensionRoutingHints, ''routingHints'')]"

definition namesReverse :: "string \<rightharpoonup> int" where
  "namesReverse = map_of (map (\<lambda>(k, n). (n, k)) extension_names)"

text \<open>The dynamic type of a key, as far as the switch tells them apart.\<close>

datatype extra_key = Key_string string | Key_int8 int | Key_other

definition decodeItem ::
  "meta_lib \<Rightarrow> extra_key \<Rightarrow> goval \<Rightarrow> ExtraMetadata \<Rightarrow> ExtraMetadata outcome" where
  "decodeItem ml key val em =
     obind (case key of
         Key_string k \<Rightarrow> (case namesReverse k of
             Some v \<Rightarrow> Ok v | None \<Rightarrow> Err (GoError (''unknown key in JSON: '' @ k) []))
       | Key_int8 k \<Rightarrow> Ok k
       | Key_other \<Rightarrow> Err (GoError ''unsupported key type'' [])) (\<lambda>metadataKey.
     if metadataKey = MetadataExtensionUpdateCID then
       (case val of
          VStr s \<Rightarrow> obind (CIDFromBytes (ml_spare ml (bytes_of_string s)) (bytes_of_string s)) (\<lambda>cid.
            Ok (em\<lparr>em_Data := Map_Put (em_Data em) metadataKey (EV_CID cid)\<rparr>))
        | _ \<Rightarrow> Panic)
     else Ok (em\<lparr>em_Data := Map_Put (em_Data em) metadataKey (EV val)\<rparr>))"

text \<open>\<open>json\<close> is the parser of an object with integer keys.\<close>

definition ExtraMetadata_UnmarshalJSON ::
  "meta_lib \<Rightarrow> (bytes \<Rightarrow> (int \<times> goval) list outcome) \<Rightarrow> bytes \<Rightarrow> ExtraMetadata outcome" where
  "ExtraMetadata_UnmarshalJSON ml json data =
     obind (json data) (\<lambda>jsonObject.
       fold (\<lambda>(name, val) em. obind em (decodeItem ml Key_other val)) jsonObject (Ok \<lparr>em_Data = NewMap\<rparr>))"

definition extra_item :: "meta_lib \<Rightarrow> bytes \<Rightarrow> ((int \<times> goval) \<times> bytes) outcome" where
  "extra_item ml bs =
     obind (ml_DecodeInt8 ml bs) (\<lambda>(key, bs).
     obind (if key = MetadataExtensionUpdateCID
            then obind (mp_DecodeString (ml_mp ml) bs) (\<lambda>(s, bs). Ok (VStr s, bs))
            else ml_DecodeInterface ml bs) (\<lambda>(val, bs).
       Ok ((key, val), bs)))"

primrec extra_items :: "meta_lib \<Rightarrow> nat \<Rightarrow> ExtraMetadata \<Rightarrow> bytes \<Rightarrow> (ExtraMetadata \<times> bytes) outcome" where
  "extra_items ml 0 em bs = Ok (em, bs)"
| "extra_items ml (Suc n) em bs =
     obind (extra_item ml bs) (\<lambda>((key, val), bs).
     obind (decodeItem ml (Key_int8 key) val em) (\<lambda>em. extra_items ml n em bs))"

definition ExtraMetadata_DecodeMsgpack :: "meta_lib \<Rightarrow> bytes \<Rightarrow> (ExtraMetadata \<times> bytes) outcome" where
  "ExtraMetadata_DecodeMsgpack ml bs =
     obind (ml_DecodeMapLen ml bs) (\<lambda>(mapLen, bs). extra_items ml (nat mapLen) \<lparr>em_Data = NewMap\<rparr> bs)"

text \<open>
  The object of named values. There is no name for \<open>MetadataExtensionUpdateCID\<close>, so the branch
  for it is not reached.
\<close>

definition extra_encode_item ::
  "meta_lib \<Rightarrow> multibase_lib \<Rightarrow> int \<times> extra_value \<Rightarrow> (string, extra_value) gomap \<Rightarrow> (string, extra_value) gomap outcome" where
  "extra_encode_item ml mb kv jsonObject =
     (case kv of (key, val) \<Rightarrow> case map_of extension_names key of
        None \<Rightarrow> Ok jsonObject
      | Some name \<Rightarrow>
          if key = MetadataExtensionUpdateCID then
            (case val of
               EV (VBytes b) \<Rightarrow>
                 (case obind (CIDFromBytes (ml_spare ml b) b) (CID_ToString mb) of
                    Ok cidString \<Rightarrow> Ok (Map_Put jsonObject ''updateCID'' (EV (VStr cidString)))
                  | Err _ \<Rightarrow> Ok (Map_Put jsonObject ''updateCID'' (EV (VStr [])))
                  | Panic \<Rightarrow> Panic)
             | _ \<Rightarrow> Panic)
          else Ok (Map_Put jsonObject name val))"

definition extra_encode :: "meta_lib \<Rightarrow> multibase_lib \<Rightarrow> ExtraMetadata \<Rightarrow> (string, extra_value) gomap outcome" where
  "extra_encode ml mb em = fold (\<lambda>kv acc. obind acc (extra_encode_item ml mb kv)) (em_Data em) (Ok NewMap)"

definition encode_extra_value :: "meta_lib \<Rightarrow> extra_value \<Rightarrow> bytes outcome" where
  "encode_extra_value ml v =
     (case v of EV g \<Rightarrow> ml_Encode ml g | EV_CID cid \<Rightarrow> Ok (mp_EncodeBytes (ml_mp ml) (ToBytes cid)))"

primrec encode_object :: "meta_lib \<Rightarrow> (string \<times> extra_value) list \<Rightarrow> bytes outcome" where
  "encode_object ml [] = Ok []"
| "encode_object ml (kv # kvs) =
     obind (encode_extra_value ml (snd kv)) (\<lambda>v. obind (encode_object ml kvs) (\<lambda>bs.
       Ok (mp_EncodeString (ml_mp ml) (fst kv) @ v @ bs)))"

definition ExtraMetadata_EncodeMsgpack :: "meta_lib \<Rightarrow> multibase_lib \<Rightarrow> ExtraMetadata \<Rightarrow> bytes outcome" where
  "ExtraMetadata_EncodeMsgpack ml mb em =
     obind (extra_encode ml mb em) (\<lambda>data. obind (encode_object ml data) (\<lambda>bs.
       Ok (ml_EncodeMapLen ml (int (length data)) @ bs)))"

section \<open>web_app.go\<close>

record WebAppMetadataFileReference =
  wr_ContentType :: string
  wr_Cid :: "CID option"

definition NewWebAppMetadataFileReference :: "CID option \<Rightarrow> string \<Rightarrow> WebAppMetadataFileReference" where
  "NewWebAppMetadataFileReference cid contentType = \<lparr>wr_ContentType = contentType, wr_Cid = cid\<rparr>"

text \<open>
  The file map is a linked hash map, which keeps the order of insertion; nil maps, slices and
  pointers are \<open>None\<close>.
\<close>

type_synonym WebAppFileMap = "(string, WebAppMetadataFileReference) gomap"
type_synonym WebAppErrorPages = "(int, string) gomap"

record WebAppMetadata =
  wa_Type :: string
  wa_Name :: string
  wa_TryFiles :: "string list option"
  wa_ErrorPages :: "WebAppErrorPages option"
  wa_ExtraMetadata :: ExtraMetadata
  wa_Paths :: "WebAppFileMap option"

definition NewWebAppMetadata ::
  "string \<Rightarrow> string list option \<Rightarrow> ExtraMetadata \<Rightarrow> WebAppErrorPages option \<Rightarrow> WebAppFileMap option \<Rightarrow> WebAppMetadata" where
  "NewWebAppMetadata name tryFiles extraMetadata errorPages paths =
     \<lparr>wa_Type = [], wa_Name = name, wa_TryFiles = tryFiles, wa_ErrorPages = errorPages,
      wa_ExtraMetadata = extraMetadata, wa_Paths = paths\<rparr>"

definition NewEmptyWebAppMetadata :: WebAppMetadata where
  "NewEmptyWebAppMetadata = NewWebAppMetadata [] None \<lparr>em_Data = NewMap\<rparr> None None"

definition NewWebAppFileMap :: WebAppFileMap where "NewWebAppFileMap = NewMap"

definition FileMap_Put :: "WebAppFileMap \<Rightarrow> string \<Rightarrow> WebAppMetadataFileReference \<Rightarrow> WebAppFileMap" where
  "FileMap_Put wafm key val = Map_Put wafm key val"

definition FileMap_Remove :: "WebAppFileMap \<Rightarrow> string \<Rightarrow> WebAppFileMap" where
  "FileMap_Remove wafm key = Map_Remove wafm key"

definition FileMap_Keys :: "WebAppFileMap \<Rightarrow> string list" where
  "FileMap_Keys wafm = Map_Keys wafm"

definition FileMap_Values :: "WebAppFileMap \<Rightarrow> WebAppMetadataFileReference list" where
  "FileMap_Values wafm = Map_Values wafm"

lemmas file_map_defs [simp] = NewWebAppFileMap_def FileMap_Put_def FileMap_Remove_def FileMap_Keys_def FileMap_Values_def

definition FileMap_Get :: "WebAppFileMap \<Rightarrow> string \<Rightarrow> WebAppMetadataFileReference \<times> bool" where
  "FileMap_Get wafm key =
     (case Map_Get wafm key of None \<Rightarrow> (\<lparr>wr_ContentType = [], wr_Cid = None\<rparr>, False) | Some val \<Rightarrow> (val, True))"

text \<open>\<open>sort.Strings\<close> compares byte by byte, which is the order of strings here.\<close>

definition FileMap_Sort :: "WebAppFileMap \<Rightarrow> WebAppFileMap" where
  "FileMap_Sort wafm =
     fold (\<lambda>key newMap. FileMap_Put newMap key (fst (FileMap_Get wafm key))) (sort (FileMap_Keys wafm)) NewWebAppFileMap"

definition encode_file :: "meta_lib \<Rightarrow> string \<times> WebAppMetadataFileReference \<Rightarrow> bytes outcome" where
  "encode_file ml kv =
     (case wr_Cid (snd kv) of
        None \<Rightarrow> Panic
      | Some cid \<Rightarrow> Ok (ml_EncodeArrayLen ml 3 @ mp_EncodeString (ml_mp ml) (fst kv) @
          mp_EncodeBytes (ml_mp ml) (ToBytes cid) @ mp_EncodeString (ml_mp ml) (wr_ContentType (snd kv))))"

primrec encode_files :: "meta_lib \<Rightarrow> (string \<times> WebAppMetadataFileReference) list \<Rightarrow> bytes outcome" where
  "encode_files ml [] = Ok []"
| "encode_files ml (kv # kvs) =
     obind (encode_file ml kv) (\<lambda>b. obind (encode_files ml kvs) (\<lambda>bs. Ok (b @ bs)))"

definition FileMap_EncodeMsgpack :: "meta_lib \<Rightarrow> WebAppFileMap \<Rightarrow> bytes outcome" where
  "FileMap_EncodeMsgpack ml wafm =
     (let wafm = FileMap_Sort wafm in
      obind (encode_files ml wafm) (\<lambda>bs. Ok (ml_EncodeArrayLen ml (int (length wafm)) @ bs)))"

text \<open>
  One entry. The length is compared before the array is read, when it is 3; a shorter array makes
  the index expressions panic.
\<close>

definition decode_file :: "meta_lib \<Rightarrow> bytes \<Rightarrow> ((string \<times> WebAppMetadataFileReference) \<times> bytes) outcome" where
  "decode_file ml bs =
     obind (decode_slice ml bs) (\<lambda>(data, bs).
     obind (go_index data 0) (\<lambda>d0. case d0 of
       VStr path \<Rightarrow>
         obind (go_index data 1) (\<lambda>d1. case d1 of
           VBytes cidData \<Rightarrow>
             obind (go_index data 2) (\<lambda>d2. case d2 of
               VStr contentType \<Rightarrow>
                 obind (CIDFromBytes (ml_spare ml cidData) cidData) (\<lambda>cid.
                   Ok ((path, NewWebAppMetadataFileReference (Some cid) contentType), bs))
             | _ \<Rightarrow> Err (GoError ''Corrupted metadata'' []))
         | _ \<Rightarrow> Err (GoError ''Corrupted metadata'' []))
     | _ \<Rightarrow> Err (GoError ''Corrupted metadata'' [])))"

definition FileMap_DecodeMsgpack :: "meta_lib \<Rightarrow> bytes \<Rightarrow> (WebAppFileMap \<times> bytes) outcome" where
  "FileMap_DecodeMsgpack ml bs =
     obind (ml_DecodeArrayLen ml bs) (\<lambda>(arrLen, bs).
     obind (dec_times (decode_file ml) (nat arrLen) bs) (\<lambda>(files, bs).
       Ok (FileMap_Sort (fold (\<lambda>(path, ref) m. FileMap_Put m path ref) files NewWebAppFileMap), bs)))"

definition ErrorPages_EncodeMsgpack :: "meta_lib \<Rightarrow> WebAppErrorPages option \<Rightarrow> bytes" where
  "ErrorPages_EncodeMsgpack ml w =
     (case w of
        None \<Rightarrow> ml_EncodeMapLen ml 0
      | Some m \<Rightarrow> ml_EncodeMapLen ml (int (length m)) @
          concat (map (\<lambda>(k, v). mp_EncodeInt (ml_mp ml) k @ mp_EncodeString (ml_mp ml) v) m))"

definition decode_page :: "meta_lib \<Rightarrow> bytes \<Rightarrow> ((int \<times> string) \<times> bytes) outcome" where
  "decode_page ml bs =
     obind (mp_DecodeInt (ml_mp ml) bs) (\<lambda>(key, bs).
     obind (mp_DecodeString (ml_mp ml) bs) (\<lambda>(val, bs). Ok ((key, val), bs)))"

definition ErrorPages_DecodeMsgpack :: "meta_lib \<Rightarrow> bytes \<Rightarrow> (WebAppErrorPages \<times> bytes) outcome" where
  "ErrorPages_DecodeMsgpack ml bs =
     obind (ml_DecodeMapLen ml bs) (\<lambda>(mapLen, bs).
     obind (dec_times (decode_page ml) (nat mapLen) bs) (\<lambda>(kvs, bs).
       Ok (fold (\<lambda>(k, v) m. Map_Put m k v) kvs NewMap, bs)))"

text \<open>The encoder also makes the missing map of error pages and sorts the paths in place.\<close>

definition WebApp_EncodeMsgpack ::
  "meta_lib \<Rightarrow> multibase_lib \<Rightarrow> WebAppMetadata \<Rightarrow> (bytes \<times> WebAppMetadata) outcome" where
  "WebApp_EncodeMsgpack ml mb wm =
     (let wm = wm\<lparr>wa_ErrorPages := Some (case wa_ErrorPages wm of None \<Rightarrow> NewMap | Some m \<Rightarrow> m)\<rparr> in
      obind (case wa_Paths wm of None \<Rightarrow> Ok (ml_EncodeNil ml) | Some m \<Rightarrow> FileMap_EncodeMsgpack ml m) (\<lambda>paths.
      obind (ExtraMetadata_EncodeMsgpack ml mb (wa_ExtraMetadata wm)) (\<lambda>extra.
        Ok (InitMarshaller ml MetadataTypeWebApp @ ml_EncodeArrayLen ml 5 @
              mp_EncodeString (ml_mp ml) (wa_Name wm) @
              (case wa_TryFiles wm of None \<Rightarrow> ml_EncodeNil ml | Some ss \<Rightarrow> encode_strings ml ss) @
              ErrorPages_EncodeMsgpack ml (wa_ErrorPages wm) @ paths @ extra,
            wm\<lparr>wa_Paths := map_option FileMap_Sort (wa_Paths wm)\<rparr>))))"

definition WebApp_DecodeMsgpack :: "meta_lib \<Rightarrow> WebAppMetadata \<Rightarrow> bytes \<Rightarrow> (WebAppMetadata \<times> bytes) outcome" where
  "WebApp_DecodeMsgpack ml wm bs =
     obind (InitUnmarshaller ml [MetadataTypeWebApp] bs) (\<lambda>(_, bs).
     obind (ml_DecodeArrayLen ml bs) (\<lambda>(val, bs).
       if val \<noteq> 5 then Err (GoError '' Corrupted metadata'' [])
       else
     obind (mp_DecodeString (ml_mp ml) bs) (\<lambda>(name, bs).
     obind (decode_or_nil ml (decode_strings ml) bs) (\<lambda>(tryFiles, bs).
     obind (decode_or_nil ml (ErrorPages_DecodeMsgpack ml) bs) (\<lambda>(errorPages, bs).
     obind (decode_or_nil ml (FileMap_DecodeMsgpack ml) bs) (\<lambda>(paths, bs).
     obind (decode_or_nil ml (ExtraMetadata_DecodeMsgpack ml) bs) (\<lambda>(extra, bs).
       Ok (wm\<lparr>wa_Type := ''web_app'', wa_Name := name,
              wa_TryFiles := (case tryFiles of None \<Rightarrow> wa_TryFiles wm | Some ss \<Rightarrow> Some ss),
              wa_ErrorPages := errorPages, wa_Paths := paths,
              wa_ExtraMetadata := (case extra of None \<Rightarrow> \<lparr>em_Data = NewMap\<rparr> | Some em \<Rightarrow> em)\<rparr>, bs))))))))"


section \<open>The file map in order\<close>

lemma FileMap_Sort_eq:
  assumes "distinct (map fst m)"
  shows "FileMap_Sort m = map (\<lambda>k. (k, the (map_of m k))) (sort (map fst m))"
proof -
  have get: "fst (FileMap_Get m k) = the (map_of m k)" if "k \<in> fst ` set m" for k
    using that by (auto simp: FileMap_Get_def Map_Get_def split: option.split dest: weak_map_of_SomeI)
  have "FileMap_Sort m = fold (\<lambda>(k, v) m. Map_Put m k v) (map (\<lambda>k. (k, the (map_of m k))) (sort (map fst m))) NewMap"
    unfolding FileMap_Sort_def file_map_defs Map_Keys_def fold_map by (rule fold_cong) (auto simp: get)
  also have "\<dots> = map (\<lambda>k. (k, the (map_of m k))) (sort (map fst m))"
    using assms by (intro put_items_fresh) (simp add: comp_def)
  finally show ?thesis .
qed

lemma FileMap_Sort_props:
  assumes "distinct (map fst m)"
  shows "map fst (FileMap_Sort m) = sort (map fst m)" "set (FileMap_Sort m) = set m" "length (FileMap_Sort m) = length m"
proof -
  show "map fst (FileMap_Sort m) = sort (map fst m)" "length (FileMap_Sort m) = length m"
    using FileMap_Sort_eq [OF assms] by (simp_all add: comp_def)
  show "set (FileMap_Sort m) = set m"
    using assms map_of_eq_Some_iff [OF assms]
    by (force simp: FileMap_Sort_eq [OF assms] image_iff)
qed

lemma FileMap_Sort_idem:
  assumes "distinct (map fst m)"
  shows "FileMap_Sort (FileMap_Sort m) = FileMap_Sort m"
proof -
  let ?s = "FileMap_Sort m"
  note P = FileMap_Sort_props [OF assms]
  have d: "distinct (map fst ?s)" using assms P(1) by simp
  have "map_of ?s = map_of m"
    using assms d P(2) by (intro map_of_inject_set [THEN iffD2]) auto
  moreover have "sort (map fst ?s) = sort (map fst m)" using P(1) by (simp add: sorted_sort_id)
  ultimately show ?thesis
    using FileMap_Sort_eq [OF d] FileMap_Sort_eq [OF assms] by simp
qed

section \<open>The parts are read back\<close>

definition file_ok :: "string \<times> WebAppMetadataFileReference \<Rightarrow> bool" where
  "file_ok kv \<longleftrightarrow> short (fst kv) \<and> short (wr_ContentType (snd kv)) \<and>
     (\<exists>c. wr_Cid (snd kv) = Some c \<and> valid_cid c \<and> short (ToBytes c))"

definition files_ok :: "WebAppFileMap \<Rightarrow> bool" where
  "files_ok m \<longleftrightarrow> short m \<and> distinct (map fst m) \<and> (\<forall>kv \<in> set m. file_ok kv)"

definition pages_ok :: "WebAppErrorPages \<Rightarrow> bool" where
  "pages_ok m \<longleftrightarrow> short m \<and> distinct (map fst m) \<and> (\<forall>(k, v) \<in> set m. int64_range k \<and> short v)"

definition file_bytes :: "meta_lib \<Rightarrow> string \<times> WebAppMetadataFileReference \<Rightarrow> bytes" where
  "file_bytes ml kv = (case encode_file ml kv of Ok b \<Rightarrow> b | _ \<Rightarrow> [])"

lemma file_decoded:
  assumes "meta_laws ml" "file_ok kv"
  shows "decode_file ml (file_bytes ml kv @ r) = Ok (kv, r)"
proof -
  obtain k ref where kv: "kv = (k, ref)" by (cases kv)
  obtain c where c: "wr_Cid ref = Some c" "valid_cid c" "length (ToBytes c) < 2 ^ 32" "length k < 2 ^ 32"
    "length (wr_ContentType ref) < 2 ^ 32"
    using assms(2) by (auto simp: file_ok_def kv short_def)
  have cid: "CIDFromBytes spare (ToBytes c) = Ok c" for spare
    using cid.dec_enc [OF c(2), of spare] by (simp add: CIDFromBytes_def)
  have "dec_times (ml_DecodeInterface ml) 3 (mp_EncodeString (ml_mp ml) k @ mp_EncodeBytes (ml_mp ml) (ToBytes c) @
      mp_EncodeString (ml_mp ml) (wr_ContentType ref) @ r) = Ok ([VStr k, VBytes (ToBytes c), VStr (wr_ContentType ref)], r)"
    using c meta_interface_string [OF assms(1)] meta_interface_bytes [OF assms(1)] by (simp add: numeral_3_eq_3)
  then show ?thesis
    using c cid meta_array(1) [OF assms(1), of 3]
    by (simp add: kv file_bytes_def encode_file_def decode_file_def decode_slice_def go_index_def NewWebAppMetadataFileReference_def)
qed

interpretation m_file: stream_codec "file_bytes ml" "decode_file ml" "\<lambda>kv. meta_laws ml \<and> file_ok kv" for ml
  by unfold_locales (simp add: file_decoded)

lemma encode_files_ok:
  "\<forall>kv \<in> set m. file_ok kv \<Longrightarrow> encode_files ml m = Ok (concat (map (file_bytes ml) m))"
  by (induction m) (auto simp: file_bytes_def encode_file_def file_ok_def)

definition files_bytes :: "meta_lib \<Rightarrow> WebAppFileMap \<Rightarrow> bytes" where
  "files_bytes ml m = (case FileMap_EncodeMsgpack ml m of Ok b \<Rightarrow> b | _ \<Rightarrow> [])"

lemma files_encoded:
  assumes "files_ok m"
  shows "FileMap_EncodeMsgpack ml m = Ok (files_bytes ml m)"
    and "files_bytes ml m = ml_EncodeArrayLen ml (int (length m)) @ concat (map (file_bytes ml) (FileMap_Sort m))"
proof -
  note P = FileMap_Sort_props [of m]
  have "encode_files ml (FileMap_Sort m) = Ok (concat (map (file_bytes ml) (FileMap_Sort m)))"
    using assms P by (intro encode_files_ok) (simp add: files_ok_def)
  then have "FileMap_EncodeMsgpack ml m = Ok (ml_EncodeArrayLen ml (int (length m)) @ concat (map (file_bytes ml) (FileMap_Sort m)))"
    using assms P by (simp add: FileMap_EncodeMsgpack_def files_ok_def Let_def)
  then show "FileMap_EncodeMsgpack ml m = Ok (files_bytes ml m)"
    "files_bytes ml m = ml_EncodeArrayLen ml (int (length m)) @ concat (map (file_bytes ml) (FileMap_Sort m))"
    by (simp_all add: files_bytes_def)
qed

lemma files_decoded:
  assumes "meta_laws ml" "files_ok m"
  shows "FileMap_DecodeMsgpack ml (files_bytes ml m @ r) = Ok (FileMap_Sort m, r)"
proof -
  have d: "distinct (map fst m)" using assms(2) by (simp add: files_ok_def)
  note P = FileMap_Sort_props [OF d]
  have "\<forall>kv \<in> set (FileMap_Sort m). meta_laws ml \<and> file_ok kv" using assms P(2) by (simp add: files_ok_def)
  from m_file.dec_many [OF this, of r] P(3)
  have "dec_times (decode_file ml) (length m) (concat (map (file_bytes ml) (FileMap_Sort m)) @ r) = Ok (FileMap_Sort m, r)" by simp
  moreover have "fold (\<lambda>(k, v) m. Map_Put m k v) (FileMap_Sort m) NewMap = FileMap_Sort m"
    using d P(1) by (intro put_items_fresh) simp
  ultimately show ?thesis
    using assms meta_array(1) [OF assms(1), of "int (length m)"] FileMap_Sort_idem [OF d]
    by (simp add: FileMap_DecodeMsgpack_def files_encoded(2) files_ok_def short_def)
qed

lemma page_decoded:
  assumes "meta_laws ml" "int64_range k" "short v"
  shows "decode_page ml ((mp_EncodeInt (ml_mp ml) k @ mp_EncodeString (ml_mp ml) v) @ r) = Ok ((k, v), r)"
  using assms msgpack_int [OF meta_msgpack [OF assms(1)]] msgpack_string [OF meta_msgpack [OF assms(1)]]
  by (simp add: decode_page_def short_def)

interpretation m_pages: stream_codec "\<lambda>m. ErrorPages_EncodeMsgpack ml (Some m)" "ErrorPages_DecodeMsgpack ml"
    "\<lambda>m. meta_laws ml \<and> pages_ok m" for ml
proof unfold_locales
  fix m :: WebAppErrorPages and r ml assume ok: "meta_laws ml \<and> pages_ok m"
  have "dec_times (decode_page ml) (length m)
      (concat (map (\<lambda>(k, v). mp_EncodeInt (ml_mp ml) k @ mp_EncodeString (ml_mp ml) v) m) @ r) = Ok (map id m, r)"
    using ok by (intro dec_times_encoded) (auto simp: pages_ok_def page_decoded simp del: append_assoc)
  moreover have "fold (\<lambda>(k, v) m. Map_Put m k v) m NewMap = m"
    using ok by (intro put_items_fresh) (simp add: pages_ok_def)
  ultimately show "ErrorPages_DecodeMsgpack ml (ErrorPages_EncodeMsgpack ml (Some m) @ r) = Ok (m, r)"
    using ok meta_map(1) [of ml "int (length m)"]
    by (simp add: ErrorPages_DecodeMsgpack_def ErrorPages_EncodeMsgpack_def pages_ok_def short_def)
qed


section \<open>The whole\<close>

definition webapp_ok :: "WebAppMetadata \<Rightarrow> bool" where
  "webapp_ok wm \<longleftrightarrow> short (wa_Name wm) \<and> em_Data (wa_ExtraMetadata wm) = NewMap \<and>
     (\<forall>ss. wa_TryFiles wm = Some ss \<longrightarrow> short ss \<and> (\<forall>s \<in> set ss. short s)) \<and>
     (\<forall>m. wa_ErrorPages wm = Some m \<longrightarrow> pages_ok m) \<and> (\<forall>m. wa_Paths wm = Some m \<longrightarrow> files_ok m)"

text \<open>What a reader of the encoding gets: the type is set, nil error pages are empty, paths are sorted.\<close>

definition as_read :: "WebAppMetadata \<Rightarrow> WebAppMetadata" where
  "as_read wm = wm\<lparr>wa_Type := ''web_app'', wa_ErrorPages := Some (case wa_ErrorPages wm of None \<Rightarrow> NewMap | Some m \<Rightarrow> m),
     wa_Paths := map_option FileMap_Sort (wa_Paths wm)\<rparr>"

definition webapp_bytes :: "meta_lib \<Rightarrow> multibase_lib \<Rightarrow> WebAppMetadata \<Rightarrow> bytes" where
  "webapp_bytes ml mb wm = (case WebApp_EncodeMsgpack ml mb wm of Ok (b, _) \<Rightarrow> b | _ \<Rightarrow> [])"

lemma extra_empty:
  assumes "em_Data em = NewMap"
  shows "ExtraMetadata_EncodeMsgpack ml mb em = Ok (ml_EncodeMapLen ml 0)"
  using assms by (simp add: ExtraMetadata_EncodeMsgpack_def extra_encode_def NewMap_def)

lemma try_files_decoded:
  assumes "meta_laws ml" "\<forall>ss. t = Some ss \<longrightarrow> short ss \<and> (\<forall>s \<in> set ss. short s)"
  shows "decode_or_nil ml (decode_strings ml)
    ((case t of None \<Rightarrow> ml_EncodeNil ml | Some ss \<Rightarrow> encode_strings ml ss) @ r) = Ok (t, r)"
proof (cases t)
  case (Some ss)
  then have "\<not> ml_IsNil ml (encode_strings ml ss @ r)"
    using assms meta_array(2) [OF assms(1), of "int (length ss)"] by (simp add: encode_strings_def short_def)
  then show ?thesis
    using Some assms m_strings.dec_enc [of ml ss r] by (simp add: decode_or_nil_def)
qed (simp add: decode_or_nil_def meta_nil [OF assms(1)])

lemma paths_decoded:
  assumes "meta_laws ml" "\<forall>m. p = Some m \<longrightarrow> files_ok m"
  shows "decode_or_nil ml (FileMap_DecodeMsgpack ml)
    ((case p of None \<Rightarrow> ml_EncodeNil ml | Some m \<Rightarrow> files_bytes ml m) @ r) = Ok (map_option FileMap_Sort p, r)"
proof (cases p)
  case (Some m)
  then have "\<not> ml_IsNil ml (files_bytes ml m @ r)"
    using assms meta_array(2) [OF assms(1), of "int (length m)"] files_encoded(2) [of m ml] by (simp add: files_ok_def short_def)
  then show ?thesis
    using Some assms files_decoded [OF assms(1), of m r] by (simp add: decode_or_nil_def)
qed (simp add: decode_or_nil_def meta_nil [OF assms(1)])

lemma pages_decoded:
  assumes "meta_laws ml" "pages_ok m"
  shows "decode_or_nil ml (ErrorPages_DecodeMsgpack ml) (ErrorPages_EncodeMsgpack ml (Some m) @ r) = Ok (Some m, r)"
  using assms m_pages.dec_enc [of ml m r] meta_map(2) [OF assms(1), of "int (length m)"]
  by (simp add: decode_or_nil_def) (simp add: ErrorPages_EncodeMsgpack_def pages_ok_def short_def)

lemma extra_decoded:
  assumes "meta_laws ml"
  shows "decode_or_nil ml (ExtraMetadata_DecodeMsgpack ml) (ml_EncodeMapLen ml 0 @ r) = Ok (Some \<lparr>em_Data = NewMap\<rparr>, r)"
  using meta_map [OF assms, of 0 r] by (simp add: decode_or_nil_def ExtraMetadata_DecodeMsgpack_def)

text \<open>Everything but the extension data.\<close>

definition webapp_prefix :: "meta_lib \<Rightarrow> WebAppMetadata \<Rightarrow> bytes" where
  "webapp_prefix ml wm = InitMarshaller ml MetadataTypeWebApp @ ml_EncodeArrayLen ml 5 @
     mp_EncodeString (ml_mp ml) (wa_Name wm) @
     (case wa_TryFiles wm of None \<Rightarrow> ml_EncodeNil ml | Some ss \<Rightarrow> encode_strings ml ss) @
     ErrorPages_EncodeMsgpack ml (wa_ErrorPages (as_read wm)) @
     (case wa_Paths wm of None \<Rightarrow> ml_EncodeNil ml | Some m \<Rightarrow> files_bytes ml m)"

definition parts_ok :: "WebAppMetadata \<Rightarrow> bool" where
  "parts_ok wm \<longleftrightarrow> webapp_ok (wm\<lparr>wa_ExtraMetadata := \<lparr>em_Data = NewMap\<rparr>\<rparr>)"

lemma webapp_prefix_encoded:
  assumes "parts_ok wm"
  shows "WebApp_EncodeMsgpack ml mb wm = obind (ExtraMetadata_EncodeMsgpack ml mb (wa_ExtraMetadata wm)) (\<lambda>extra.
    Ok (webapp_prefix ml wm @ extra, (as_read wm)\<lparr>wa_Type := wa_Type wm\<rparr>))"
  using assms files_encoded(1)
  by (auto simp: WebApp_EncodeMsgpack_def Let_def parts_ok_def webapp_ok_def as_read_def webapp_prefix_def split: option.splits)

lemma webapp_prefix_decoded:
  assumes "meta_laws ml" "parts_ok wm"
  shows "WebApp_DecodeMsgpack ml NewEmptyWebAppMetadata (webapp_prefix ml wm @ x) =
    obind (decode_or_nil ml (ExtraMetadata_DecodeMsgpack ml) x) (\<lambda>(extra, bs).
      Ok ((as_read wm)\<lparr>wa_ExtraMetadata := (case extra of None \<Rightarrow> \<lparr>em_Data = NewMap\<rparr> | Some em \<Rightarrow> em)\<rparr>, bs))"
proof -
  have ok: "length (wa_Name wm) < 2 ^ 32"
    and parts: "\<forall>ss. wa_TryFiles wm = Some ss \<longrightarrow> short ss \<and> (\<forall>s \<in> set ss. short s)" "\<forall>m. wa_Paths wm = Some m \<longrightarrow> files_ok m"
    and pages: "\<forall>m. wa_ErrorPages wm = Some m \<longrightarrow> pages_ok m"
    using assms(2) by (simp_all add: parts_ok_def webapp_ok_def short_def)
  obtain m where m: "wa_ErrorPages (as_read wm) = Some m" "pages_ok m"
    using pages by (auto simp: as_read_def pages_ok_def short_def NewMap_def split: option.splits)
  have "\<And>x. InitUnmarshaller ml [MetadataTypeWebApp] (InitMarshaller ml MetadataTypeWebApp @ x) = Ok (MetadataTypeWebApp, x)"
    by (rule InitUnmarshaller_header [OF assms(1)]) (simp_all add: go_consts)
  moreover have "\<And>x. mp_DecodeString (ml_mp ml) (mp_EncodeString (ml_mp ml) (wa_Name wm) @ x) = Ok (wa_Name wm, x)"
    using msgpack_string [OF meta_msgpack [OF assms(1)] ok] .
  moreover have "\<And>x. ml_DecodeArrayLen ml (ml_EncodeArrayLen ml 5 @ x) = Ok (5, x)"
    using meta_array(1) [OF assms(1), of 5] by simp
  ultimately show ?thesis
    unfolding webapp_prefix_def WebApp_DecodeMsgpack_def
    using try_files_decoded [OF assms(1) parts(1)] paths_decoded [OF assms(1) parts(2)] pages_decoded [OF assms(1) m(2)] m(1)
    by (cases wm) (simp add: as_read_def NewEmptyWebAppMetadata_def NewWebAppMetadata_def split: option.split)
qed

lemma webapp_parts: "webapp_ok wm \<Longrightarrow> parts_ok wm \<and> wa_ExtraMetadata wm = \<lparr>em_Data = NewMap\<rparr>"
  by (cases "wa_ExtraMetadata wm") (simp add: webapp_ok_def parts_ok_def)

lemma webapp_encoded:
  assumes "webapp_ok wm"
  shows "WebApp_EncodeMsgpack ml mb wm = Ok (webapp_bytes ml mb wm, (as_read wm)\<lparr>wa_Type := wa_Type wm\<rparr>)"
    and "webapp_bytes ml mb wm = webapp_prefix ml wm @ ml_EncodeMapLen ml 0"
  using webapp_parts [OF assms] by (simp_all add: webapp_bytes_def webapp_prefix_encoded extra_empty)

lemma webapp_decoded:
  assumes "meta_laws ml" "webapp_ok wm"
  shows "WebApp_DecodeMsgpack ml NewEmptyWebAppMetadata (webapp_bytes ml mb wm @ r) = Ok (as_read wm, r)"
  using webapp_parts [OF assms(2)] webapp_prefix_decoded [OF assms(1), of wm] extra_decoded [OF assms(1), of r]
  by (simp add: webapp_encoded(2) [OF assms(2)]) (cases wm, simp add: as_read_def)

section \<open>Extension data\<close>

lemma extra_encode_item_keys:
  assumes "extra_encode_item ml mb kv acc = Ok data" "\<forall>k \<in> fst ` set acc. short k"
  shows "(\<forall>k \<in> fst ` set data. short k) \<and> length data \<le> Suc (length acc) \<and>
    (acc \<noteq> [] \<or> map_of extension_names (fst kv) \<noteq> None \<longrightarrow> data \<noteq> [])"
proof -
  have put: "length (Map_Put acc k v) \<le> Suc (length acc)" "Map_Put acc k v \<noteq> []" for k and v :: extra_value
    by (induction acc) (auto simp: Map_Put_def)
  have keys: "short (fst x)" if "x \<in> set (Map_Put acc k v)" "short k" for x k and v :: extra_value
    using that assms(2) by (induction acc) (auto simp: Map_Put_def split: if_splits)
  have names: "short n" if "map_of extension_names k = Some n" for k n
    using that by (auto simp: extension_names_def short_def split: if_splits)
  show ?thesis
    using assms put names [of "fst kv"] keys
    by (cases kv) (auto 4 3 simp: extra_encode_item_def short_def [of "''updateCID''"] split: option.splits if_splits extra_value.splits goval.splits outcome.splits)
qed

lemma extra_encode_keys:
  assumes "fold (\<lambda>kv acc. obind acc (extra_encode_item ml mb kv)) kvs (Ok acc) = Ok data" "\<forall>k \<in> fst ` set acc. short k"
  shows "(\<forall>k \<in> fst ` set data. short k) \<and> length data \<le> length acc + length kvs \<and>
    (acc \<noteq> [] \<or> (\<exists>kv \<in> set kvs. map_of extension_names (fst kv) \<noteq> None) \<longrightarrow> data \<noteq> [])"
  using assms
proof (induction kvs arbitrary: acc)
  case (Cons kv kvs)
  have stop: "fold (\<lambda>kv acc. obind acc (extra_encode_item ml mb kv)) kvs m \<noteq> Ok data" if "m = Err e \<or> m = Panic" for m e
    using that by (induction kvs) auto
  obtain acc' where acc': "extra_encode_item ml mb kv acc = Ok acc'"
    using Cons.prems(1) stop by (cases "extra_encode_item ml mb kv acc") auto
  note step = extra_encode_item_keys [OF acc' Cons.prems(2)]
  have "fold (\<lambda>kv acc. obind acc (extra_encode_item ml mb kv)) kvs (Ok acc') = Ok data" using Cons.prems(1) acc' by simp
  from Cons.IH [OF this] step show ?case by auto
qed simp

text \<open>The encoder writes names where the decoder reads numbers.\<close>

lemma named_extension_unreadable:
  assumes "meta_laws ml" "ExtraMetadata_EncodeMsgpack ml mb em = Ok b"
    and "kv \<in> set (em_Data em)" "map_of extension_names (fst kv) \<noteq> None" "length (em_Data em) < 2 ^ 32"
  shows "\<exists>e. decode_or_nil ml (ExtraMetadata_DecodeMsgpack ml) (b @ r) = Err e"
proof -
  obtain data bs where data: "extra_encode ml mb em = Ok data" "encode_object ml data = Ok bs"
    and b: "b = ml_EncodeMapLen ml (int (length data)) @ bs"
    using assms(2) by (auto simp: ExtraMetadata_EncodeMsgpack_def obind_eq_Ok)
  have keys: "\<forall>k \<in> fst ` set data. short k" "length data \<le> length (em_Data em)" "data \<noteq> []"
    using extra_encode_keys [of ml mb "em_Data em" NewMap data] data(1) assms(3,4)
    by (auto simp: extra_encode_def NewMap_def)
  then obtain k v kvs where d: "data = (k, v) # kvs" by (cases data) auto
  then obtain rest where bs: "bs = mp_EncodeString (ml_mp ml) k @ rest"
    using data(2) by (auto simp: obind_eq_Ok)
  obtain e where e: "ml_DecodeInt8 ml (bs @ r) = Err e"
    using meta_string_int8 [OF assms(1), of k "rest @ r"] keys(1) by (auto simp: bs d short_def)
  have len: "int (length data) < 2 ^ 32" using keys(2) assms(5) by simp
  have "extra_items ml (length data) em0 (bs @ r) = Err e" for em0
    using e by (simp add: d extra_item_def)
  then show ?thesis
    using meta_map [OF assms(1) _ len] b by (simp add: decode_or_nil_def ExtraMetadata_DecodeMsgpack_def)
qed

interpretation webapp: stream_codec "webapp_bytes ml mb" "WebApp_DecodeMsgpack ml NewEmptyWebAppMetadata"
    "\<lambda>wm. meta_laws ml \<and> webapp_ok wm \<and> as_read wm = wm" for ml mb
  by unfold_locales (simp add: webapp_decoded)

section \<open>Properties\<close>

text \<open>
  C36: the metadata of a web app is read back. Without extension data, for files with
  identifiers of any kind but bridges and with each path once: encoding succeeds, and decoding
  into an empty value yields the same metadata with its paths sorted, and leaves what follows.
\<close>
theorem web_app_roundtrip:
  assumes "meta_laws ml" "webapp_ok wm"
  shows "\<exists>b wm'. WebApp_EncodeMsgpack ml mb wm = Ok (b, wm') \<and>
    WebApp_DecodeMsgpack ml NewEmptyWebAppMetadata (b @ r) = Ok (as_read wm, r) \<and>
    (\<forall>m. wa_Paths wm = Some m \<longrightarrow>
      (\<exists>m'. wa_Paths (as_read wm) = Some m' \<and> map fst m' = sort (map fst m) \<and> set m' = set m))"
proof -
  have "map fst (FileMap_Sort m) = sort (map fst m) \<and> set (FileMap_Sort m) = set m" if "wa_Paths wm = Some m" for m
    using FileMap_Sort_props [of m] assms(2) that by (simp add: webapp_ok_def files_ok_def)
  then show ?thesis
    using webapp_encoded(1) [OF assms(2)] webapp_decoded [OF assms] by (simp add: as_read_def)
qed


definition sample_cid :: CID where
  "sample_cid = NewCID CIDTypeRaw (NewMultihash (0x1f # replicate 32 1)) 300"

definition sample_app :: WebAppMetadata where
  "sample_app = NewWebAppMetadata ''app'' (Some [''index.html'']) \<lparr>em_Data = NewMap\<rparr> None
     (Some [(''b'', NewWebAppMetadataFileReference (Some sample_cid) ''text''),
            (''a'', NewWebAppMetadataFileReference (Some sample_cid) ''html'')])"

lemma sample_cid_ok: "valid_cid sample_cid" "short (ToBytes sample_cid)"
proof -
  show "valid_cid sample_cid"
    by (simp add: sample_cid_def valid_cid_def NewCID_def NewMultihash_def CIDTypeMap_def go_consts)
  have "length (size_tail sample_cid) \<le> 8"
    using length_strip_zeros [of "EncodeEndian (cid_Size sample_cid) 8"] by (simp add: size_tail_def Let_def)
  moreover have "length (fullBytes (cid_Hash sample_cid)) = 33" "cid_Type sample_cid \<noteq> CIDTypeBridge"
    by (simp_all add: sample_cid_def NewCID_def NewMultihash_def go_consts)
  ultimately show "short (ToBytes sample_cid)" by (simp add: short_def ToBytes_layout)
qed

lemma sample_app_ok: "webapp_ok sample_app"
  using sample_cid_ok
  by (simp add: webapp_ok_def sample_app_def NewWebAppMetadata_def NewMap_def short_def files_ok_def file_ok_def
      NewWebAppMetadataFileReference_def)

theorem web_app_roundtrip_witness:
  "\<exists>b wm' m. WebApp_EncodeMsgpack wide_meta plain_multibase sample_app = Ok (b, wm') \<and>
    WebApp_DecodeMsgpack wide_meta NewEmptyWebAppMetadata (b @ [1]) = Ok (as_read sample_app, [1]) \<and>
    wa_Paths (as_read sample_app) = Some m \<and> map fst m = [''a'', ''b'']"
proof -
  have "sort [''b'', ''a''] = [''a'', ''b'']" by simp
  then show ?thesis
    using web_app_roundtrip [OF wide_meta_laws sample_app_ok, of plain_multibase "[1]"]
    by (fastforce simp: sample_app_def NewWebAppMetadata_def)
qed

text \<open>
  The metadata of a web app with extension data cannot be read back. If the extension data
  has an entry that has a name, then what the encoder writes makes the decoder err: it writes
  the name of the entry where the decoder expects its number.
\<close>
lemma web_app_extension_unreadable:
  assumes "meta_laws ml" "parts_ok wm" "length (em_Data (wa_ExtraMetadata wm)) < 2 ^ 32"
    and "kv \<in> set (em_Data (wa_ExtraMetadata wm))" "map_of extension_names (fst kv) \<noteq> None"
    and "WebApp_EncodeMsgpack ml mb wm = Ok (b, wm')"
  shows "\<exists>e. WebApp_DecodeMsgpack ml NewEmptyWebAppMetadata (b @ r) = Err e"
proof -
  obtain x where x: "ExtraMetadata_EncodeMsgpack ml mb (wa_ExtraMetadata wm) = Ok x" "b = webapp_prefix ml wm @ x"
    using assms(6) webapp_prefix_encoded [OF assms(2)] by (auto simp: obind_eq_Ok)
  obtain e where "decode_or_nil ml (ExtraMetadata_DecodeMsgpack ml) (x @ r) = Err e"
    using named_extension_unreadable [OF assms(1) x(1) assms(4,5,3)] by blast
  then show ?thesis
    using webapp_prefix_decoded [OF assms(1,2), of "x @ r"] x(2) by simp
qed

text \<open>
  A file entry that is too short crashes the reader. The length of an entry is compared
  before it is read, so an array of fewer than three items makes an index expression panic.
\<close>
lemma short_file_entry_panics:
  assumes "meta_laws ml" "length path < 2 ^ 32" "length cid < 2 ^ 32" "0 < n" "n < 2 ^ 32"
  shows "FileMap_DecodeMsgpack ml (ml_EncodeArrayLen ml n @ ml_EncodeArrayLen ml 2 @
    mp_EncodeString (ml_mp ml) path @ mp_EncodeBytes (ml_mp ml) cid @ r) = Panic"
proof -
  obtain k where k: "nat n = Suc k" using assms(4) by (cases "nat n") auto
  have "dec_times (ml_DecodeInterface ml) 2 (mp_EncodeString (ml_mp ml) path @ mp_EncodeBytes (ml_mp ml) cid @ r) =
      Ok ([VStr path, VBytes cid], r)"
    using assms meta_interface_string [OF assms(1)] meta_interface_bytes [OF assms(1)] by (simp add: numeral_2_eq_2)
  then show ?thesis
    using k assms meta_array(1) [OF assms(1), of 2] meta_array(1) [OF assms(1), of n]
    by (simp add: FileMap_DecodeMsgpack_def decode_file_def decode_slice_def go_index_def)
qed

end
