(* ===== verification/Directory.thy ===== *)
theory Directory
  imports Web_App
begin

text \<open>
  The directory format: \<open>metadata/directory.go\<close>, \<open>directory_details.go\<close>, \<open>directory_map.go\<close>,
  \<open>directory_reference.go\<close>, \<open>file_reference.go\<close>, \<open>file_version.go\<close> and
  \<open>file_version_thumbnail.go\<close>. Lemmas: which references are encoded at all, which of those are
  read back, and the round trip of a directory of plain files.
\<close>

section \<open>directory_map.go: the shared encoder and decoder of maps\<close>

text \<open>
  A linked hash map that was never made has nil behind it, and its methods panic; it is \<open>None\<close>.
  A value that was put as a pointer is kept apart from one put as a struct, since the type
  switches and assertions do.
\<close>

datatype 'a stored = Pointer "'a option" | Plain 'a

datatype map_key = MK_string string | MK_int int | MK_other

text \<open>
  The values, as the type switch of the encoder tells them apart. \<open>MV_coded\<close> stands for the
  types with an encoder of their own that the switch lists (\<open>FileReference\<close>,
  \<open>DirectoryReference\<close>, \<open>FileVersion\<close>, \<open>Base64UrlBinary\<close>, \<open>CID\<close>); a map of the code has values of
  one of them, and the argument \<open>coded\<close> is its encoder.
\<close>

datatype 'v map_value = MV_string string | MV_int int | MV_uint64 u64 | MV_coded 'v | MV_other

definition marshal_key :: "meta_lib \<Rightarrow> map_key \<Rightarrow> bytes outcome" where
  "marshal_key ml key =
     (case key of
        MK_string k \<Rightarrow> Ok (mp_EncodeString (ml_mp ml) k)
      | MK_int k \<Rightarrow> Ok (mp_EncodeInt (ml_mp ml) k)
      | MK_other \<Rightarrow> Err (GoError ''unsupported key type for encoding'' []))"

definition marshal_value :: "meta_lib \<Rightarrow> ('v \<Rightarrow> bytes outcome) \<Rightarrow> 'v map_value \<Rightarrow> bytes outcome" where
  "marshal_value ml coded val =
     (case val of
        MV_coded v \<Rightarrow> coded v
      | MV_string v \<Rightarrow> Ok (mp_EncodeString (ml_mp ml) v)
      | MV_int v \<Rightarrow> Ok (mp_EncodeInt (ml_mp ml) v)
      | MV_uint64 v \<Rightarrow> Ok (mp_EncodeInt (ml_mp ml) (sint v))
      | MV_other \<Rightarrow> Err (GoError ''unsupported type for encoding'' []))"

primrec marshal_entries ::
  "meta_lib \<Rightarrow> ('v \<Rightarrow> bytes outcome) \<Rightarrow> (map_key \<times> 'v map_value) list \<Rightarrow> bytes outcome" where
  "marshal_entries ml coded [] = Ok []"
| "marshal_entries ml coded (kv # m) =
     obind (marshal_key ml (fst kv)) (\<lambda>k. obind (marshal_value ml coded (snd kv)) (\<lambda>v.
     obind (marshal_entries ml coded m) (\<lambda>bs. Ok (k @ v @ bs))))"

definition marshallMapMsgpack ::
  "meta_lib \<Rightarrow> ('v \<Rightarrow> bytes outcome) \<Rightarrow> (map_key, 'v map_value) gomap option \<Rightarrow> bytes outcome" where
  "marshallMapMsgpack ml coded m =
     (case m of
        None \<Rightarrow> Panic
      | Some m \<Rightarrow> obind (marshal_entries ml coded m) (\<lambda>bs. Ok (ml_EncodeMapLen ml (int (length m)) @ bs)))"

text \<open>
  The decoder. \<open>placeholder\<close> is the decoder of the type it is called for, \<open>None\<close> for the types
  its switch does not list; a nil leaves the zero value.
\<close>

definition unmarshal_key :: "meta_lib \<Rightarrow> bool \<Rightarrow> bytes \<Rightarrow> (map_key \<times> bytes) outcome" where
  "unmarshal_key ml intMap bs =
     (if intMap then obind (mp_DecodeInt (ml_mp ml) bs) (\<lambda>(k, bs). Ok (MK_int k, bs))
      else obind (mp_DecodeString (ml_mp ml) bs) (\<lambda>(k, bs). Ok (MK_string k, bs)))"

definition unmarshal_entry ::
  "meta_lib \<Rightarrow> 'v \<Rightarrow> (bytes \<Rightarrow> ('v \<times> bytes) outcome) option \<Rightarrow> bool \<Rightarrow> bytes \<Rightarrow> ((map_key \<times> 'v stored) \<times> bytes) outcome" where
  "unmarshal_entry ml zero placeholder intMap bs =
     obind (unmarshal_key ml intMap bs) (\<lambda>(key, bs).
       case placeholder of
         None \<Rightarrow> Err (GoError ''unsupported type for decoding'' [])
       | Some d \<Rightarrow> obind (decode_or_nil ml d bs) (\<lambda>(val, bs).
           Ok ((key, Pointer (Some (case val of None \<Rightarrow> zero | Some v \<Rightarrow> v))), bs)))"

definition unmarshalMapMsgpack ::
  "meta_lib \<Rightarrow> 'v \<Rightarrow> (bytes \<Rightarrow> ('v \<times> bytes) outcome) option \<Rightarrow> bool \<Rightarrow> bytes \<Rightarrow> ((map_key, 'v stored) gomap \<times> bytes) outcome" where
  "unmarshalMapMsgpack ml zero placeholder intMap bs =
     obind (ml_DecodeMapLen ml bs) (\<lambda>(l, bs).
     obind (dec_times (unmarshal_entry ml zero placeholder intMap) (nat l) bs) (\<lambda>(kvs, bs).
       Ok (fold (\<lambda>(key, val) m. Map_Put m key val) kvs NewMap, bs)))"

text \<open>
  From JSON: \<open>FromJSON\<close> fills the map with generic values, each is marshalled again and
  unmarshalled as the instance type (\<open>instance_of\<close>), and the struct, not the pointer, is put back.
\<close>

definition unmarshalMapJson ::
  "(bytes \<Rightarrow> (string \<times> 'j) list outcome) \<Rightarrow> ('j \<Rightarrow> 'v outcome) \<Rightarrow> bytes \<Rightarrow> (map_key, 'v stored) gomap outcome" where
  "unmarshalMapJson FromJSON instance_of bs =
     obind (FromJSON bs) (\<lambda>kvs.
       fold (\<lambda>(key, val) acc. obind acc (\<lambda>m. obind (instance_of val) (\<lambda>v.
         Ok (Map_Put m (MK_string key) (Plain v))))) kvs (Ok NewMap))"

text \<open>\<open>Items\<close>, \<open>Get\<close> and \<open>Has\<close> of both reference maps; \<open>Get\<close> asserts a pointer.\<close>

definition stored_pointer :: "'v stored \<Rightarrow> 'v option outcome" where
  "stored_pointer val = (case val of Pointer p \<Rightarrow> Ok p | Plain _ \<Rightarrow> Panic)"

definition key_string :: "map_key \<Rightarrow> string outcome" where
  "key_string key = (case key of MK_string k \<Rightarrow> Ok k | _ \<Rightarrow> Panic)"

definition refmap_Items :: "(map_key, 'v stored) gomap \<Rightarrow> (string, 'v option) gomap outcome" where
  "refmap_Items drm =
     fold (\<lambda>(key, val) acc. obind acc (\<lambda>files. obind (key_string key) (\<lambda>k. obind (stored_pointer val) (\<lambda>v.
       Ok (Map_Put files k v))))) drm (Ok NewMap)"

definition refmap_Get :: "(map_key, 'v stored) gomap \<Rightarrow> string \<Rightarrow> 'v option outcome" where
  "refmap_Get drm key =
     (case Map_Get drm (MK_string key) of None \<Rightarrow> Ok None | Some ret \<Rightarrow> stored_pointer ret)"

definition refmap_Has :: "(map_key, 'v stored) gomap \<Rightarrow> string \<Rightarrow> bool" where
  "refmap_Has drm key \<longleftrightarrow> Map_Get drm (MK_string key) \<noteq> None"

definition stored_value :: "'v stored \<Rightarrow> 'v option map_value" where
  "stored_value val = (case val of Pointer p \<Rightarrow> MV_coded p | Plain _ \<Rightarrow> MV_other)"

text \<open>The generic \<open>Encode\<close> of a pointer: nil, or the encoder of the type.\<close>

definition encode_pointer :: "meta_lib \<Rightarrow> ('v \<Rightarrow> bytes outcome) \<Rightarrow> 'v option \<Rightarrow> bytes outcome" where
  "encode_pointer ml e p = (case p of None \<Rightarrow> Ok (ml_EncodeNil ml) | Some v \<Rightarrow> e v)"

definition refmap_EncodeMsgpack ::
  "meta_lib \<Rightarrow> ('v \<Rightarrow> bytes outcome) \<Rightarrow> (map_key, 'v stored) gomap option \<Rightarrow> bytes outcome" where
  "refmap_EncodeMsgpack ml e drm =
     marshallMapMsgpack ml (encode_pointer ml e) (map_option (map (apsnd stored_value)) drm)"

text \<open>
  The loop of the decoders of structs: an \<open>int8\<close>, then the field it numbers. A number without a
  field consumes nothing.
\<close>

primrec decode_fields ::
  "meta_lib \<Rightarrow> (int \<Rightarrow> 's \<Rightarrow> bytes \<Rightarrow> ('s \<times> bytes) outcome) \<Rightarrow> nat \<Rightarrow> 's \<Rightarrow> bytes \<Rightarrow> ('s \<times> bytes) outcome" where
  "decode_fields ml field 0 s bs = Ok (s, bs)"
| "decode_fields ml field (Suc n) s bs =
     obind (ml_DecodeInt8 ml bs) (\<lambda>(key, bs). obind (field key s bs) (\<lambda>(s, bs). decode_fields ml field n s bs))"

section \<open>directory_details.go\<close>

record DirectoryMetadataDetails =
  dd_Data :: "(int, goval) gomap option"

definition NewDirectoryMetadataDetails :: "(int, goval) gomap option \<Rightarrow> DirectoryMetadataDetails" where
  "NewDirectoryMetadataDetails data = \<lparr>dd_Data = data\<rparr>"

text \<open>Reading a nil map finds nothing, writing to it panics.\<close>

definition details_at :: "DirectoryMetadataDetails \<Rightarrow> int \<Rightarrow> goval option" where
  "details_at dmd key = (case dd_Data dmd of None \<Rightarrow> None | Some m \<Rightarrow> Map_Get m key)"

definition IsShared :: "DirectoryMetadataDetails \<Rightarrow> bool" where
  "IsShared dmd \<longleftrightarrow> details_at dmd 3 \<noteq> None"

definition IsSharedReadOnly :: "DirectoryMetadataDetails \<Rightarrow> bool" where
  "IsSharedReadOnly dmd =
     (case details_at dmd 3 of Some (VSlice val) \<Rightarrow> 1 < length val \<and> val ! 1 = VBool True | _ \<Rightarrow> False)"

definition IsSharedReadWrite :: "DirectoryMetadataDetails \<Rightarrow> bool" where
  "IsSharedReadWrite dmd =
     (case details_at dmd 3 of Some (VSlice val) \<Rightarrow> 2 < length val \<and> val ! 2 = VBool True | _ \<Rightarrow> False)"

text \<open>The slice in the map is the one that is written.\<close>

definition SetShared :: "bool \<Rightarrow> bool \<Rightarrow> DirectoryMetadataDetails \<Rightarrow> DirectoryMetadataDetails outcome" where
  "SetShared val write dmd =
     (let data = (case dd_Data dmd of None \<Rightarrow> NewMap | Some m \<Rightarrow> m);
          sharedValue = (case Map_Get data 3 of Some (VSlice s) \<Rightarrow> s | _ \<Rightarrow> [VNil, VNil, VNil]);
          i = (if write then 2 else 1)
      in if i < length sharedValue then Ok \<lparr>dd_Data = Some (Map_Put data 3 (VSlice (sharedValue[i := VBool val])))\<rparr>
         else Panic)"

definition details_field :: "meta_lib \<Rightarrow> int \<Rightarrow> DirectoryMetadataDetails \<Rightarrow> bytes \<Rightarrow> (DirectoryMetadataDetails \<times> bytes) outcome" where
  "details_field ml key dmd bs =
     obind (ml_DecodeInterface ml bs) (\<lambda>(val, bs).
       case dd_Data dmd of
         None \<Rightarrow> Panic
       | Some m \<Rightarrow> Ok (\<lparr>dd_Data = Some (Map_Put m key val)\<rparr>, bs))"

definition Details_DecodeMsgpack ::
  "meta_lib \<Rightarrow> DirectoryMetadataDetails \<Rightarrow> bytes \<Rightarrow> (DirectoryMetadataDetails \<times> bytes) outcome" where
  "Details_DecodeMsgpack ml dmd bs =
     obind (ml_DecodeMapLen ml bs) (\<lambda>(mapLen, bs). decode_fields ml (details_field ml) (nat mapLen) dmd bs)"

definition Details_EncodeMsgpack :: "meta_lib \<Rightarrow> DirectoryMetadataDetails \<Rightarrow> bytes outcome" where
  "Details_EncodeMsgpack ml dmd =
     encode_int_map ml (Some (case dd_Data dmd of None \<Rightarrow> NewMap | Some m \<Rightarrow> m))"

section \<open>directory_reference.go\<close>

text \<open>A \<open>Base64UrlBinary\<close> is a byte slice, nil or not.\<close>

record DirectoryReference =
  dr_Created :: u64
  dr_Name :: string
  dr_EncryptedWriteKey :: "bytes option"
  dr_PublicKey :: "bytes option"
  dr_EncryptionKey :: "bytes option option"
  dr_Ext :: "(string \<times> goval) list option"
  dr_URI :: string
  dr_Key :: string
  dr_Size :: int

definition empty_dir_ref :: DirectoryReference where
  "empty_dir_ref = \<lparr>dr_Created = 0, dr_Name = [], dr_EncryptedWriteKey = None, dr_PublicKey = None,
     dr_EncryptionKey = None, dr_Ext = None, dr_URI = [], dr_Key = [], dr_Size = 0\<rparr>"

definition NewDirectoryReference ::
  "u64 \<Rightarrow> string \<Rightarrow> bytes option \<Rightarrow> bytes option \<Rightarrow> bytes option \<Rightarrow> (string \<times> goval) list option \<Rightarrow> DirectoryReference" where
  "NewDirectoryReference created name encryptedWriteKey publicKey encKey ext =
     \<lparr>dr_Created = created, dr_Name = name, dr_EncryptedWriteKey = encryptedWriteKey, dr_PublicKey = publicKey,
      dr_EncryptionKey = Some encKey, dr_Ext = ext, dr_URI = [], dr_Key = [], dr_Size = 0\<rparr>"

definition encode_binary :: "meta_lib \<Rightarrow> bytes option \<Rightarrow> bytes outcome" where
  "encode_binary ml b = (case b of None \<Rightarrow> Ok (ml_EncodeNil ml) | Some b \<Rightarrow> Ok (mp_EncodeBytes (ml_mp ml) b))"

text \<open>
  The map that is encoded, in the order of the puts. A \<open>*Base64UrlBinary\<close> and a Go map are none of
  the types the encoder knows.
\<close>

definition dir_ref_map :: "DirectoryReference \<Rightarrow> (map_key, bytes option map_value) gomap" where
  "dir_ref_map dr =
     [(MK_int 1, MV_string (dr_Name dr)), (MK_int 2, MV_uint64 (dr_Created dr)),
      (MK_int 3, MV_coded (dr_PublicKey dr)), (MK_int 4, MV_coded (dr_EncryptedWriteKey dr))] @
     (if dr_EncryptionKey dr \<noteq> None then [(MK_int 5, MV_other)] else []) @
     (if dr_Ext dr \<noteq> None then [(MK_int 6, MV_other)] else [])"

definition DirectoryReference_EncodeMsgpack :: "meta_lib \<Rightarrow> DirectoryReference \<Rightarrow> bytes outcome" where
  "DirectoryReference_EncodeMsgpack ml dr = marshallMapMsgpack ml (encode_binary ml) (Some (dir_ref_map dr))"

definition dir_ref_field :: "meta_lib \<Rightarrow> int \<Rightarrow> DirectoryReference \<Rightarrow> bytes \<Rightarrow> (DirectoryReference \<times> bytes) outcome" where
  "dir_ref_field ml key dr bs =
     obind (ml_DecodeInterface ml bs) (\<lambda>(val, bs). obind
       (if key = 1 then (case val of VStr s \<Rightarrow> Ok (dr\<lparr>dr_Name := s\<rparr>) | _ \<Rightarrow> Panic)
        else if key = 2 then (case val of VInt K_uint64 n \<Rightarrow> Ok (dr\<lparr>dr_Created := word_of_int n\<rparr>) | _ \<Rightarrow> Panic)
        else if key = 3 then (case val of VBytes b \<Rightarrow> Ok (dr\<lparr>dr_PublicKey := Some b\<rparr>) | _ \<Rightarrow> Panic)
        else if key = 4 then (case val of VBytes b \<Rightarrow> Ok (dr\<lparr>dr_EncryptedWriteKey := Some b\<rparr>) | _ \<Rightarrow> Panic)
        else if key = 5 then Panic
        else if key = 6 then (case val of VMap m \<Rightarrow> Ok (dr\<lparr>dr_Ext := Some m\<rparr>) | _ \<Rightarrow> Panic)
        else Ok dr) (\<lambda>dr. Ok (dr, bs)))"

definition DirectoryReference_DecodeMsgpack ::
  "meta_lib \<Rightarrow> DirectoryReference \<Rightarrow> bytes \<Rightarrow> (DirectoryReference \<times> bytes) outcome" where
  "DirectoryReference_DecodeMsgpack ml dr bs =
     obind (ml_DecodeMapLen ml bs) (\<lambda>(l, bs). decode_fields ml (dir_ref_field ml) (nat l) dr bs)"


section \<open>file_version_thumbnail.go\<close>

record FileVersionThumbnail =
  ft_ImageType :: string
  ft_AspectRatio :: u64
  ft_CID :: "EncryptedCID option"
  ft_Thumbhash :: "bytes option"

definition empty_thumbnail :: FileVersionThumbnail where
  "empty_thumbnail = \<lparr>ft_ImageType = [], ft_AspectRatio = 0, ft_CID = None, ft_Thumbhash = None\<rparr>"

definition NewFileVersionThumbnail ::
  "string \<Rightarrow> u64 \<Rightarrow> EncryptedCID option \<Rightarrow> bytes option \<Rightarrow> FileVersionThumbnail" where
  "NewFileVersionThumbnail imageType aspectRatio cid thumbhash =
     \<lparr>ft_ImageType = imageType, ft_AspectRatio = aspectRatio, ft_CID = cid, ft_Thumbhash = thumbhash\<rparr>"

text \<open>A \<open>float64\<close> and a \<open>[]byte\<close> are none of the types the encoder knows.\<close>

definition thumbnail_map :: "FileVersionThumbnail \<Rightarrow> (map_key, unit map_value) gomap outcome" where
  "thumbnail_map fvt =
     (case ft_CID fvt of
        None \<Rightarrow> Panic
      | Some cid \<Rightarrow> Ok ([(MK_int 2, MV_other), (MK_int 3, MV_other)] @
          (if ft_ImageType fvt \<noteq> [] then [(MK_int 1, MV_string (ft_ImageType fvt))] else []) @
          (if ft_Thumbhash fvt \<noteq> None then [(MK_int 4, MV_other)] else [])))"

definition Thumbnail_EncodeMsgpack :: "meta_lib \<Rightarrow> FileVersionThumbnail \<Rightarrow> bytes outcome" where
  "Thumbnail_EncodeMsgpack ml fvt =
     obind (thumbnail_map fvt) (\<lambda>fmap. marshallMapMsgpack ml (\<lambda>_. Ok []) (Some fmap))"

definition thumbnail_field ::
  "meta_lib \<Rightarrow> int \<Rightarrow> FileVersionThumbnail \<Rightarrow> bytes \<Rightarrow> (FileVersionThumbnail \<times> bytes) outcome" where
  "thumbnail_field ml key fvt bs =
     (if key = 1 then obind (mp_DecodeString (ml_mp ml) bs) (\<lambda>(s, bs). Ok (fvt\<lparr>ft_ImageType := s\<rparr>, bs))
      else if key = 2 then obind (ml_DecodeFloat64 ml bs) (\<lambda>(f, bs). Ok (fvt\<lparr>ft_AspectRatio := f\<rparr>, bs))
      else if key = 3 then obind (mp_DecodeBytes (ml_mp ml) bs) (\<lambda>(val, bs).
        obind (EncryptedCIDFromBytes (ml_spare ml val) val) (\<lambda>c. Ok (fvt\<lparr>ft_CID := Some c\<rparr>, bs)))
      else if key = 4 then obind (decode_or_nil ml (mp_DecodeBytes (ml_mp ml)) bs) (\<lambda>(b, bs). Ok (fvt\<lparr>ft_Thumbhash := b\<rparr>, bs))
      else Ok (fvt, bs))"

definition Thumbnail_DecodeMsgpack ::
  "meta_lib \<Rightarrow> FileVersionThumbnail \<Rightarrow> bytes \<Rightarrow> (FileVersionThumbnail \<times> bytes) outcome" where
  "Thumbnail_DecodeMsgpack ml fvt bs =
     obind (ml_DecodeMapLen ml bs) (\<lambda>(mapLen, bs). decode_fields ml (thumbnail_field ml) (nat mapLen) fvt bs)"

datatype thumbnail_item = TI_float u64 | TI_bytes bytes | TI_string string

definition Thumbnail_Encode :: "FileVersionThumbnail \<Rightarrow> (int, thumbnail_item) gomap outcome" where
  "Thumbnail_Encode fvt =
     (case ft_CID fvt of
        None \<Rightarrow> Panic
      | Some cid \<Rightarrow> Ok ([(2, TI_float (ft_AspectRatio fvt)), (3, TI_bytes (EncryptedCID_ToBytes cid))] @
          (if ft_ImageType fvt \<noteq> [] then [(1, TI_string (ft_ImageType fvt))] else []) @
          (case ft_Thumbhash fvt of None \<Rightarrow> [] | Some h \<Rightarrow> [(4, TI_bytes h)])))"

section \<open>file_version.go\<close>

record FileVersion =
  fv_Ts :: u64
  fv_EncryptedCID :: "EncryptedCID option"
  fv_PlaintextCID :: "CID option"
  fv_Thumbnail :: "FileVersionThumbnail option"
  fv_Hashes :: "Multihash list"
  fv_Ext :: "(string \<times> goval) list option"

definition empty_version :: FileVersion where
  "empty_version = \<lparr>fv_Ts = 0, fv_EncryptedCID = None, fv_PlaintextCID = None, fv_Thumbnail = None, fv_Hashes = [],
     fv_Ext = None\<rparr>"

definition NewFileVersion ::
  "u64 \<Rightarrow> EncryptedCID option \<Rightarrow> CID option \<Rightarrow> FileVersionThumbnail option \<Rightarrow> Multihash list \<Rightarrow> (string \<times> goval) list option \<Rightarrow> FileVersion" where
  "NewFileVersion ts encryptedCID plaintextCID thumbnail hashes ext =
     \<lparr>fv_Ts = ts, fv_EncryptedCID = encryptedCID, fv_PlaintextCID = plaintextCID, fv_Thumbnail = thumbnail,
      fv_Hashes = hashes, fv_Ext = ext\<rparr>"

text \<open>
  Of the values only the time and the plaintext identifier are of types the encoder knows; a
  \<open>*EncryptedCID\<close>, a \<open>[][]byte\<close> and a \<open>*FileVersionThumbnail\<close> are not.
\<close>

definition version_map :: "FileVersion \<Rightarrow> (map_key, CID map_value) gomap" where
  "version_map fv =
     [(MK_int 8, MV_uint64 (fv_Ts fv))] @
     (if fv_EncryptedCID fv \<noteq> None then [(MK_int 1, MV_other)] else []) @
     (case fv_PlaintextCID fv of None \<Rightarrow> [] | Some cid \<Rightarrow> [(MK_int 2, MV_coded cid)]) @
     (if 0 < length (fv_Hashes fv) then [(MK_int 9, MV_other)] else []) @
     (if fv_Thumbnail fv \<noteq> None then [(MK_int 10, MV_other)] else [])"

definition FileVersion_EncodeMsgpack :: "meta_lib \<Rightarrow> FileVersion \<Rightarrow> bytes outcome" where
  "FileVersion_EncodeMsgpack ml fv = marshallMapMsgpack ml (\<lambda>cid. Ok (CID_EncodeMsgpack ml cid)) (Some (version_map fv))"

primrec hash_list :: "goval list \<Rightarrow> Multihash list outcome" where
  "hash_list [] = Ok []"
| "hash_list (hashData # vs) =
     (case hashData of
        VBytes hashBytes \<Rightarrow> obind (hash_list vs) (\<lambda>hs. Ok (NewMultihash hashBytes # hs))
      | _ \<Rightarrow> Panic)"

definition version_field :: "meta_lib \<Rightarrow> int \<Rightarrow> FileVersion \<Rightarrow> bytes \<Rightarrow> (FileVersion \<times> bytes) outcome" where
  "version_field ml key fv bs =
     (if key = 1 then obind (decode_or_nil ml (EncryptedCID_DecodeMsgpack ml) bs) (\<lambda>(c, bs). Ok (fv\<lparr>fv_EncryptedCID := c\<rparr>, bs))
      else if key = 2 then obind (decode_or_nil ml (CID_DecodeMsgpack ml) bs) (\<lambda>(c, bs). Ok (fv\<lparr>fv_PlaintextCID := c\<rparr>, bs))
      else if key = 8 then obind (ml_DecodeUint64 ml bs) (\<lambda>(ts, bs). Ok (fv\<lparr>fv_Ts := ts\<rparr>, bs))
      else if key = 9 then obind (decode_slice ml bs) (\<lambda>(hashesData, bs).
        obind (hash_list hashesData) (\<lambda>hs. Ok (fv\<lparr>fv_Hashes := hs\<rparr>, bs)))
      else if key = 10 then obind (decode_or_nil ml (Thumbnail_DecodeMsgpack ml
          (case fv_Thumbnail fv of None \<Rightarrow> empty_thumbnail | Some t \<Rightarrow> t)) bs) (\<lambda>(t, bs). Ok (fv\<lparr>fv_Thumbnail := t\<rparr>, bs))
      else Ok (fv, bs))"

definition FileVersion_DecodeMsgpack :: "meta_lib \<Rightarrow> FileVersion \<Rightarrow> bytes \<Rightarrow> (FileVersion \<times> bytes) outcome" where
  "FileVersion_DecodeMsgpack ml fv bs =
     obind (ml_DecodeMapLen ml bs) (\<lambda>(mapLen, bs). decode_fields ml (version_field ml) (nat mapLen) fv bs)"

definition FileVersion_CID :: "FileVersion \<Rightarrow> CID outcome" where
  "FileVersion_CID fv =
     (case fv_PlaintextCID fv of
        Some c \<Rightarrow> Ok c
      | None \<Rightarrow> (case fv_EncryptedCID fv of None \<Rightarrow> Panic | Some e \<Rightarrow> Ok (OriginalCID e)))"

section \<open>file_reference.go\<close>

type_synonym ext_map = "(map_key, goval stored) gomap"

definition NewExtMap :: ext_map where "NewExtMap = NewMap"
definition NewFileHistoryMap :: ext_map where "NewFileHistoryMap = NewMap"

record FileReference =
  fr_Name :: string
  fr_Created :: u64
  fr_Version :: u64
  fr_File :: "FileVersion option"
  fr_Ext :: "ext_map option"
  fr_History :: "ext_map option"
  fr_MimeType :: string
  fr_URI :: string
  fr_Key :: string

definition empty_file_ref :: FileReference where
  "empty_file_ref = \<lparr>fr_Name = [], fr_Created = 0, fr_Version = 0, fr_File = None, fr_Ext = None, fr_History = None,
     fr_MimeType = [], fr_URI = [], fr_Key = []\<rparr>"

definition NewFileReference ::
  "string \<Rightarrow> u64 \<Rightarrow> u64 \<Rightarrow> FileVersion option \<Rightarrow> ext_map option \<Rightarrow> ext_map option \<Rightarrow> string \<Rightarrow> FileReference" where
  "NewFileReference name created version file ext history mimeType =
     \<lparr>fr_Name = name, fr_Created = created, fr_Version = version, fr_File = file, fr_Ext = ext, fr_History = history,
      fr_MimeType = mimeType, fr_URI = [], fr_Key = []\<rparr>"

definition Modified :: "FileReference \<Rightarrow> u64 outcome" where
  "Modified fr = (case fr_File fr of None \<Rightarrow> Panic | Some f \<Rightarrow> Ok (fv_Ts f))"

text \<open>\<open>Empty\<close> of a map that was never made panics.\<close>

definition ext_items :: "int \<Rightarrow> ext_map option \<Rightarrow> (map_key, FileVersion option map_value) gomap outcome" where
  "ext_items key m =
     (case m of None \<Rightarrow> Panic | Some m \<Rightarrow> Ok (if Map_Empty m then [] else [(MK_int key, MV_other)]))"

definition file_ref_map :: "FileReference \<Rightarrow> (map_key, FileVersion option map_value) gomap outcome" where
  "file_ref_map fr =
     obind (ext_items 7 (fr_Ext fr)) (\<lambda>ext. obind (ext_items 8 (fr_History fr)) (\<lambda>history.
       Ok ([(MK_int 1, MV_string (fr_Name fr)), (MK_int 2, MV_uint64 (fr_Created fr)),
            (MK_int 4, MV_coded (fr_File fr)), (MK_int 5, MV_uint64 (fr_Version fr))] @
           (if fr_MimeType fr \<noteq> [] then [(MK_int 6, MV_string (fr_MimeType fr))] else []) @ ext @ history)))"

definition FileReference_EncodeMsgpack :: "meta_lib \<Rightarrow> FileReference \<Rightarrow> bytes outcome" where
  "FileReference_EncodeMsgpack ml fr =
     obind (file_ref_map fr) (\<lambda>m. marshallMapMsgpack ml (encode_pointer ml (FileVersion_EncodeMsgpack ml)) (Some m))"

text \<open>The placeholder of both maps is an \<open>ExtMap\<close>, which the decoder does not list.\<close>

definition ExtMap_DecodeMsgpack :: "meta_lib \<Rightarrow> bytes \<Rightarrow> (ext_map \<times> bytes) outcome" where
  "ExtMap_DecodeMsgpack ml = unmarshalMapMsgpack ml VNil None True"

definition FileHistoryMap_DecodeMsgpack :: "meta_lib \<Rightarrow> bytes \<Rightarrow> (ext_map \<times> bytes) outcome" where
  "FileHistoryMap_DecodeMsgpack ml = unmarshalMapMsgpack ml VNil None False"

text \<open>The state of the decoder: the reference, and whether the two maps were read.\<close>

type_synonym file_ref_state = "FileReference \<times> bool \<times> bool"

definition file_ref_field :: "meta_lib \<Rightarrow> int \<Rightarrow> file_ref_state \<Rightarrow> bytes \<Rightarrow> (file_ref_state \<times> bytes) outcome" where
  "file_ref_field ml key st bs = (case st of (fr, hasExt, hasHistory) \<Rightarrow>
     if key = 1 then obind (mp_DecodeString (ml_mp ml) bs) (\<lambda>(s, bs). Ok ((fr\<lparr>fr_Name := s\<rparr>, hasExt, hasHistory), bs))
     else if key = 2 then obind (ml_DecodeUint64 ml bs) (\<lambda>(n, bs). Ok ((fr\<lparr>fr_Created := n\<rparr>, hasExt, hasHistory), bs))
     else if key = 4 then
       obind (decode_or_nil ml (FileVersion_DecodeMsgpack ml (case fr_File fr of None \<Rightarrow> empty_version | Some f \<Rightarrow> f)) bs)
         (\<lambda>(f, bs). Ok ((fr\<lparr>fr_File := f\<rparr>, hasExt, hasHistory), bs))
     else if key = 5 then
       obind (mp_DecodeInt (ml_mp ml) bs) (\<lambda>(n, bs). Ok ((fr\<lparr>fr_Version := word_of_int n\<rparr>, hasExt, hasHistory), bs))
     else if key = 6 then obind (mp_DecodeString (ml_mp ml) bs) (\<lambda>(s, bs). Ok ((fr\<lparr>fr_MimeType := s\<rparr>, hasExt, hasHistory), bs))
     else if key = 7 then
       obind (decode_or_nil ml (ExtMap_DecodeMsgpack ml) bs) (\<lambda>(m, bs). Ok ((fr\<lparr>fr_Ext := m\<rparr>, True, hasHistory), bs))
     else if key = 8 then
       obind (decode_or_nil ml (FileHistoryMap_DecodeMsgpack ml) bs) (\<lambda>(m, bs). Ok ((fr\<lparr>fr_History := m\<rparr>, hasExt, True), bs))
     else Ok (st, bs))"

definition FileReference_DecodeMsgpack :: "meta_lib \<Rightarrow> FileReference \<Rightarrow> bytes \<Rightarrow> (FileReference \<times> bytes) outcome" where
  "FileReference_DecodeMsgpack ml fr bs =
     obind (ml_DecodeMapLen ml bs) (\<lambda>(mapLen, bs).
     obind (decode_fields ml (file_ref_field ml) (nat mapLen) (fr, False, False) bs) (\<lambda>((fr, hasExt, hasHistory), bs).
       let fr = (if hasExt then fr else fr\<lparr>fr_Ext := Some NewMap\<rparr>);
           fr = (if hasHistory then fr else fr\<lparr>fr_History := Some NewMap\<rparr>)
       in Ok (fr, bs)))"

text \<open>Both maps from JSON: \<open>null\<close> empties them, \<open>FromJSON\<close> is the parser of the map package.\<close>

definition ext_UnmarshalJSON :: "(bytes \<Rightarrow> (string \<times> goval) list outcome) \<Rightarrow> bytes \<Rightarrow> ext_map outcome" where
  "ext_UnmarshalJSON FromJSON bs =
     (if string_of_bytes bs = ''null'' then Ok NewMap
      else obind (FromJSON bs) (\<lambda>kvs. Ok (fold (\<lambda>(k, v) m. Map_Put m (MK_string k) (Plain v)) kvs NewMap)))"

section \<open>directory.go\<close>

record DirectoryMetadata =
  dm_Type :: string
  dm_Details :: DirectoryMetadataDetails
  dm_Directories :: "(map_key, DirectoryReference stored) gomap option"
  dm_Files :: "(map_key, FileReference stored) gomap option"
  dm_ExtraMetadata :: "(int, goval) gomap option"

definition NewEmptyDirectoryMetadata :: DirectoryMetadata where
  "NewEmptyDirectoryMetadata = \<lparr>dm_Type = [], dm_Details = \<lparr>dd_Data = None\<rparr>, dm_Directories = None, dm_Files = None,
     dm_ExtraMetadata = None\<rparr>"

definition NewDirectoryMetadata ::
  "DirectoryMetadataDetails \<Rightarrow> (map_key, DirectoryReference stored) gomap option \<Rightarrow> (map_key, FileReference stored) gomap option \<Rightarrow>
   (int, goval) gomap option \<Rightarrow> DirectoryMetadata" where
  "NewDirectoryMetadata details directories files extraMetadata =
     \<lparr>dm_Type = ''directory'', dm_Details = details, dm_Directories = directories, dm_Files = files,
      dm_ExtraMetadata = extraMetadata\<rparr>"

definition Directory_EncodeMsgpack :: "meta_lib \<Rightarrow> DirectoryMetadata \<Rightarrow> bytes outcome" where
  "Directory_EncodeMsgpack ml dm =
     obind (Details_EncodeMsgpack ml (dm_Details dm)) (\<lambda>details.
     obind (refmap_EncodeMsgpack ml (DirectoryReference_EncodeMsgpack ml) (dm_Directories dm)) (\<lambda>directories.
     obind (refmap_EncodeMsgpack ml (FileReference_EncodeMsgpack ml) (dm_Files dm)) (\<lambda>files.
     obind (encode_int_map ml (dm_ExtraMetadata dm)) (\<lambda>extra.
       Ok (InitMarshaller ml MetadataTypeDirectory @ ml_EncodeArrayLen ml 4 @ details @ directories @ files @ extra)))))"

definition directoryReferenceMap_DecodeMsgpack ::
  "meta_lib \<Rightarrow> bytes \<Rightarrow> ((map_key, DirectoryReference stored) gomap \<times> bytes) outcome" where
  "directoryReferenceMap_DecodeMsgpack ml =
     unmarshalMapMsgpack ml empty_dir_ref (Some (DirectoryReference_DecodeMsgpack ml empty_dir_ref)) False"

definition fileReferenceMap_DecodeMsgpack ::
  "meta_lib \<Rightarrow> bytes \<Rightarrow> ((map_key, FileReference stored) gomap \<times> bytes) outcome" where
  "fileReferenceMap_DecodeMsgpack ml =
     unmarshalMapMsgpack ml empty_file_ref (Some (FileReference_DecodeMsgpack ml empty_file_ref)) False"

definition Directory_DecodeMsgpack :: "meta_lib \<Rightarrow> DirectoryMetadata \<Rightarrow> bytes \<Rightarrow> (DirectoryMetadata \<times> bytes) outcome" where
  "Directory_DecodeMsgpack ml dm bs =
     obind (InitUnmarshaller ml [MetadataTypeDirectory] bs) (\<lambda>(_, bs).
     obind (ml_DecodeArrayLen ml bs) (\<lambda>(val, bs).
       if val \<noteq> 4 then Err (GoError '' Corrupted metadata'' [])
       else
     obind (decode_or_nil ml (Details_DecodeMsgpack ml (dm_Details dm)) bs) (\<lambda>(details, bs).
     obind (decode_or_nil ml (directoryReferenceMap_DecodeMsgpack ml) bs) (\<lambda>(directories, bs).
     obind (decode_or_nil ml (fileReferenceMap_DecodeMsgpack ml) bs) (\<lambda>(files, bs).
     obind (decodeIntMap ml bs) (\<lambda>(intMap, bs).
       Ok (dm\<lparr>dm_Type := ''directory'', dm_Details := (case details of None \<Rightarrow> \<lparr>dd_Data = None\<rparr> | Some d \<Rightarrow> d),
              dm_Directories := directories, dm_Files := files, dm_ExtraMetadata := Some intMap\<rparr>, bs)))))))"


section \<open>What is encoded at all\<close>

lemma marshal_ok_iff:
  "(\<exists>b. marshallMapMsgpack ml coded (Some m) = Ok b) \<longleftrightarrow>
     (\<forall>(k, v) \<in> set m. k \<noteq> MK_other \<and> (\<exists>b. marshal_value ml coded v = Ok b))"
proof -
  have "(\<exists>b. marshal_entries ml coded m = Ok b) \<longleftrightarrow>
     (\<forall>(k, v) \<in> set m. k \<noteq> MK_other \<and> (\<exists>b. marshal_value ml coded v = Ok b))"
    by (induction m) (auto simp: marshal_key_def obind_eq_Ok split: map_key.splits)
  then show ?thesis by (simp add: marshallMapMsgpack_def obind_eq_Ok)
qed

lemma marshal_value_ok_iff:
  "(\<exists>b. marshal_value ml coded v = Ok b) \<longleftrightarrow> v \<noteq> MV_other \<and> (\<forall>x. v = MV_coded x \<longrightarrow> (\<exists>b. coded x = Ok b))"
  by (cases v) (simp_all add: marshal_value_def)

lemma Thumbnail_not_encodable: "\<nexists>b. Thumbnail_EncodeMsgpack ml fvt = Ok b"
  by (auto simp: Thumbnail_EncodeMsgpack_def thumbnail_map_def marshallMapMsgpack_def marshal_key_def marshal_value_def
      split: option.splits)

lemma FileVersion_encodable_iff:
  "(\<exists>b. FileVersion_EncodeMsgpack ml fv = Ok b) \<longleftrightarrow>
     fv_EncryptedCID fv = None \<and> fv_Hashes fv = [] \<and> fv_Thumbnail fv = None"
  unfolding FileVersion_EncodeMsgpack_def marshal_ok_iff marshal_value_ok_iff
  by (cases "fv_EncryptedCID fv"; cases "fv_Thumbnail fv"; cases "fv_PlaintextCID fv"; cases "fv_Hashes fv")
    (simp_all add: version_map_def)

lemma DirectoryReference_encodable_iff:
  "(\<exists>b. DirectoryReference_EncodeMsgpack ml dr = Ok b) \<longleftrightarrow> dr_EncryptionKey dr = None \<and> dr_Ext dr = None"
  unfolding DirectoryReference_EncodeMsgpack_def marshal_ok_iff marshal_value_ok_iff
  by (cases "dr_EncryptionKey dr"; cases "dr_Ext dr"; cases "dr_PublicKey dr"; cases "dr_EncryptedWriteKey dr")
    (simp_all add: dir_ref_map_def encode_binary_def)

lemma encode_pointer_ok_iff:
  "(\<exists>b. encode_pointer ml e p = Ok b) \<longleftrightarrow> (\<forall>x. p = Some x \<longrightarrow> (\<exists>b. e x = Ok b))"
  by (cases p) (simp_all add: encode_pointer_def)

lemma FileReference_encodable_iff:
  "(\<exists>b. FileReference_EncodeMsgpack ml fr = Ok b) \<longleftrightarrow> fr_Ext fr = Some NewMap \<and> fr_History fr = Some NewMap \<and>
     (\<forall>fv. fr_File fr = Some fv \<longrightarrow> fv_EncryptedCID fv = None \<and> fv_Hashes fv = [] \<and> fv_Thumbnail fv = None)"
proof (cases "fr_Ext fr = None \<or> fr_History fr = None")
  case True
  then have "file_ref_map fr = Panic" by (auto simp: file_ref_map_def ext_items_def split: option.splits)
  then show ?thesis using True by (auto simp: FileReference_EncodeMsgpack_def)
next
  case False
  then obtain ext history where m: "fr_Ext fr = Some ext" "fr_History fr = Some history" by auto
  let ?coded = "encode_pointer ml (FileVersion_EncodeMsgpack ml)"
  have "(\<exists>b. FileReference_EncodeMsgpack ml fr = Ok b) \<longleftrightarrow> ext = [] \<and> history = [] \<and> (\<exists>b. ?coded (fr_File fr) = Ok b)"
    unfolding FileReference_EncodeMsgpack_def file_ref_map_def ext_items_def m option.case obind_simps marshal_ok_iff marshal_value_ok_iff
    by (cases ext; cases history; cases "fr_MimeType fr = []") (simp_all add: Map_Empty_def)
  then show ?thesis by (simp add: m NewMap_def encode_pointer_ok_iff FileVersion_encodable_iff)
qed

text \<open>The constructor always sets the key, so what it makes is never encoded.\<close>

lemma NewDirectoryReference_not_encodable:
  "\<nexists>b. DirectoryReference_EncodeMsgpack ml (NewDirectoryReference c n w p k e) = Ok b"
  using DirectoryReference_encodable_iff [of ml "NewDirectoryReference c n w p k e"]
  by (simp add: NewDirectoryReference_def)

section \<open>What is read back\<close>

text \<open>The number of a field in front of its value.\<close>

lemma decode_field_step:
  assumes "meta_laws ml" "- (2 ^ 7) \<le> k" "k < 2 ^ 7"
  shows "decode_fields ml field (Suc n) s (mp_EncodeInt (ml_mp ml) k @ bs) =
    obind (field k s bs) (\<lambda>(s, bs). decode_fields ml field n s bs)"
  by (simp add: meta_int8 [OF assms])

lemma decode_fields_numeral:
  "decode_fields ml field 4 = decode_fields ml field (Suc (Suc (Suc (Suc 0))))"
  "decode_fields ml field 5 = decode_fields ml field (Suc (Suc (Suc (Suc (Suc 0)))))"
  by (simp_all add: eval_nat_numeral)

lemma sint_small: "uint (w :: u64) < 2 ^ 63 \<Longrightarrow> sint w = uint w"
  by (simp add: sint_uint signed_take_bit_int_eq_self order.trans [OF _ uint_ge_0])

lemma uint64_decoded:
  assumes "meta_laws ml" "uint w < 2 ^ 63"
  shows "ml_DecodeUint64 ml (mp_EncodeInt (ml_mp ml) (sint w) @ r) = Ok (w, r)"
  using meta_uint64 [OF assms] sint_small [OF assms(2)] by simp

definition version_ok :: "FileVersion \<Rightarrow> bool" where
  "version_ok fv \<longleftrightarrow> fv_EncryptedCID fv = None \<and> fv_Hashes fv = [] \<and> fv_Thumbnail fv = None \<and>
     uint (fv_Ts fv) < 2 ^ 63 \<and> (\<forall>c. fv_PlaintextCID fv = Some c \<longrightarrow> valid_cid c \<and> short (ToBytes c))"

definition version_read :: "FileVersion \<Rightarrow> FileVersion" where
  "version_read fv = fv\<lparr>fv_Ext := None\<rparr>"

lemma version_decoded:
  assumes "meta_laws ml" "version_ok fv"
  shows "\<exists>b. FileVersion_EncodeMsgpack ml fv = Ok b \<and> (\<forall>r. \<not> ml_IsNil ml (b @ r) \<and>
    FileVersion_DecodeMsgpack ml empty_version (b @ r) = Ok (version_read fv, r))"
proof (cases "fv_PlaintextCID fv")
  case None
  with assms show ?thesis
    using meta_map [OF assms(1), of 1]
    by (simp add: FileVersion_EncodeMsgpack_def version_map_def version_ok_def marshallMapMsgpack_def marshal_key_def
        marshal_value_def FileVersion_DecodeMsgpack_def version_field_def uint64_decoded meta_int8)
      (cases fv, simp add: version_read_def empty_version_def)
next
  case (Some c)
  with assms have c: "meta_laws ml \<and> valid_cid c \<and> short (ToBytes c)" by (simp add: version_ok_def)
  have nil: "\<not> ml_IsNil ml (CID_EncodeMsgpack ml c @ r)" for r
    using c meta_bytes_not_nil [of ml "ToBytes c"] by (simp add: CID_EncodeMsgpack_def short_def)
  note cid = m_cid.dec_enc [OF c]
  from Some assms show ?thesis
    using meta_map [OF assms(1), of 2]
    by (simp add: FileVersion_EncodeMsgpack_def version_map_def version_ok_def marshallMapMsgpack_def marshal_key_def
        marshal_value_def FileVersion_DecodeMsgpack_def version_field_def uint64_decoded meta_int8 numeral_2_eq_2
        decode_or_nil_def nil cid)
      (cases fv, simp add: version_read_def empty_version_def)
qed

definition file_ref_ok :: "FileReference \<Rightarrow> bool" where
  "file_ref_ok fr \<longleftrightarrow> short (fr_Name fr) \<and> short (fr_MimeType fr) \<and> uint (fr_Created fr) < 2 ^ 63 \<and>
     fr_Ext fr = Some NewMap \<and> fr_History fr = Some NewMap \<and> (\<forall>f. fr_File fr = Some f \<longrightarrow> version_ok f)"

definition file_ref_read :: "FileReference \<Rightarrow> FileReference" where
  "file_ref_read fr = fr\<lparr>fr_File := map_option version_read (fr_File fr), fr_URI := [], fr_Key := []\<rparr>"

lemma file_pointer_decoded:
  assumes "meta_laws ml" "\<forall>f. p = Some f \<longrightarrow> version_ok f"
  shows "\<exists>b. encode_pointer ml (FileVersion_EncodeMsgpack ml) p = Ok b \<and>
    (\<forall>r. decode_or_nil ml (FileVersion_DecodeMsgpack ml empty_version) (b @ r) = Ok (map_option version_read p, r))"
proof (cases p)
  case (Some f)
  with assms version_decoded [OF assms(1), of f] show ?thesis by (auto simp: encode_pointer_def decode_or_nil_def)
qed (simp add: encode_pointer_def decode_or_nil_def meta_nil [OF assms(1)])

lemma file_ref_decoded:
  assumes "meta_laws ml" "file_ref_ok fr"
  shows "\<exists>b. FileReference_EncodeMsgpack ml fr = Ok b \<and> (\<forall>r. \<not> ml_IsNil ml (b @ r) \<and>
    FileReference_DecodeMsgpack ml empty_file_ref (b @ r) = Ok (file_ref_read fr, r))"
proof -
  obtain f where f: "encode_pointer ml (FileVersion_EncodeMsgpack ml) (fr_File fr) = Ok f"
    "\<And>r. decode_or_nil ml (FileVersion_DecodeMsgpack ml empty_version) (f @ r) = Ok (map_option version_read (fr_File fr), r)"
    using file_pointer_decoded [OF assms(1), of "fr_File fr"] assms(2) by (auto simp: file_ref_ok_def)
  note facts = file_ref_ok_def short_def uint64_decoded [OF assms(1)] meta_int8 [OF assms(1)]
    msgpack_string [OF meta_msgpack [OF assms(1)]] msgpack_int [OF meta_msgpack [OF assms(1)]] sint_range
  note enc = FileReference_EncodeMsgpack_def file_ref_map_def ext_items_def Map_Empty_def NewMap_def marshallMapMsgpack_def
    marshal_key_def marshal_value_def f(1)
  note dec = FileReference_DecodeMsgpack_def file_ref_field_def empty_file_ref_def Let_def f(2)
  show ?thesis
  proof (cases "fr_MimeType fr = []")
    case True
    with assms(2) show ?thesis
      using meta_map [OF assms(1), of 4]
      by (simp add: enc dec facts decode_fields_numeral) (cases fr, simp add: file_ref_read_def)
  next
    case False
    with assms(2) show ?thesis
      using meta_map [OF assms(1), of 5]
      by (simp add: enc dec facts decode_fields_numeral) (cases fr, simp add: file_ref_read_def)
  qed
qed


text \<open>A directory reference is read back exactly if its time needs more than 32 bits.\<close>

definition dir_ref_ok :: "DirectoryReference \<Rightarrow> bool" where
  "dir_ref_ok dr \<longleftrightarrow> short (dr_Name dr) \<and> dr_EncryptionKey dr = None \<and> dr_Ext dr = None \<and>
     (\<exists>k. dr_PublicKey dr = Some k \<and> short k) \<and> (\<exists>k. dr_EncryptedWriteKey dr = Some k \<and> short k)"

definition dir_ref_read :: "DirectoryReference \<Rightarrow> DirectoryReference" where
  "dir_ref_read dr = dr\<lparr>dr_URI := [], dr_Key := [], dr_Size := 0\<rparr>"

lemma wire_kind_uint64: "wire_kind n = K_uint64 \<longleftrightarrow> 2 ^ 32 \<le> n"
  by (simp add: wire_kind_def)

lemma dir_ref_decoded:
  assumes "meta_laws ml" "dir_ref_ok dr"
  shows "\<exists>b. DirectoryReference_EncodeMsgpack ml dr = Ok b \<and> (\<forall>r. \<not> ml_IsNil ml (b @ r) \<and>
    DirectoryReference_DecodeMsgpack ml empty_dir_ref (b @ r) =
      (if 2 ^ 32 \<le> sint (dr_Created dr) then Ok (dir_ref_read dr, r) else Panic))"
proof -
  obtain p w where keys: "dr_PublicKey dr = Some p" "short p" "dr_EncryptedWriteKey dr = Some w" "short w"
    using assms(2) by (auto simp: dir_ref_ok_def)
  have created: "(case VInt (wire_kind (sint (dr_Created dr))) (sint (dr_Created dr)) of
      VInt K_uint64 n \<Rightarrow> Ok (x\<lparr>dr_Created := word_of_int n\<rparr>) | _ \<Rightarrow> Panic) =
    (if 2 ^ 32 \<le> sint (dr_Created dr) then Ok (x\<lparr>dr_Created := dr_Created dr\<rparr>) else Panic)" for x
    using wire_kind_uint64 [of "sint (dr_Created dr)"]
    by (cases "wire_kind (sint (dr_Created dr))") simp_all
  note facts = dir_ref_ok_def short_def meta_int8 [OF assms(1)] sint_range meta_interface_int [OF assms(1)]
    meta_interface_string [OF assms(1)] meta_interface_bytes [OF assms(1)]
  show ?thesis
    using assms(2) keys meta_map [OF assms(1), of 4]
    by (simp add: DirectoryReference_EncodeMsgpack_def dir_ref_map_def marshallMapMsgpack_def marshal_key_def
        marshal_value_def encode_binary_def DirectoryReference_DecodeMsgpack_def dir_ref_field_def decode_fields_numeral
        facts created [unfolded goval.case])
      (cases dr, simp add: dir_ref_read_def empty_dir_ref_def)
qed

section \<open>The maps of references\<close>

lemma stored_value_pointer: "stored_value (Pointer p) = MV_coded p"
  by (simp add: stored_value_def)

lemma dec_times_or_panic:
  assumes "\<And>x r. x \<in> set xs \<Longrightarrow> d (e x @ r) = (if good x then Ok (f x, r) else Panic)"
  shows "dec_times d (length xs) (concat (map e xs) @ r) =
    (if \<forall>x \<in> set xs. good x then Ok (map f xs, r) else Panic)"
  using assms by (induction xs) auto

definition ref_entry_ok ::
  "meta_lib \<Rightarrow> ('v \<Rightarrow> bytes outcome) \<Rightarrow> (bytes \<Rightarrow> ('v \<times> bytes) outcome) \<Rightarrow> ('v \<Rightarrow> 'v) \<Rightarrow> ('v \<Rightarrow> bool) \<Rightarrow> map_key \<times> 'v stored \<Rightarrow> bool" where
  "ref_entry_ok ml e d f good kv \<longleftrightarrow> (\<exists>s x b. kv = (MK_string s, Pointer (Some x)) \<and> short s \<and> e x = Ok b \<and>
     (\<forall>r. \<not> ml_IsNil ml (b @ r) \<and> d (b @ r) = (if good x then Ok (f x, r) else Panic)))"

definition entry_good :: "('v \<Rightarrow> bool) \<Rightarrow> map_key \<times> 'v stored \<Rightarrow> bool" where
  "entry_good good kv \<longleftrightarrow> (\<forall>x. snd kv = Pointer (Some x) \<longrightarrow> good x)"

text \<open>The bytes of an entry; what decodes one reads it back or panics.\<close>

definition entry_bytes :: "meta_lib \<Rightarrow> ('v \<Rightarrow> bytes outcome) \<Rightarrow> map_key \<times> 'v stored \<Rightarrow> bytes" where
  "entry_bytes ml e kv = (case marshal_entries ml (encode_pointer ml e) [apsnd stored_value kv] of Ok b \<Rightarrow> b | _ \<Rightarrow> [])"

lemma ref_entry_decoded:
  assumes "meta_laws ml" "ref_entry_ok ml e d f good kv"
  shows "unmarshal_entry ml zero (Some d) False (entry_bytes ml e kv @ r) =
    (if entry_good good kv then Ok (apsnd (map_stored f) kv, r) else Panic)"
proof -
  obtain s x b where kv: "kv = (MK_string s, Pointer (Some x))" "short s" "e x = Ok b"
    and b: "\<And>r. \<not> ml_IsNil ml (b @ r)" "\<And>r. d (b @ r) = (if good x then Ok (f x, r) else Panic)"
    using assms(2) by (auto simp: ref_entry_ok_def)
  have "mp_DecodeString (ml_mp ml) (mp_EncodeString (ml_mp ml) s @ r) = Ok (s, r)" for r
    using kv(2) msgpack_string [OF meta_msgpack [OF assms(1)]] by (simp add: short_def)
  then show ?thesis
    by (simp add: kv entry_bytes_def stored_value_pointer marshal_key_def marshal_value_def encode_pointer_def
        unmarshal_entry_def unmarshal_key_def decode_or_nil_def b entry_good_def)
qed

lemma refmap_decoded:
  assumes "meta_laws ml" "short m" "distinct (map fst m)" "\<forall>kv \<in> set m. ref_entry_ok ml e d f good kv"
  shows "\<exists>b. refmap_EncodeMsgpack ml e (Some m) = Ok b \<and>
    (\<forall>r. decode_or_nil ml (unmarshalMapMsgpack ml zero (Some d) False) (b @ r) =
      (if \<forall>kv \<in> set m. entry_good good kv then Ok (Some (map (apsnd (map_stored f)) m), r) else Panic))"
proof -
  have enc: "marshal_entries ml (encode_pointer ml e) (map (apsnd stored_value) m) = Ok (concat (map (entry_bytes ml e) m))"
    using assms(4)
  proof (induction m)
    case (Cons kv m)
    then obtain s x b where "kv = (MK_string s, Pointer (Some x))" "e x = Ok b" by (auto simp: ref_entry_ok_def)
    then have "marshal_entries ml (encode_pointer ml e) [apsnd stored_value kv] = Ok (mp_EncodeString (ml_mp ml) s @ b)"
      "entry_bytes ml e kv = mp_EncodeString (ml_mp ml) s @ b"
      by (simp_all add: entry_bytes_def stored_value_pointer marshal_key_def marshal_value_def encode_pointer_def)
    then show ?case using Cons by (auto simp: obind_eq_Ok)
  qed simp
  have "fold (\<lambda>(k, v) m. Map_Put m k v) (map (apsnd (map_stored f)) m) NewMap = map (apsnd (map_stored f)) m"
    using assms(3) by (intro put_items_fresh) (simp add: comp_def)
  moreover note dec_times_or_panic [of m "unmarshal_entry ml zero (Some d) False" "entry_bytes ml e" "entry_good good"
    "apsnd (map_stored f)", OF ref_entry_decoded [OF assms(1)]]
  ultimately show ?thesis
    using assms(2,4) meta_map [OF assms(1), of "int (length m)"]
    by (simp add: refmap_EncodeMsgpack_def marshallMapMsgpack_def unmarshalMapMsgpack_def decode_or_nil_def enc short_def)
qed

lemma refmap_encodable_iff:
  "(\<exists>b. refmap_EncodeMsgpack ml e m = Ok b) \<longleftrightarrow> (\<exists>m'. m = Some m' \<and>
     (\<forall>(k, v) \<in> set m'. k \<noteq> MK_other \<and> (\<exists>p. v = Pointer p \<and> (\<forall>x. p = Some x \<longrightarrow> (\<exists>b. e x = Ok b)))))"
proof (cases m)
  case (Some m')
  have "MV_coded x = stored_value v \<longleftrightarrow> v = Pointer x" "stored_value v = MV_coded x \<longleftrightarrow> v = Pointer x"
    "MV_other = stored_value v \<longleftrightarrow> (\<forall>p. v \<noteq> Pointer p)" "stored_value v = MV_other \<longleftrightarrow> (\<forall>p. v \<noteq> Pointer p)"
    for v :: "'a stored" and x
    by (cases v; auto simp: stored_value_def)+
  then show ?thesis
    unfolding refmap_EncodeMsgpack_def Some option.map marshal_ok_iff marshal_value_ok_iff encode_pointer_ok_iff
    by (fastforce split: prod.split)
qed (simp add: refmap_EncodeMsgpack_def marshallMapMsgpack_def)


section \<open>The whole\<close>

lemma int_map_decoded:
  assumes "meta_laws ml" "int_map_ok m"
  shows "\<exists>b. encode_int_map ml (Some m) = Ok b \<and> (\<forall>r. decodeIntMap ml (b @ r) = Ok (map (apsnd wire_value) m, r))"
proof -
  obtain b where "encode_int_items ml m = Ok b"
    "\<And>r. dec_times (\<lambda>bs. obind (mp_DecodeInt (ml_mp ml) bs) (\<lambda>(key, bs).
         obind (ml_DecodeInterface ml bs) (\<lambda>(val, bs). Ok ((key, val), bs)))) (length m) (b @ r) =
       Ok (map (apsnd wire_value) m, r)"
    using int_items_read [OF assms(1), of m] assms(2) by (auto simp: int_map_ok_def)
  moreover have "fold (\<lambda>(k, v) m. Map_Put m k v) (map (apsnd wire_value) m) NewMap = map (apsnd wire_value) m"
    using assms(2) by (intro put_items_fresh) (simp add: int_map_ok_def comp_def)
  ultimately show ?thesis
    using assms meta_map [OF assms(1), of "int (length m)"]
    by (simp add: encode_int_map_def decodeIntMap_def int_map_ok_def short_def)
qed

lemma int_map_encoded:
  "meta_laws ml \<Longrightarrow> \<forall>(k, v) \<in> set m. wire_ok v \<Longrightarrow> \<exists>b. encode_int_map ml (Some m) = Ok b"
proof -
  assume "meta_laws ml" "\<forall>(k, v) \<in> set m. wire_ok v"
  then have "\<exists>b. encode_int_items ml m = Ok b"
    by (induction m) (auto simp: obind_eq_Ok dest!: wire_value_read)
  then show ?thesis by (auto simp: encode_int_map_def)
qed

definition dir_entry_ok :: "map_key \<times> DirectoryReference stored \<Rightarrow> bool" where
  "dir_entry_ok kv \<longleftrightarrow> (\<exists>s dr. kv = (MK_string s, Pointer (Some dr)) \<and> short s \<and> dir_ref_ok dr)"

definition file_entry_ok :: "map_key \<times> FileReference stored \<Rightarrow> bool" where
  "file_entry_ok kv \<longleftrightarrow> (\<exists>s fr. kv = (MK_string s, Pointer (Some fr)) \<and> short s \<and> file_ref_ok fr)"

definition directory_ok :: "DirectoryMetadata \<Rightarrow> bool" where
  "directory_ok dm \<longleftrightarrow> dd_Data (dm_Details dm) \<in> {None, Some NewMap} \<and>
     (\<exists>m. dm_Directories dm = Some m \<and> short m \<and> distinct (map fst m) \<and> (\<forall>kv \<in> set m. dir_entry_ok kv)) \<and>
     (\<exists>m. dm_Files dm = Some m \<and> short m \<and> distinct (map fst m) \<and> (\<forall>kv \<in> set m. file_entry_ok kv)) \<and>
     (\<exists>m. dm_ExtraMetadata dm = Some m \<and> int_map_ok m)"

text \<open>The time of a directory as the decoder needs it.\<close>

definition timed :: "DirectoryReference \<Rightarrow> bool" where
  "timed dr \<longleftrightarrow> 2 ^ 32 \<le> sint (dr_Created dr)"

definition directory_read :: "DirectoryMetadata \<Rightarrow> DirectoryMetadata" where
  "directory_read dm = dm\<lparr>dm_Type := ''directory'', dm_Details := \<lparr>dd_Data = None\<rparr>,
     dm_Directories := map_option (map (apsnd (map_stored dir_ref_read))) (dm_Directories dm),
     dm_Files := map_option (map (apsnd (map_stored file_ref_read))) (dm_Files dm),
     dm_ExtraMetadata := map_option (map (apsnd wire_value)) (dm_ExtraMetadata dm)\<rparr>"

text \<open>The header and the length, which every decoding starts with.\<close>

definition directory_head :: "meta_lib \<Rightarrow> bytes" where
  "directory_head ml = InitMarshaller ml MetadataTypeDirectory @ ml_EncodeArrayLen ml 4"

lemma directory_head_read:
  assumes "meta_laws ml"
  shows "InitUnmarshaller ml [MetadataTypeDirectory] (directory_head ml @ x) = Ok (MetadataTypeDirectory, ml_EncodeArrayLen ml 4 @ x)"
    and "ml_DecodeArrayLen ml (ml_EncodeArrayLen ml 4 @ x) = Ok (4, x)"
  using InitUnmarshaller_header [OF assms, of MetadataTypeDirectory "[MetadataTypeDirectory]"] meta_array(1) [OF assms, of 4]
  by (simp_all add: directory_head_def go_consts)

lemma directory_dirs_decoded:
  assumes "meta_laws ml" "short m" "distinct (map fst m)" "\<forall>kv \<in> set m. dir_entry_ok kv"
  shows "\<exists>b. refmap_EncodeMsgpack ml (DirectoryReference_EncodeMsgpack ml) (Some m) = Ok b \<and>
    (\<forall>r. decode_or_nil ml (directoryReferenceMap_DecodeMsgpack ml) (b @ r) =
      (if \<forall>kv \<in> set m. entry_good timed kv then Ok (Some (map (apsnd (map_stored dir_ref_read)) m), r) else Panic))"
proof -
  have "\<forall>kv \<in> set m. ref_entry_ok ml (DirectoryReference_EncodeMsgpack ml)
      (DirectoryReference_DecodeMsgpack ml empty_dir_ref) dir_ref_read timed kv"
    unfolding ref_entry_ok_def timed_def using assms(4) dir_ref_decoded [OF assms(1)] unfolding dir_entry_ok_def by metis
  from refmap_decoded [OF assms(1-3) this] show ?thesis by (simp add: directoryReferenceMap_DecodeMsgpack_def)
qed

lemma directory_files_decoded:
  assumes "meta_laws ml" "short m" "distinct (map fst m)" "\<forall>kv \<in> set m. file_entry_ok kv"
  shows "\<exists>b. refmap_EncodeMsgpack ml (FileReference_EncodeMsgpack ml) (Some m) = Ok b \<and>
    (\<forall>r. decode_or_nil ml (fileReferenceMap_DecodeMsgpack ml) (b @ r) =
      Ok (Some (map (apsnd (map_stored file_ref_read)) m), r))"
proof -
  have "\<forall>kv \<in> set m. ref_entry_ok ml (FileReference_EncodeMsgpack ml)
      (FileReference_DecodeMsgpack ml empty_file_ref) file_ref_read (\<lambda>_. True) kv"
    using assms(4) file_ref_decoded [OF assms(1)] by (auto simp: file_entry_ok_def ref_entry_ok_def dest!: bspec)
  from refmap_decoded [OF assms(1-3) this] show ?thesis by (simp add: fileReferenceMap_DecodeMsgpack_def entry_good_def)
qed

lemma directory_encoded:
  assumes "meta_laws ml" "directory_ok dm"
  shows "\<exists>b. Directory_EncodeMsgpack ml dm = Ok b"
proof -
  obtain ds fs ex where m: "dm_Directories dm = Some ds" "dm_Files dm = Some fs" "dm_ExtraMetadata dm = Some ex"
    and ok: "short ds" "distinct (map fst ds)" "\<forall>kv \<in> set ds. dir_entry_ok kv"
      "short fs" "distinct (map fst fs)" "\<forall>kv \<in> set fs. file_entry_ok kv" "int_map_ok ex"
    using assms(2) by (auto simp: directory_ok_def)
  have "\<exists>d. Details_EncodeMsgpack ml (dm_Details dm) = Ok d"
    using assms(2) by (auto simp: directory_ok_def Details_EncodeMsgpack_def encode_int_map_def NewMap_def)
  then show ?thesis
    using directory_dirs_decoded [OF assms(1) ok(1-3)] directory_files_decoded [OF assms(1) ok(4-6)]
      int_map_decoded [OF assms(1) ok(7)]
    by (auto simp: Directory_EncodeMsgpack_def m obind_eq_Ok)
qed

section \<open>References from JSON\<close>

lemma json_fold_plain:
  assumes "fold (\<lambda>(key, val) acc. obind acc (\<lambda>m. obind (instance_of val) (\<lambda>v.
      Ok (Map_Put m (MK_string key) (Plain v))))) kvs (Ok m0) = Ok m" "\<forall>x \<in> set m0. \<exists>p. snd x = Plain p"
  shows "\<forall>x \<in> set m. \<exists>p. snd x = Plain p"
  using assms
proof (induction kvs arbitrary: m0)
  case (Cons kv kvs)
  obtain k j where kv: "kv = (k, j)" by (cases kv)
  have stop: "fold (\<lambda>(key, val) acc. obind acc (\<lambda>m. obind (instance_of val) (\<lambda>v.
      Ok (Map_Put m (MK_string key) (Plain v))))) kvs a \<noteq> Ok m" if "\<forall>m0. a \<noteq> Ok m0" for a
    using that by (induction kvs arbitrary: a) (auto simp: obind_eq_Ok)
  have "\<exists>v. instance_of j = Ok v"
    using Cons.prems(1) stop by (cases "instance_of j") (auto simp: kv)
  then obtain v where v: "instance_of j = Ok v" ..
  have "\<forall>x \<in> set (Map_Put m0 (MK_string k) (Plain v)). \<exists>p. snd x = Plain p"
    using Cons.prems(2) by (induction m0) (auto simp: Map_Put_def)
  then show ?case using Cons.IH [of "Map_Put m0 (MK_string k) (Plain v)"] Cons.prems(1) v by (simp add: kv)
qed simp

section \<open>Properties\<close>

definition sample_dir :: "u64 \<Rightarrow> DirectoryMetadata" where
  "sample_dir t = NewDirectoryMetadata \<lparr>dd_Data = None\<rparr>
     (Some [(MK_string ''d'', Pointer (Some (empty_dir_ref\<lparr>dr_Created := t, dr_Name := ''d'', dr_PublicKey := Some [1],
       dr_EncryptedWriteKey := Some [2]\<rparr>)))])
     (Some [(MK_string ''f'', Pointer (Some (NewFileReference ''f'' 5 1 (Some (NewFileVersion 6 None (Some sample_cid) None [] None))
       (Some NewMap) (Some NewMap) ''text'')))])
     (Some [(1, VInt K_int 7)])"

lemma sample_dir_ok: "directory_ok (sample_dir t)"
  using sample_cid_ok
  by (simp add: directory_ok_def sample_dir_def NewDirectoryMetadata_def dir_entry_ok_def file_entry_ok_def dir_ref_ok_def
      file_ref_ok_def version_ok_def short_def empty_dir_ref_def NewFileReference_def NewFileVersion_def int_map_ok_def
      int64_range_def)



text \<open>
  C38: which directories can be encoded. With made maps and encodable details, a directory is
  encoded exactly if its references are pointers, its subdirectories have no encryption key and no
  extension, and its files have no extension, no history and only a plaintext identifier.
\<close>
theorem directory_encodable_iff:
  assumes "meta_laws ml" "\<forall>m. dd_Data (dm_Details dm) = Some m \<longrightarrow> (\<forall>(k, v) \<in> set m. wire_ok v)"
    and "\<forall>m. dm_ExtraMetadata dm = Some m \<longrightarrow> (\<forall>(k, v) \<in> set m. wire_ok v)"
  shows "(\<exists>b. Directory_EncodeMsgpack ml dm = Ok b) \<longleftrightarrow>
    (\<exists>ds. dm_Directories dm = Some ds \<and> (\<forall>(k, v) \<in> set ds. k \<noteq> MK_other \<and> (\<exists>p. v = Pointer p \<and>
       (\<forall>dr. p = Some dr \<longrightarrow> dr_EncryptionKey dr = None \<and> dr_Ext dr = None)))) \<and>
    (\<exists>fs. dm_Files dm = Some fs \<and> (\<forall>(k, v) \<in> set fs. k \<noteq> MK_other \<and> (\<exists>p. v = Pointer p \<and>
       (\<forall>fr. p = Some fr \<longrightarrow> fr_Ext fr = Some NewMap \<and> fr_History fr = Some NewMap \<and>
         (\<forall>fv. fr_File fr = Some fv \<longrightarrow> fv_EncryptedCID fv = None \<and> fv_Hashes fv = [] \<and> fv_Thumbnail fv = None)))))"
proof -
  have "\<exists>b. Details_EncodeMsgpack ml (dm_Details dm) = Ok b"
    unfolding Details_EncodeMsgpack_def using assms(2)
    by (intro int_map_encoded [OF assms(1)]) (auto simp: NewMap_def split: option.splits)
  moreover have "\<exists>b. encode_int_map ml (dm_ExtraMetadata dm) = Ok b"
    using assms(3) int_map_encoded [OF assms(1)] by (cases "dm_ExtraMetadata dm") (auto simp: encode_int_map_def)
  ultimately have "(\<exists>b. Directory_EncodeMsgpack ml dm = Ok b) \<longleftrightarrow>
      (\<exists>b. refmap_EncodeMsgpack ml (DirectoryReference_EncodeMsgpack ml) (dm_Directories dm) = Ok b) \<and>
      (\<exists>b. refmap_EncodeMsgpack ml (FileReference_EncodeMsgpack ml) (dm_Files dm) = Ok b)"
    by (auto simp: Directory_EncodeMsgpack_def obind_eq_Ok)
  then show ?thesis
    unfolding refmap_encodable_iff DirectoryReference_encodable_iff FileReference_encodable_iff .
qed

theorem directory_encodable_iff_witness:
  "(\<exists>b. Directory_EncodeMsgpack wide_meta (sample_dir 5) = Ok b) \<and>
   \<not> (\<exists>b. Directory_EncodeMsgpack wide_meta ((sample_dir 5)\<lparr>dm_Directories :=
       Some [(MK_string ''d'', Pointer (Some (NewDirectoryReference 5 ''d'' None None None None)))]\<rparr>) = Ok b)"
proof
  show "\<exists>b. Directory_EncodeMsgpack wide_meta (sample_dir 5) = Ok b"
    by (subst directory_encodable_iff [OF wide_meta_laws])
      (simp_all add: sample_dir_def NewDirectoryMetadata_def empty_dir_ref_def NewFileReference_def NewFileVersion_def int64_range_def)
  show "\<not> (\<exists>b. Directory_EncodeMsgpack wide_meta ((sample_dir 5)\<lparr>dm_Directories :=
       Some [(MK_string ''d'', Pointer (Some (NewDirectoryReference 5 ''d'' None None None None)))]\<rparr>) = Ok b)"
    by (subst directory_encodable_iff [OF wide_meta_laws])
      (simp_all add: sample_dir_def NewDirectoryMetadata_def NewDirectoryReference_def int64_range_def)
qed

text \<open>
  A directory with details crashes the reader. The decoder writes into the map of an empty
  value, which is nil: if there are details, decoding what the encoder wrote panics.
\<close>
lemma directory_details_panic:
  assumes "meta_laws ml" "dd_Data (dm_Details dm) = Some (kv # m)" "int_map_ok (kv # m)"
    and "- (2 ^ 7) \<le> fst kv" "fst kv < 2 ^ 7" "Directory_EncodeMsgpack ml dm = Ok b"
  shows "Directory_DecodeMsgpack ml NewEmptyDirectoryMetadata (b @ r) = Panic"
proof -
  obtain d x where b: "Details_EncodeMsgpack ml (dm_Details dm) = Ok d" "b = directory_head ml @ d @ x"
    using assms(6) by (auto simp: Directory_EncodeMsgpack_def obind_eq_Ok directory_head_def)
  have ok: "wire_ok (snd kv)" "length (kv # m) < 2 ^ 32" using assms(3) by (auto simp: int_map_ok_def short_def)
  obtain v where v: "ml_Encode ml (snd kv) = Ok v" "\<And>r. ml_DecodeInterface ml (v @ r) = Ok (wire_value (snd kv), r)"
    using wire_value_read [OF assms(1) ok(1)] by blast
  obtain y where d: "d = ml_EncodeMapLen ml (int (length (kv # m))) @ mp_EncodeInt (ml_mp ml) (fst kv) @ v @ y"
    using b(1) v(1) assms(2) by (auto simp: Details_EncodeMsgpack_def encode_int_map_def obind_eq_Ok)
  have "nat (1 + int (length m)) = Suc (length m)" by simp
  then have "decode_or_nil ml (Details_DecodeMsgpack ml \<lparr>dd_Data = None\<rparr>) (d @ r) = Panic" for r
    using meta_map [OF assms(1), of "int (length (kv # m))"] ok(2) meta_int8 [OF assms(1) assms(4,5)]
    by (simp add: decode_or_nil_def Details_DecodeMsgpack_def d details_field_def v(2))
  then show ?thesis
    using directory_head_read [OF assms(1)]
    by (simp add: Directory_DecodeMsgpack_def b(2) NewEmptyDirectoryMetadata_def)
qed

text \<open>
  References read from JSON are unusable. They are stored as structs where the accessor and
  the encoder expect pointers: looking up a key that is there panics, and a map with any entry
  is not encoded.
\<close>
lemma json_references_unusable:
  assumes "unmarshalMapJson FromJSON instance_of bs = Ok m"
  shows "(refmap_Has m key \<longrightarrow> refmap_Get m key = Panic) \<and> (m = [] \<or> (\<nexists>b. refmap_EncodeMsgpack ml e (Some m) = Ok b))"
proof -
  have all: "\<forall>x \<in> set m. \<exists>p. snd x = Plain p"
    using assms by (auto simp: unmarshalMapJson_def obind_eq_Ok NewMap_def dest!: json_fold_plain)
  from all have "refmap_Has m key \<longrightarrow> refmap_Get m key = Panic"
    by (fastforce simp: refmap_Has_def refmap_Get_def Map_Get_def stored_pointer_def dest: map_of_SomeD)
  moreover have "m = [] \<or> (\<nexists>b. refmap_EncodeMsgpack ml e (Some m) = Ok b)"
    using all by (cases m) (auto simp: refmap_encodable_iff)
  ultimately show ?thesis by blast
qed

end
