(* ===== verification/Media.thy ===== *)
theory Media
  imports Directory
begin

text \<open>
  The media format: \<open>metadata/media_metadata.go\<close>, \<open>media_metadata_details.go\<close>,
  \<open>media_meta_links.go\<close>, \<open>media_format.go\<close> and \<open>parent_link.go\<close>. It is only read; its encoders
  return an error. Lemmas: which keys a proof section proves, what the decoder keeps of what it
  reads, and what becomes of numbers.
\<close>

section \<open>media_format.go\<close>

record MediaFormat =
  mf_Subtype :: string
  mf_Role :: string
  mf_Ext :: string
  mf_Cid :: "CID option"
  mf_Height :: int
  mf_Width :: int
  mf_Languages :: "string list"
  mf_Asr :: int
  mf_Fps :: int
  mf_Bitrate :: int
  mf_AudioChannels :: int
  mf_Vcodec :: string
  mf_Acodec :: string
  mf_Container :: string
  mf_DynamicRange :: string
  mf_Charset :: string
  mf_Value :: bytes
  mf_Duration :: int
  mf_Rows :: int
  mf_Columns :: int
  mf_Index :: int
  mf_InitRange :: string
  mf_IndexRange :: string
  mf_Caption :: string

definition NewMediaFormat where
  "NewMediaFormat subtype role ext vcodec acodec container dynamicRange charset initRange indexRange caption cid
     height width asr fps bitrate audioChannels duration rows columns index languages val =
     \<lparr>mf_Subtype = subtype, mf_Role = role, mf_Ext = ext, mf_Cid = cid, mf_Height = height, mf_Width = width,
      mf_Languages = languages, mf_Asr = asr, mf_Fps = fps, mf_Bitrate = bitrate, mf_AudioChannels = audioChannels,
      mf_Vcodec = vcodec, mf_Acodec = acodec, mf_Container = container, mf_DynamicRange = dynamicRange,
      mf_Charset = charset, mf_Value = val, mf_Duration = duration, mf_Rows = rows, mf_Columns = columns,
      mf_Index = index, mf_InitRange = initRange, mf_IndexRange = indexRange, mf_Caption = caption\<rparr>"

definition empty_format :: MediaFormat where
  "empty_format = NewMediaFormat [] [] [] [] [] [] [] [] [] [] [] None 0 0 0 0 0 0 0 0 0 0 [] []"

text \<open>The type switch has no case for \<open>uint8\<close>, \<open>int32\<close>, \<open>int64\<close> and \<open>uint64\<close>.\<close>

definition intParse :: "goval \<Rightarrow> int" where
  "intParse val =
     (case val of
        VInt k n \<Rightarrow> (if k = K_int then n else if k = K_uint then int64_wrap n else if k = K_uint16 then n
          else if k = K_uint32 then n else if k = K_int16 then n else if k = K_int8 then n else 0)
      | _ \<Rightarrow> 0)"

text \<open>Type assertions.\<close>

definition as_string :: "goval \<Rightarrow> string outcome" where
  "as_string v = (case v of VStr s \<Rightarrow> Ok s | _ \<Rightarrow> Panic)"

definition as_bytes :: "goval \<Rightarrow> bytes outcome" where
  "as_bytes v = (case v of VBytes b \<Rightarrow> Ok b | _ \<Rightarrow> Panic)"

definition as_slice :: "goval \<Rightarrow> goval list outcome" where
  "as_slice v = (case v of VSlice vs \<Rightarrow> Ok vs | _ \<Rightarrow> Panic)"

definition as_int8 :: "goval \<Rightarrow> int outcome" where
  "as_int8 v = (case v of VInt K_int8 n \<Rightarrow> Ok n | _ \<Rightarrow> Panic)"

definition as_int :: "goval \<Rightarrow> int outcome" where
  "as_int v = (case v of VInt K_int n \<Rightarrow> Ok n | _ \<Rightarrow> Panic)"

primrec omap :: "('a \<Rightarrow> 'b outcome) \<Rightarrow> 'a list \<Rightarrow> 'b list outcome" where
  "omap f [] = Ok []"
| "omap f (x # xs) = obind (f x) (\<lambda>y. obind (omap f xs) (\<lambda>ys. Ok (y # ys)))"

definition cid_of_value :: "meta_lib \<Rightarrow> goval \<Rightarrow> CID outcome" where
  "cid_of_value ml v = obind (as_bytes v) (\<lambda>b. CIDFromBytes (ml_spare ml b) b)"

definition format_field :: "meta_lib \<Rightarrow> int \<Rightarrow> goval \<Rightarrow> MediaFormat \<Rightarrow> MediaFormat outcome" where
  "format_field ml key val mmd =
     (if key = 1 then obind (cid_of_value ml val) (\<lambda>c. Ok (mmd\<lparr>mf_Cid := Some c\<rparr>))
      else if key = 2 then obind (as_string val) (\<lambda>s. Ok (mmd\<lparr>mf_Subtype := s\<rparr>))
      else if key = 3 then obind (as_string val) (\<lambda>s. Ok (mmd\<lparr>mf_Role := s\<rparr>))
      else if key = 4 then obind (as_string val) (\<lambda>s. Ok (mmd\<lparr>mf_Ext := s\<rparr>))
      else if key = 10 then Ok (mmd\<lparr>mf_Height := intParse val\<rparr>)
      else if key = 11 then Ok (mmd\<lparr>mf_Width := intParse val\<rparr>)
      else if key = 12 then obind (as_slice val) (\<lambda>vals. obind (omap as_string vals) (\<lambda>ss.
        Ok (mmd\<lparr>mf_Languages := mf_Languages mmd @ ss\<rparr>)))
      else if key = 13 then Ok (mmd\<lparr>mf_Asr := intParse val\<rparr>)
      else if key = 14 then Ok (mmd\<lparr>mf_Fps := intParse val\<rparr>)
      else if key = 15 then Ok (mmd\<lparr>mf_Bitrate := intParse val\<rparr>)
      else if key = 18 then Ok (mmd\<lparr>mf_AudioChannels := intParse val\<rparr>)
      else if key = 19 then obind (as_string val) (\<lambda>s. Ok (mmd\<lparr>mf_Vcodec := s\<rparr>))
      else if key = 20 then obind (as_string val) (\<lambda>s. Ok (mmd\<lparr>mf_Acodec := s\<rparr>))
      else if key = 21 then obind (as_string val) (\<lambda>s. Ok (mmd\<lparr>mf_Container := s\<rparr>))
      else if key = 22 then obind (as_string val) (\<lambda>s. Ok (mmd\<lparr>mf_DynamicRange := s\<rparr>))
      else if key = 23 then obind (as_string val) (\<lambda>s. Ok (mmd\<lparr>mf_Charset := s\<rparr>))
      else if key = 24 then obind (as_bytes val) (\<lambda>b. Ok (mmd\<lparr>mf_Value := b\<rparr>))
      else if key = 25 then Ok (mmd\<lparr>mf_Duration := intParse val\<rparr>)
      else if key = 26 then Ok (mmd\<lparr>mf_Rows := intParse val\<rparr>)
      else if key = 27 then Ok (mmd\<lparr>mf_Columns := intParse val\<rparr>)
      else if key = 28 then Ok (mmd\<lparr>mf_Index := intParse val\<rparr>)
      else if key = 29 then obind (as_string val) (\<lambda>s. Ok (mmd\<lparr>mf_InitRange := s\<rparr>))
      else if key = 30 then obind (as_string val) (\<lambda>s. Ok (mmd\<lparr>mf_IndexRange := s\<rparr>))
      else if key = 31 then obind (as_string val) (\<lambda>s. Ok (mmd\<lparr>mf_Caption := s\<rparr>))
      else Ok mmd)"

definition MediaFormat_DecodeMsgpack :: "meta_lib \<Rightarrow> MediaFormat \<Rightarrow> bytes \<Rightarrow> (MediaFormat \<times> bytes) outcome" where
  "MediaFormat_DecodeMsgpack ml mmd bs =
     obind (decodeIntMap ml bs) (\<lambda>(intMap, bs).
     obind (fold (\<lambda>(key, val) acc. obind acc (format_field ml key val)) intMap (Ok mmd)) (\<lambda>mmd. Ok (mmd, bs)))"

definition errNotImplemented :: go_error where "errNotImplemented = GoError ''Not implemented'' []"

definition MediaFormat_EncodeMsgpack :: "MediaFormat \<Rightarrow> bytes outcome" where
  "MediaFormat_EncodeMsgpack mmd = Err errNotImplemented"

section \<open>media_metadata_details.go and media_meta_links.go\<close>

record MediaMetadataDetails =
  md_Data :: "(int, goval) gomap option"

definition NewMediaMetadataDetails :: "(int, goval) gomap option \<Rightarrow> MediaMetadataDetails" where
  "NewMediaMetadataDetails data = \<lparr>md_Data = data\<rparr>"

definition MediaDetails_EncodeMsgpack :: "MediaMetadataDetails \<Rightarrow> bytes outcome" where
  "MediaDetails_EncodeMsgpack mmd = Err errNotImplemented"

definition MediaDetails_DecodeMsgpack :: "meta_lib \<Rightarrow> bytes \<Rightarrow> (MediaMetadataDetails \<times> bytes) outcome" where
  "MediaDetails_DecodeMsgpack ml bs = obind (decodeIntMap ml bs) (\<lambda>(intMap, bs). Ok (\<lparr>md_Data = Some intMap\<rparr>, bs))"

record MediaMetadataLinks =
  ln_Count :: int
  ln_Head :: "CID list"
  ln_Collapsed :: "CID list"
  ln_Tail :: "CID list"

definition empty_links :: MediaMetadataLinks where
  "empty_links = \<lparr>ln_Count = 0, ln_Head = [], ln_Collapsed = [], ln_Tail = []\<rparr>"

definition NewMediaMetadataLinks :: "CID list \<Rightarrow> MediaMetadataLinks" where
  "NewMediaMetadataLinks head = \<lparr>ln_Count = int (length head), ln_Head = head, ln_Collapsed = [], ln_Tail = []\<rparr>"

definition MediaLinks_EncodeMsgpack :: "MediaMetadataLinks \<Rightarrow> bytes outcome" where
  "MediaLinks_EncodeMsgpack m = Err errNotImplemented"

definition link_list :: "meta_lib \<Rightarrow> goval \<Rightarrow> CID list outcome" where
  "link_list ml val = obind (as_slice val) (omap (cid_of_value ml))"

definition links_field :: "meta_lib \<Rightarrow> int \<Rightarrow> goval \<Rightarrow> MediaMetadataLinks \<Rightarrow> MediaMetadataLinks outcome" where
  "links_field ml key val m =
     (if key = 1 then obind (as_int val) (\<lambda>n. Ok (m\<lparr>ln_Count := n\<rparr>))
      else if key = 2 then obind (link_list ml val) (\<lambda>cs. Ok (m\<lparr>ln_Head := ln_Head m @ cs\<rparr>))
      else if key = 3 then obind (link_list ml val) (\<lambda>cs. Ok (m\<lparr>ln_Collapsed := ln_Collapsed m @ cs\<rparr>))
      else if key = 4 then obind (link_list ml val) (\<lambda>cs. Ok (m\<lparr>ln_Tail := ln_Tail m @ cs\<rparr>))
      else Ok m)"

text \<open>The receiver is a copy: what the decoder fills is thrown away, and the receiver is as before.\<close>

definition MediaLinks_DecodeMsgpack :: "meta_lib \<Rightarrow> MediaMetadataLinks \<Rightarrow> bytes \<Rightarrow> (MediaMetadataLinks \<times> bytes) outcome" where
  "MediaLinks_DecodeMsgpack ml receiver bs =
     obind (decodeIntMap ml bs) (\<lambda>(data, bs).
     obind (fold (\<lambda>(key, val) acc. obind acc (links_field ml key val)) data (Ok receiver)) (\<lambda>copy.
       Ok (receiver, bs)))"

section \<open>parent_link.go\<close>

record MetadataParentLink =
  pl_CID :: "CID option"
  pl_Type :: int
  pl_Role :: string
  pl_Signed :: bool

definition NewMetadataParentLink :: "CID option \<Rightarrow> string \<Rightarrow> bool \<Rightarrow> MetadataParentLink" where
  "NewMetadataParentLink cid role isSigned =
     \<lparr>pl_CID = cid, pl_Type = ParentLinkTypeUserIdentity, pl_Role = role, pl_Signed = isSigned\<rparr>"

definition ParentLink_EncodeMsgpack :: "MetadataParentLink \<Rightarrow> bytes outcome" where
  "ParentLink_EncodeMsgpack m = Err errNotImplemented"

text \<open>The state of the loop: the link, and the hash of the identifier read last (empty at first).\<close>

definition parent_link_field ::
  "meta_lib \<Rightarrow> int \<Rightarrow> MetadataParentLink \<times> Multihash \<Rightarrow> bytes \<Rightarrow> ((MetadataParentLink \<times> Multihash) \<times> bytes) outcome" where
  "parent_link_field ml key st bs =
     obind (ml_DecodeInterface ml bs) (\<lambda>(val, bs). case st of (m, hash) \<Rightarrow>
       if key = 0 then obind (as_int val) (\<lambda>n. Ok ((m\<lparr>pl_Type := n\<rparr>, hash), bs))
       else if key = 1 then obind (cid_of_value ml val) (\<lambda>cid. Ok ((m\<lparr>pl_CID := Some cid\<rparr>, cid_Hash cid), bs))
       else Ok (st, bs))"

text \<open>\<open>proven\<close> are the proven keys of the parent, which the decoder of the media metadata sets.\<close>

definition ParentLink_DecodeMsgpack ::
  "meta_lib \<Rightarrow> Multihash list \<Rightarrow> MetadataParentLink \<Rightarrow> bytes \<Rightarrow> (MetadataParentLink \<times> bytes) outcome" where
  "ParentLink_DecodeMsgpack ml proven m bs =
     obind (ml_DecodeMapLen ml bs) (\<lambda>(mapLen, bs).
     obind (decode_fields ml (parent_link_field ml) (nat mapLen) (m, NewMultihash []) bs) (\<lambda>((m, hash), bs).
       Ok (m\<lparr>pl_Type := (if pl_Type m = 0 then ParentLinkTypeUserIdentity else pl_Type m),
             pl_Signed := (\<exists>key \<in> set proven. Multihash_Equals hash key)\<rparr>, bs)))"


section \<open>media_metadata.go\<close>

type_synonym mediaMap = "(string, MediaFormat list) gomap"

record MediaMetadata =
  mm_Type :: string
  mm_Name :: string
  mm_MediaTypes :: "mediaMap option"
  mm_Parents :: "MetadataParentLink list"
  mm_Details :: MediaMetadataDetails
  mm_Links :: "MediaMetadataLinks option"
  mm_ExtraMetadata :: ExtraMetadata
  mm_provenPubKeys :: "Multihash list"

definition ProvenPubKeys :: "MediaMetadata \<Rightarrow> Multihash list" where
  "ProvenPubKeys m = mm_provenPubKeys m"

definition NewMediaMetadata ::
  "string \<Rightarrow> MediaMetadataDetails \<Rightarrow> MetadataParentLink list \<Rightarrow> mediaMap option \<Rightarrow> MediaMetadataLinks option \<Rightarrow> ExtraMetadata \<Rightarrow> MediaMetadata" where
  "NewMediaMetadata name mediaDetails parents mediaTypes links extraMetadata =
     \<lparr>mm_Type = [], mm_Name = name, mm_MediaTypes = mediaTypes, mm_Parents = parents, mm_Details = mediaDetails,
      mm_Links = links, mm_ExtraMetadata = extraMetadata, mm_provenPubKeys = []\<rparr>"

definition NewEmptyMediaMetadata :: MediaMetadata where
  "NewEmptyMediaMetadata = NewMediaMetadata [] \<lparr>md_Data = None\<rparr> [] None None \<lparr>em_Data = NewMap\<rparr>"

definition MediaMetadata_EncodeMsgpack :: "MediaMetadata \<Rightarrow> bytes outcome" where
  "MediaMetadata_EncodeMsgpack m = Err errNotImplemented"

text \<open>The generic decoder of a slice of formats: nil is an empty slice, a nil format the zero value.\<close>

definition decode_formats :: "meta_lib \<Rightarrow> bytes \<Rightarrow> (MediaFormat list \<times> bytes) outcome" where
  "decode_formats ml bs =
     obind (ml_DecodeArrayLen ml bs) (\<lambda>(n, bs).
     obind (dec_times (decode_or_nil ml (MediaFormat_DecodeMsgpack ml empty_format)) (nat n) bs) (\<lambda>(fs, bs).
       Ok (map (\<lambda>f. case f of None \<Rightarrow> empty_format | Some f \<Rightarrow> f) fs, bs)))"

definition mediaMap_DecodeMsgpack :: "meta_lib \<Rightarrow> bytes \<Rightarrow> (mediaMap \<times> bytes) outcome" where
  "mediaMap_DecodeMsgpack ml bs =
     obind (ml_DecodeMapLen ml bs) (\<lambda>(mapLen, bs).
     obind (dec_times (\<lambda>bs. obind (mp_DecodeString (ml_mp ml) bs) (\<lambda>(typ, bs).
         obind (decode_formats ml bs) (\<lambda>(formats, bs). Ok ((typ, formats), bs)))) (nat mapLen) bs) (\<lambda>(kvs, bs).
       Ok (fold (\<lambda>(typ, formats) m. Map_Put m typ formats) kvs NewMap, bs)))"

text \<open>
  The parents are decoded into a slice of the function that nothing keeps. Making that slice
  panics for a negative length.
\<close>

definition decodeMedia :: "meta_lib \<Rightarrow> MediaMetadata \<Rightarrow> bytes \<Rightarrow> (MediaMetadata \<times> bytes) outcome" where
  "decodeMedia ml m bs =
     obind (ml_DecodeArrayLen ml bs) (\<lambda>(_, bs).
     obind (mp_DecodeString (ml_mp ml) bs) (\<lambda>(name, bs).
     obind (decode_or_nil ml (MediaDetails_DecodeMsgpack ml) bs) (\<lambda>(mediaDetails, bs).
     obind (ml_DecodeArrayLen ml bs) (\<lambda>(arrLen, bs).
       if arrLen < 0 then Panic
       else
     obind (dec_times (decode_or_nil ml (ParentLink_DecodeMsgpack ml (ProvenPubKeys m)
         \<lparr>pl_CID = None, pl_Type = 0, pl_Role = [], pl_Signed = False\<rparr>)) (nat arrLen) bs) (\<lambda>(parents, bs).
     obind (decode_or_nil ml (mediaMap_DecodeMsgpack ml) bs) (\<lambda>(mediaTypes, bs).
     obind (decode_or_nil ml (MediaLinks_DecodeMsgpack ml
         (case mm_Links m of None \<Rightarrow> empty_links | Some l \<Rightarrow> l)) bs) (\<lambda>(links, bs).
     obind (decode_or_nil ml (ExtraMetadata_DecodeMsgpack ml) bs) (\<lambda>(extra, bs).
       Ok (m\<lparr>mm_Name := name,
             mm_Details := (case mediaDetails of None \<Rightarrow> \<lparr>md_Data = None\<rparr> | Some d \<Rightarrow> d),
             mm_MediaTypes := mediaTypes, mm_Links := links,
             mm_ExtraMetadata := (case extra of None \<Rightarrow> \<lparr>em_Data = NewMap\<rparr> | Some em \<Rightarrow> em)\<rparr>, bs)))))))))"

text \<open>
  One proof: its type, the type of the hash, the key and the signature over the hash of the body.
  A value of another type fails its assertion, which panics, and so does an empty key.
\<close>

definition check_proof :: "ed25519_lib \<Rightarrow> bytes \<Rightarrow> goval list \<Rightarrow> Multihash outcome" where
  "check_proof ed b3hash proofData =
     (if length proofData \<noteq> 4 then Err (GoError ''Invalid proof data length'' [])
      else
        obind (as_int8 (proofData ! 0)) (\<lambda>sigType.
        if sigType mod 2 ^ 8 \<noteq> MetadataProofTypeSignature then Err (GoError ''Invalid proof type'' [])
        else
        obind (as_int8 (proofData ! 1)) (\<lambda>hashType.
        if hashType \<noteq> HashTypeBlake3 then Err (GoError ''Invalid hash type'' [])
        else
        obind (as_bytes (proofData ! 2)) (\<lambda>pubkey.
        obind (go_index pubkey 0) (\<lambda>b.
        if uint b \<noteq> HashTypeEd25519 then Err (GoError ''Invalid public key type'' [])
        else if length pubkey \<noteq> 33 then Err (GoError ''Invalid public key length'' [])
        else
        obind (as_bytes (proofData ! 3)) (\<lambda>signature.
        obind (ed25519_Verify ed (tl pubkey) b3hash signature) (\<lambda>valid.
        if \<not> valid then Err (GoError ''Invalid signature'' [])
        else Ok (NewMultihash pubkey))))))))"

definition decode_proof_item :: "meta_lib \<Rightarrow> ed25519_lib \<Rightarrow> bytes \<Rightarrow> bytes \<Rightarrow> (Multihash \<times> bytes) outcome" where
  "decode_proof_item ml ed b3hash bs =
     obind (decode_slice ml bs) (\<lambda>(proofData, bs).
     obind (check_proof ed b3hash proofData) (\<lambda>key. Ok (key, bs)))"

text \<open>
  \<open>io.ReadAll\<close> reads into a slice with room for at least 512 bytes, so that taking the first two
  bytes of a shorter rest reads zeros.
\<close>

definition readall_spare :: "bytes \<Rightarrow> bytes" where
  "readall_spare bs = replicate (512 - length bs) 0"

definition decodeProof ::
  "meta_lib \<Rightarrow> ed25519_lib \<Rightarrow> (bytes \<Rightarrow> bytes) \<Rightarrow> MediaMetadata \<Rightarrow> bytes \<Rightarrow> MediaMetadata outcome" where
  "decodeProof ml ed blake3 m bs =
     obind (go_slice (readall_spare bs) bs 0 2) (\<lambda>prefix.
       let proofSectionLength = unat (DecodeEndian prefix) in
     obind (go_from bs 2) (\<lambda>rest.
     obind (go_from rest proofSectionLength) (\<lambda>bodyBytes.
       if proofSectionLength = 0 then Ok m
       else
     obind (go_slice [] rest 0 proofSectionLength) (\<lambda>proofSection.
       let b3hash = to_byte HashTypeBlake3 # blake3 bodyBytes in
     obind (ml_DecodeArrayLen ml proofSection) (\<lambda>(arrayLen, ps).
     obind (dec_times (decode_proof_item ml ed b3hash) (nat arrayLen) ps) (\<lambda>(provenPubKeys, _).
     obind (ml_DecodeUint8 ml bodyBytes) (\<lambda>(mediaByte, body).
       if mediaByte \<noteq> MetadataTypeMedia then Err (GoError ''Invalid metadata type'' [])
       else obind (decodeMedia ml (m\<lparr>mm_provenPubKeys := provenPubKeys\<rparr>) body) (\<lambda>(m, _). Ok m))))))))"

text \<open>After a proof the reader is read to its end.\<close>

definition MediaMetadata_DecodeMsgpack ::
  "meta_lib \<Rightarrow> ed25519_lib \<Rightarrow> (bytes \<Rightarrow> bytes) \<Rightarrow> MediaMetadata \<Rightarrow> bytes \<Rightarrow> (MediaMetadata \<times> bytes) outcome" where
  "MediaMetadata_DecodeMsgpack ml ed blake3 m bs =
     obind (InitUnmarshaller ml [MetadataTypeProof, MetadataTypeMedia] bs) (\<lambda>(kind, bs).
       if kind = MetadataTypeProof then obind (decodeProof ml ed blake3 m bs) (\<lambda>m. Ok (m, []))
       else if kind = MetadataTypeMedia then decodeMedia ml m bs
       else Err (GoError ''Invalid metadata type'' []))"

section \<open>What is proven\<close>

text \<open>A key is proven over a body if it is an ed25519 key and a signature of it over the body's hash checks.\<close>

definition proven_over :: "ed25519_lib \<Rightarrow> (bytes \<Rightarrow> bytes) \<Rightarrow> bytes \<Rightarrow> Multihash \<Rightarrow> bool" where
  "proven_over ed blake3 body key \<longleftrightarrow> length (fullBytes key) = 33 \<and> uint (fullBytes key ! 0) = HashTypeEd25519 \<and>
     (\<exists>sig. length sig = 64 \<and> ed_verify ed (tl (fullBytes key)) (to_byte HashTypeBlake3 # blake3 body) sig)"

lemma check_proof_proven:
  assumes "check_proof ed (to_byte HashTypeBlake3 # blake3 body) proofData = Ok key"
  shows "proven_over ed blake3 body key"
  using assms
  by (auto simp: check_proof_def proven_over_def obind_eq_Ok ed25519_Verify_def NewMultihash_def go_index_def split: if_splits)

lemma dec_times_all:
  assumes "dec_times d n bs = Ok (xs, r)" "\<And>bs x r. d bs = Ok (x, r) \<Longrightarrow> P x"
  shows "\<forall>x \<in> set xs. P x"
  using assms by (induction n arbitrary: bs xs) (force simp: obind_eq_Ok)+

lemma dec_times_length: "dec_times d n bs = Ok (xs, r) \<Longrightarrow> length xs = n"
  by (induction n arbitrary: bs xs) (auto simp: obind_eq_Ok)

lemma decodeMedia_keeps:
  assumes "decodeMedia ml m bs = Ok (m', r)"
  shows "mm_provenPubKeys m' = mm_provenPubKeys m" "mm_Parents m' = mm_Parents m"
    "mm_Links m' \<in> {None, Some (case mm_Links m of None \<Rightarrow> empty_links | Some l \<Rightarrow> l)}"
proof -
  have links: "links = None \<or> links = Some l" if "decode_or_nil ml (MediaLinks_DecodeMsgpack ml l) x = Ok (links, y)" for l x links y
    using that by (auto simp: decode_or_nil_def MediaLinks_DecodeMsgpack_def obind_eq_Ok split: if_splits)
  then show "mm_provenPubKeys m' = mm_provenPubKeys m" "mm_Parents m' = mm_Parents m"
    "mm_Links m' \<in> {None, Some (case mm_Links m of None \<Rightarrow> empty_links | Some l \<Rightarrow> l)}"
    using assms by (auto simp: decodeMedia_def obind_eq_Ok split: if_splits dest: links)
qed


text \<open>What the decoder of a proof has done when it returns.\<close>

lemma decodeProof_cases:
  assumes "decodeProof ml ed blake3 m rest = Ok m'"
  obtains (empty) "m' = m"
  | (checked) pre body body' keys r where "rest = pre @ body" "ml_DecodeUint8 ml body = Ok (MetadataTypeMedia, body')"
      "\<forall>key \<in> set keys. proven_over ed blake3 body key"
      "decodeMedia ml (m\<lparr>mm_provenPubKeys := keys\<rparr>) body' = Ok (m', r)"
proof -
  obtain prefix r2 body where r2: "go_slice (readall_spare rest) rest 0 2 = Ok prefix" "go_from rest 2 = Ok r2"
      "go_from r2 (unat (DecodeEndian prefix)) = Ok body"
    using assms by (auto simp: decodeProof_def obind_eq_Ok Let_def)
  show thesis
  proof (cases "unat (DecodeEndian prefix) = 0")
    case True
    with assms r2 have "m' = m" by (auto simp: decodeProof_def obind_eq_Ok Let_def)
    then show thesis by (rule empty)
  next
    case False
    with assms r2 obtain sec n ps keys x body' r where
      items: "dec_times (decode_proof_item ml ed (to_byte HashTypeBlake3 # blake3 body)) n ps = Ok (keys, x)" and
      b: "ml_DecodeUint8 ml body = Ok (MetadataTypeMedia, body')"
      "decodeMedia ml (m\<lparr>mm_provenPubKeys := keys\<rparr>) body' = Ok (m', r)"
      by (auto simp: decodeProof_def obind_eq_Ok Let_def split: if_splits)
    have "proven_over ed blake3 body key"
      if "decode_proof_item ml ed (to_byte HashTypeBlake3 # blake3 body) bs = Ok (key, y)" for bs key y
      using that check_proof_proven by (auto simp: decode_proof_item_def obind_eq_Ok)
    from dec_times_all [OF items this] have proven: "\<forall>key \<in> set keys. proven_over ed blake3 body key" .
    have "r2 = drop 2 rest" "body = drop (unat (DecodeEndian prefix)) r2"
      using r2 by (auto simp: go_from_def split: if_splits)
    then have "rest = (take 2 rest @ take (unat (DecodeEndian prefix)) r2) @ body"
      by (metis append_assoc append_take_drop_id)
    from this b(1) proven b(2) show thesis by (rule checked)
  qed
qed

section \<open>A signed body is accepted\<close>

definition proof_item :: "meta_lib \<Rightarrow> bytes \<times> bytes \<Rightarrow> bytes" where
  "proof_item ml ks = ml_EncodeArrayLen ml 4 @ mp_EncodeInt (ml_mp ml) MetadataProofTypeSignature @
     mp_EncodeInt (ml_mp ml) HashTypeBlake3 @ mp_EncodeBytes (ml_mp ml) (fst ks) @ mp_EncodeBytes (ml_mp ml) (snd ks)"

definition proof_section :: "meta_lib \<Rightarrow> (bytes \<times> bytes) list \<Rightarrow> bytes" where
  "proof_section ml kss = ml_EncodeArrayLen ml (int (length kss)) @ concat (map (proof_item ml) kss)"

definition signed_media :: "meta_lib \<Rightarrow> (bytes \<times> bytes) list \<Rightarrow> bytes \<Rightarrow> bytes" where
  "signed_media ml kss body = InitMarshaller ml MetadataTypeProof @
     EncodeEndian (word_of_nat (length (proof_section ml kss))) 2 @ proof_section ml kss @ body"

definition good_proof :: "ed25519_lib \<Rightarrow> (bytes \<Rightarrow> bytes) \<Rightarrow> bytes \<Rightarrow> bytes \<times> bytes \<Rightarrow> bool" where
  "good_proof ed blake3 body ks \<longleftrightarrow> length (fst ks) = 33 \<and> uint (fst ks ! 0) = HashTypeEd25519 \<and> length (snd ks) = 64 \<and>
     ed_verify ed (tl (fst ks)) (to_byte HashTypeBlake3 # blake3 body) (snd ks)"

lemma proof_item_decoded:
  assumes "meta_laws ml" "good_proof ed blake3 body ks"
  shows "decode_proof_item ml ed (to_byte HashTypeBlake3 # blake3 body) (proof_item ml ks @ r) = Ok (NewMultihash (fst ks), r)"
proof -
  have ints: "wire_kind MetadataProofTypeSignature = K_int8" "wire_kind HashTypeBlake3 = K_int8"
    "int64_range MetadataProofTypeSignature" "int64_range HashTypeBlake3"
    by (simp_all add: wire_kind_def go_consts int64_range_def)
  have len: "length (fst ks) < 2 ^ 32" "length (snd ks) < 2 ^ 32" using assms(2) by (simp_all add: good_proof_def)
  have "dec_times (ml_DecodeInterface ml) (Suc (Suc (Suc (Suc 0)))) (mp_EncodeInt (ml_mp ml) MetadataProofTypeSignature @
      mp_EncodeInt (ml_mp ml) HashTypeBlake3 @ mp_EncodeBytes (ml_mp ml) (fst ks) @ mp_EncodeBytes (ml_mp ml) (snd ks) @ r) =
    Ok ([VInt K_int8 MetadataProofTypeSignature, VInt K_int8 HashTypeBlake3, VBytes (fst ks), VBytes (snd ks)], r)"
    using len by (simp add: meta_interface_int [OF assms(1)] meta_interface_bytes [OF assms(1)] ints)
  then have slice: "decode_slice ml (proof_item ml ks @ r) =
      Ok ([VInt K_int8 MetadataProofTypeSignature, VInt K_int8 HashTypeBlake3, VBytes (fst ks), VBytes (snd ks)], r)"
    using meta_array(1) [OF assms(1), of 4] by (simp add: decode_slice_def proof_item_def eval_nat_numeral del: dec_times.simps)
  have "check_proof ed (to_byte HashTypeBlake3 # blake3 body)
      [VInt K_int8 MetadataProofTypeSignature, VInt K_int8 HashTypeBlake3, VBytes (fst ks), VBytes (snd ks)] = Ok (NewMultihash (fst ks))"
    using assms(2) by (cases "fst ks") (simp_all add: check_proof_def as_int8_def as_bytes_def good_proof_def go_index_def ed25519_Verify_def
      MetadataProofTypeSignature_def)
  with slice show ?thesis by (simp add: decode_proof_item_def)
qed

lemma signed_media_accepted:
  assumes "meta_laws ml" "\<forall>ks \<in> set kss. good_proof ed blake3 body ks" "kss \<noteq> []"
    and "0 < length (proof_section ml kss)" "length (proof_section ml kss) < 2 ^ 16" "length kss < 2 ^ 32"
    and "ml_DecodeUint8 ml body = Ok (MetadataTypeMedia, body')"
    and "decodeMedia ml (m\<lparr>mm_provenPubKeys := map (NewMultihash \<circ> fst) kss\<rparr>) body' = Ok (m', r)"
  shows "MediaMetadata_DecodeMsgpack ml ed blake3 m (signed_media ml kss body) = Ok (m', [])"
proof -
  let ?sec = "proof_section ml kss"
  let ?len = "EncodeEndian (word_of_nat (length ?sec)) 2"
  have len: "unat (DecodeEndian ?len) = length ?sec"
    using assms(5) by (simp add: DecodeEndian_EncodeEndian unat_of_nat)
  have "dec_times (decode_proof_item ml ed (to_byte HashTypeBlake3 # blake3 body)) (length kss)
      (concat (map (proof_item ml) kss) @ []) = Ok (map (\<lambda>ks. NewMultihash (fst ks)) kss, [])"
    using assms(2) by (intro dec_times_encoded proof_item_decoded [OF assms(1)]) simp
  moreover have "ml_DecodeArrayLen ml ?sec = Ok (int (length kss), concat (map (proof_item ml) kss))"
    using meta_array(1) [OF assms(1), of "int (length kss)"] assms(6) by (simp add: proof_section_def)
  moreover have "go_slice x (?len @ ?sec @ body) 0 2 = Ok ?len" "go_from (?len @ ?sec @ body) 2 = Ok (?sec @ body)"
    "go_from (?sec @ body) (length ?sec) = Ok body" "go_slice [] (?sec @ body) 0 (length ?sec) = Ok ?sec" for x
    by (simp_all add: go_slice_def go_from_def)
  ultimately have "decodeProof ml ed blake3 m (?len @ ?sec @ body) = Ok m'"
    using assms(4,7,8) by (simp add: decodeProof_def Let_def len comp_def)
  then show ?thesis
    using InitUnmarshaller_header [OF assms(1), of MetadataTypeProof "[MetadataTypeProof, MetadataTypeMedia]"]
    by (simp add: MediaMetadata_DecodeMsgpack_def signed_media_def go_consts)
qed


section \<open>Properties\<close>

text \<open>
  C28: the keys of media metadata are proven. When decoding metadata without proven keys returns,
  every proven key of the result is an ed25519 key with a signature that checks over the hash
  of one part of the message, which goes to its end, and if there is any such key, the rest of
  the result is what that part decodes to: nothing outside of what was signed gets in.
\<close>
theorem media_keys_proven:
  assumes "MediaMetadata_DecodeMsgpack ml ed blake3 m bs = Ok (m', r)" "mm_provenPubKeys m = []"
    and "key \<in> set (mm_provenPubKeys m')"
  shows "\<exists>rest pre body body' r'. InitUnmarshaller ml [MetadataTypeProof, MetadataTypeMedia] bs = Ok (MetadataTypeProof, rest) \<and>
    rest = pre @ body \<and> proven_over ed blake3 body key \<and> ml_DecodeUint8 ml body = Ok (MetadataTypeMedia, body') \<and>
    decodeMedia ml (m\<lparr>mm_provenPubKeys := mm_provenPubKeys m'\<rparr>) body' = Ok (m', r')"
proof -
  obtain kind rest where init: "InitUnmarshaller ml [MetadataTypeProof, MetadataTypeMedia] bs = Ok (kind, rest)"
    using assms(1) by (auto simp: MediaMetadata_DecodeMsgpack_def obind_eq_Ok)
  show ?thesis
  proof (cases "kind = MetadataTypeProof")
    case False
    then have "decodeMedia ml m rest = Ok (m', r)"
      using assms(1) init by (auto simp: MediaMetadata_DecodeMsgpack_def split: if_splits)
    from decodeMedia_keeps(1) [OF this] assms(2,3) show ?thesis by simp
  next
    case True
    then have "decodeProof ml ed blake3 m rest = Ok m'"
      using assms(1) init by (auto simp: MediaMetadata_DecodeMsgpack_def obind_eq_Ok)
    then show ?thesis
    proof (cases rule: decodeProof_cases)
      case empty
      then show ?thesis using assms(2,3) by simp
    next
      case (checked pre body body' keys r')
      have "mm_provenPubKeys m' = keys" using decodeMedia_keeps(1) [OF checked(4)] by simp
      with checked True init assms(3) show ?thesis by blast
    qed
  qed
qed

text \<open>A body without anything, for the witnesses: an empty name, no parents, nil links.\<close>

definition sample_body :: bytes where
  "sample_body = mp_EncodeInt (ml_mp wide_meta) MetadataTypeMedia @ ml_EncodeArrayLen wide_meta 6 @
     mp_EncodeString (ml_mp wide_meta) ''m'' @ ml_EncodeMapLen wide_meta 0 @ ml_EncodeArrayLen wide_meta 0 @
     ml_EncodeMapLen wide_meta 0 @ ml_EncodeNil wide_meta @ ml_EncodeMapLen wide_meta 0"

definition sample_proofs :: "(bytes \<times> bytes) list" where
  "sample_proofs = [(0xed # replicate 32 5, replicate 64 5)]"

definition sample_media :: MediaMetadata where
  "sample_media = NewEmptyMediaMetadata\<lparr>mm_Name := ''m'', mm_Details := \<lparr>md_Data = Some NewMap\<rparr>, mm_MediaTypes := Some NewMap,
     mm_provenPubKeys := [NewMultihash (0xed # replicate 32 5)]\<rparr>"

lemma sample_media_decoded:
  "MediaMetadata_DecodeMsgpack wide_meta plain_ed25519 (\<lambda>_. []) NewEmptyMediaMetadata (signed_media wide_meta sample_proofs sample_body) =
     Ok (sample_media, [])"
proof -
  have c: "MetadataTypeMedia = 2" "MetadataProofTypeSignature = 1" "HashTypeBlake3 = 31" "HashTypeEd25519 = 237" by (simp_all add: go_consts)
  have len: "length (proof_section wide_meta sample_proofs) = 135"
    by (simp add: proof_section_def proof_item_def sample_proofs_def wide_meta_def wide_msgpack_def wide_len_def wide_int_def
      wide_raw_def)
  note W = wide_meta_laws
  have "ml_DecodeUint8 wide_meta sample_body = Ok (MetadataTypeMedia, drop 9 sample_body)"
    using meta_uint8 [OF W, of MetadataTypeMedia]
    by (simp add: sample_body_def c) (simp add: wide_meta_def wide_msgpack_def wide_int_def)
  moreover have "decodeMedia wide_meta (NewEmptyMediaMetadata\<lparr>mm_provenPubKeys := map (NewMultihash \<circ> fst) sample_proofs\<rparr>)
      (drop 9 sample_body) = Ok (sample_media, [])"
  proof -
    have d: "drop 9 sample_body = ml_EncodeArrayLen wide_meta 6 @ mp_EncodeString (ml_mp wide_meta) ''m'' @
        ml_EncodeMapLen wide_meta 0 @ ml_EncodeArrayLen wide_meta 0 @ ml_EncodeMapLen wide_meta 0 @ ml_EncodeNil wide_meta @
        ml_EncodeMapLen wide_meta 0 @ []"
      by (simp add: sample_body_def wide_meta_def wide_msgpack_def wide_int_def)
    have nil: "\<not> ml_IsNil wide_meta (ml_EncodeMapLen wide_meta 0 @ x)" "ml_DecodeMapLen wide_meta (ml_EncodeMapLen wide_meta 0 @ x) = Ok (0, x)"
      "ml_DecodeArrayLen wide_meta (ml_EncodeArrayLen wide_meta 0 @ x) = Ok (0, x)"
      "ml_DecodeArrayLen wide_meta (ml_EncodeArrayLen wide_meta 6 @ x) = Ok (6, x)" for x
      using meta_map [OF W, of 0] meta_array(1) [OF W, of 0] meta_array(1) [OF W, of 6] by simp_all
    show ?thesis
      unfolding d decodeMedia_def decode_or_nil_def MediaDetails_DecodeMsgpack_def decodeIntMap_def mediaMap_DecodeMsgpack_def
        ExtraMetadata_DecodeMsgpack_def
      by (simp del: append_Nil2 add: nil meta_nil [OF W] msgpack_string [OF meta_msgpack [OF W]])
        (simp add: sample_media_def NewEmptyMediaMetadata_def NewMediaMetadata_def sample_proofs_def NewMap_def)
  qed
  ultimately show ?thesis
    by (intro signed_media_accepted [OF W]) (simp_all add: len, simp_all add: sample_proofs_def good_proof_def c plain_ed25519_def replicate_add [symmetric])
qed

theorem media_keys_proven_witness:
  "\<exists>rest pre body body' r'. InitUnmarshaller wide_meta [MetadataTypeProof, MetadataTypeMedia] (signed_media wide_meta sample_proofs sample_body)
      = Ok (MetadataTypeProof, rest) \<and> rest = pre @ body \<and>
    proven_over plain_ed25519 (\<lambda>_. []) body (NewMultihash (0xed # replicate 32 5)) \<and>
    ml_DecodeUint8 wide_meta body = Ok (MetadataTypeMedia, body') \<and>
    decodeMedia wide_meta (NewEmptyMediaMetadata\<lparr>mm_provenPubKeys := mm_provenPubKeys sample_media\<rparr>) body' = Ok (sample_media, r')"
  by (rule media_keys_proven [OF sample_media_decoded])
    (simp_all add: NewEmptyMediaMetadata_def NewMediaMetadata_def sample_media_def)

text \<open>
  What reading media metadata loses. However the message is formed, decoding leaves the
  parents as they were, and the links are nil or what they were before (empty, if they were
  nil): the parents, with the mark that they signed, and the links of the message are dropped.
\<close>
lemma media_drops_references:
  assumes "MediaMetadata_DecodeMsgpack ml ed blake3 m bs = Ok (m', r)"
  shows "mm_Parents m' = mm_Parents m \<and> (mm_Links m' = mm_Links m \<or>
    mm_Links m' \<in> {None, Some (case mm_Links m of None \<Rightarrow> empty_links | Some l \<Rightarrow> l)})"
proof -
  obtain kind rest where init: "InitUnmarshaller ml [MetadataTypeProof, MetadataTypeMedia] bs = Ok (kind, rest)"
    using assms by (auto simp: MediaMetadata_DecodeMsgpack_def obind_eq_Ok)
  show ?thesis
  proof (cases "kind = MetadataTypeProof")
    case False
    then have "decodeMedia ml m rest = Ok (m', r)"
      using assms init by (auto simp: MediaMetadata_DecodeMsgpack_def split: if_splits)
    from decodeMedia_keeps [OF this] show ?thesis by simp
  next
    case True
    then have "decodeProof ml ed blake3 m rest = Ok m'"
      using assms init by (auto simp: MediaMetadata_DecodeMsgpack_def obind_eq_Ok)
    then show ?thesis
    proof (cases rule: decodeProof_cases)
      case (checked pre body body' keys r')
      from decodeMedia_keeps(2,3) [OF checked(4)] show ?thesis by simp
    qed simp
  qed
qed

text \<open>
  Which numbers of a format are read. A height is written in its shortest form; it is read as
  it was, but as 0 if it needs a form the reader has no case for: from 128 to 255, below
  \<open>- 2 ^ 15\<close>, or from \<open>2 ^ 32\<close> on.
\<close>
lemma format_height_read:
  assumes "meta_laws ml" "int64_range h"
  shows "\<exists>b. encode_int_map ml (Some [(10, VInt K_int h)]) = Ok b \<and> MediaFormat_DecodeMsgpack ml empty_format (b @ r) =
    Ok (empty_format\<lparr>mf_Height := (if 128 \<le> h \<and> h < 256 \<or> h < - (2 ^ 15) \<or> 2 ^ 32 \<le> h then 0 else h)\<rparr>, r)"
proof -
  have "int_map_ok [(10, VInt K_int h)]" using assms(2) by (simp add: int_map_ok_def short_def int64_range_def)
  from int_map_decoded [OF assms(1) this] obtain b where b: "encode_int_map ml (Some [(10, VInt K_int h)]) = Ok b"
    "\<And>r. decodeIntMap ml (b @ r) = Ok ([(10, VInt (wire_kind h) h)], r)" by auto
  have "intParse (VInt (wire_kind h) h) = (if 128 \<le> h \<and> h < 256 \<or> h < - (2 ^ 15) \<or> 2 ^ 32 \<le> h then 0 else h)"
    by (auto simp: intParse_def wire_kind_def)
  with b show ?thesis by (simp add: MediaFormat_DecodeMsgpack_def format_field_def)
qed

end
