(* ===== verification/Storage_Provider.thy ===== *)
theory Storage_Provider
  imports Message_Handlers
begin

text \<open>
  \<open>storage/provider/provider.go\<close>, the iterator over the nodes that have a file, and the
  downloads of \<open>service/default/storage.go\<close>. The goroutine that \<open>Start\<close> leaves behind is a step
  of its own, \<open>poll_once\<close>; a call of \<open>Next\<close> that has to wait gets the times at which this
  goroutine runs meanwhile, and yields nothing if it is still waiting after them. Lemmas: when
  \<open>Next\<close> returns, what it returns, and how many requests a download makes.
\<close>

section \<open>The provider\<close>

text \<open>
  Times and durations are in nanoseconds. The last two fields belong to the goroutine: whether
  it runs, and its variable \<open>requestSent\<close>. The names of the nodes map to addresses of locations.
\<close>

record StorageLocationProviderImpl =
  lp_hash :: Multihash
  lp_types :: "int list"
  lp_timeoutDuration :: int
  lp_availableNodes :: "NodeId list"
  lp_uris :: "(string, StorageLocationImpl) gomap"
  lp_timeout :: int
  lp_isTimedOut :: bool
  lp_isWaitingForUri :: bool
  lp_excludeNodes :: "NodeId list"
  lp_polling :: bool
  lp_requestSent :: bool

definition NewStorageLocationProvider ::
  "Multihash \<Rightarrow> int list option \<Rightarrow> NodeId list \<Rightarrow> StorageLocationProviderImpl" where
  "NewStorageLocationProvider hash locationTypes excludeNodes =
     \<lparr>lp_hash = hash, lp_types = (case locationTypes of None \<Rightarrow> [StorageLocationTypeFull] | Some ts \<Rightarrow> ts),
      lp_timeoutDuration = 60 * 10 ^ 9, lp_availableNodes = [], lp_uris = NewMap, lp_timeout = 0,
      lp_isTimedOut = False, lp_isWaitingForUri = False, lp_excludeNodes = excludeNodes,
      lp_polling = False, lp_requestSent = False\<rparr>"

primrec containsNode :: "NodeId list \<Rightarrow> NodeId \<Rightarrow> bool" where
  "containsNode [] item = False"
| "containsNode (v # vs) item = (if node_bytes v = node_bytes item then True else containsNode vs item)"

type_synonym 's provider_state = "StorageLocationProviderImpl \<times> 's world"

section \<open>Start\<close>

primrec start_nodes :: "multibase_lib \<Rightarrow> NodeId list \<Rightarrow> string list \<Rightarrow> NodeId list outcome" where
  "start_nodes mb excludeNodes [] = Ok []"
| "start_nodes mb excludeNodes (k # ks) =
     (case DecodeNodeId mb k of
        Panic \<Rightarrow> Panic
      | Err err \<Rightarrow> start_nodes mb excludeNodes ks
      | Ok nodeId \<Rightarrow>
          if containsNode excludeNodes nodeId then start_nodes mb excludeNodes ks
          else obind (start_nodes mb excludeNodes ks) (\<lambda>ns. Ok (nodeId # ns)))"

definition Provider_Start :: "'s env \<Rightarrow> int \<Rightarrow> 's provider_state \<Rightarrow> unit outcome \<times> 's provider_state" where
  "Provider_Start env now st =
     (case st of (s, w) \<Rightarrow>
      case GetCachedStorageLocations env (lp_hash s) (lp_types s) True w of
        (Panic, w) \<Rightarrow> (Panic, s, w)
      | (Err err, w) \<Rightarrow> (Err err, s, w)
      | (Ok uris, w) \<Rightarrow>
          let s = s\<lparr>lp_uris := uris\<rparr> in
          (case start_nodes (v_mb env) (lp_excludeNodes s) (Map_Keys uris) of
             Ok nodes \<Rightarrow>
               (case Mediator_SortNodesByScore env nodes w of
                  (Ok (ranked, None), w) \<Rightarrow>
                    (Ok (), s\<lparr>lp_availableNodes := ranked, lp_timeout := now + lp_timeoutDuration s,
                      lp_isTimedOut := False, lp_polling := True, lp_requestSent := False\<rparr>, w)
                | (Ok (ranked, Some err), w) \<Rightarrow> (Err err, s\<lparr>lp_availableNodes := ranked\<rparr>, w)
                | (Err err, w) \<Rightarrow> (Err err, s, w)
                | (Panic, w) \<Rightarrow> (Panic, s, w))
           | _ \<Rightarrow> (Panic, s, w)))"

section \<open>The goroutine\<close>

text \<open>
  One of the locations read from the store. The code compares it with the one it holds as
  pointers, and every read makes new ones, so the body of its \<open>if\<close> is always reached.
\<close>

definition merge_uri ::
  "multibase_lib \<Rightarrow> NodeId list \<Rightarrow> bool \<Rightarrow> string \<times> StorageLocationImpl \<Rightarrow>
   (string, StorageLocationImpl) gomap \<times> NodeId list \<times> bool \<Rightarrow>
   (string, StorageLocationImpl) gomap \<times> NodeId list \<times> bool" where
  "merge_uri mb excludeNodes requestSent kv acc =
     (case kv of (k, v) \<Rightarrow> case acc of (uris, availableNodes, hasNewNode) \<Rightarrow>
        let uris = Map_Put uris k v in
        case DecodeNodeId mb k of
          Ok nodeId \<Rightarrow>
            if containsNode excludeNodes nodeId \<and> requestSent then (uris, availableNodes, hasNewNode)
            else if \<not> containsNode availableNodes nodeId then (uris, availableNodes @ [nodeId], True)
            else (uris, availableNodes, hasNewNode)
        | _ \<Rightarrow> (uris, availableNodes, hasNewNode))"

text \<open>
  One round of its loop. \<open>SendHashRequest\<close> returns no error. The nodes are sorted in place, so an
  error of the sorter does not keep the old order.
\<close>

definition poll_once :: "'s env \<Rightarrow> int \<Rightarrow> 's provider_state \<Rightarrow> unit outcome \<times> 's provider_state" where
  "poll_once env now st =
     (case st of (s, w) \<Rightarrow>
      if \<not> lp_polling s then (Ok (), s, w)
      else if now > lp_timeout s then (Ok (), s\<lparr>lp_isTimedOut := True, lp_polling := False\<rparr>, w)
      else case GetCachedStorageLocations env (lp_hash s) (lp_types s) False w of
        (Panic, w) \<Rightarrow> (Panic, s, w)
      | (Err err, w) \<Rightarrow> (Ok (), s\<lparr>lp_polling := False\<rparr>, w)
      | (Ok newUris, w) \<Rightarrow>
          let request = (length (lp_availableNodes s) = 0 \<and> length newUris < 2 \<and> \<not> lp_requestSent s);
              w = (if request then snd (SendHashRequest env (lp_hash s) (lp_types s) w) else w);
              requestSent = (lp_requestSent s \<or> request);
              (uris, availableNodes, hasNewNode) =
                fold (merge_uri (v_mb env) (lp_excludeNodes s) requestSent) newUris
                  (lp_uris s, lp_availableNodes s, False);
              s = s\<lparr>lp_uris := uris, lp_availableNodes := availableNodes, lp_requestSent := requestSent\<rparr>
          in if hasNewNode then
               (case Mediator_SortNodesByScore env availableNodes w of
                  (Ok (ranked, err), w) \<Rightarrow> (Ok (), s\<lparr>lp_availableNodes := ranked\<rparr>, w)
                | (_, w) \<Rightarrow> (Panic, s, w))
             else (Ok (), s, w))"

section \<open>Next and All\<close>

text \<open>The first available node whose location is known, and the nodes after it.\<close>

primrec next_available ::
  "multibase_lib \<Rightarrow> (string, StorageLocationImpl) gomap \<Rightarrow> NodeId list \<Rightarrow>
   SignedStorageLocationImpl option outcome \<times> NodeId list" where
  "next_available mb uris [] = (Ok None, [])"
| "next_available mb uris (nodeId # ns) =
     (case NodeId_ToString mb nodeId of
        Ok nodIdStr \<Rightarrow>
          (case Map_Get uris nodIdStr of
             None \<Rightarrow> next_available mb uris ns
           | Some uri \<Rightarrow> (Ok (Some (NewSignedStorageLocation nodeId uri)), ns))
      | Err err \<Rightarrow> (Err err, ns)
      | Panic \<Rightarrow> (Panic, ns))"

definition timed_out :: "'s env \<Rightarrow> StorageLocationProviderImpl \<Rightarrow> 'a outcome" where
  "timed_out env s = obind (Multihash_ToString (lp_hash s)) (\<lambda>hashStr.
     Err (GoError (''Could not download raw file: Timed out after 1m0s '' @ hashStr) []))"

fun next_loop ::
  "'s env \<Rightarrow> int list \<Rightarrow> 's provider_state \<Rightarrow>
   (SignedStorageLocationImpl outcome \<times> 's provider_state) option" where
  "next_loop env ticks (s, w) =
     (case next_available (v_mb env) (lp_uris s) (lp_availableNodes s) of
        (Ok (Some l), ns) \<Rightarrow> Some (Ok l, s\<lparr>lp_availableNodes := ns, lp_isWaitingForUri := False\<rparr>, w)
      | (Err err, ns) \<Rightarrow> Some (Err err, s\<lparr>lp_availableNodes := ns, lp_isWaitingForUri := False\<rparr>, w)
      | (Panic, ns) \<Rightarrow> Some (Panic, s\<lparr>lp_availableNodes := ns, lp_isWaitingForUri := False\<rparr>, w)
      | (Ok None, ns) \<Rightarrow>
          let s = s\<lparr>lp_availableNodes := ns, lp_isWaitingForUri := True\<rparr> in
          if lp_isTimedOut s then Some (timed_out env s, s, w)
          else (case ticks of
                  [] \<Rightarrow> None
                | t # ts \<Rightarrow>
                    (case poll_once env t (s, w) of
                       (Ok _, st) \<Rightarrow> next_loop env ts st
                     | (_, st) \<Rightarrow> Some (Panic, st))))"

declare next_loop.simps [simp del]

definition Next ::
  "'s env \<Rightarrow> int \<Rightarrow> int list \<Rightarrow> 's provider_state \<Rightarrow>
   (SignedStorageLocationImpl outcome \<times> 's provider_state) option" where
  "Next env now ticks st =
     (case st of (s, w) \<Rightarrow> next_loop env ticks (s\<lparr>lp_timeout := now + lp_timeoutDuration s\<rparr>, w))"

definition all_available ::
  "multibase_lib \<Rightarrow> (string, StorageLocationImpl) gomap \<Rightarrow> NodeId list \<Rightarrow> SignedStorageLocationImpl list" where
  "all_available mb uris ns =
     List.map_filter (\<lambda>nodeId. case NodeId_ToString mb nodeId of
         Ok nodIdStr \<Rightarrow> map_option (NewSignedStorageLocation nodeId) (Map_Get uris nodIdStr)
       | _ \<Rightarrow> None) ns"

fun all_loop ::
  "'s env \<Rightarrow> int list \<Rightarrow> 's provider_state \<Rightarrow>
   (SignedStorageLocationImpl list outcome \<times> 's provider_state) option" where
  "all_loop env ticks (s, w) =
     (if length (lp_availableNodes s) > 0
      then Some (Ok (all_available (v_mb env) (lp_uris s) (lp_availableNodes s)), s\<lparr>lp_isWaitingForUri := False\<rparr>, w)
      else
        let s = s\<lparr>lp_isWaitingForUri := True\<rparr> in
        if lp_isTimedOut s then Some (timed_out env s, s, w)
        else (case ticks of
                [] \<Rightarrow> None
              | t # ts \<Rightarrow>
                  (case poll_once env t (s, w) of
                     (Ok _, st) \<Rightarrow> all_loop env ts st
                   | (_, st) \<Rightarrow> Some (Panic, st))))"

declare all_loop.simps [simp del]

definition All ::
  "'s env \<Rightarrow> int \<Rightarrow> int list \<Rightarrow> 's provider_state \<Rightarrow>
   (SignedStorageLocationImpl list outcome \<times> 's provider_state) option" where
  "All env now ticks st =
     (case st of (s, w) \<Rightarrow> all_loop env ticks (s\<lparr>lp_timeout := now + lp_timeoutDuration s\<rparr>, w))"

definition Provider_Upvote :: "'s env \<Rightarrow> SignedStorageLocationImpl \<Rightarrow> 's world \<Rightarrow> unit outcome \<times> 's world" where
  "Provider_Upvote env uri w = store_step (UpVote (v_mp env) (v_nodes env) (ssl_nodeID uri)) w"

definition Provider_Downvote :: "'s env \<Rightarrow> SignedStorageLocationImpl \<Rightarrow> 's world \<Rightarrow> unit outcome \<times> 's world" where
  "Provider_Downvote env uri w = store_step (DownVote (v_mp env) (v_nodes env) (ssl_nodeID uri)) w"


section \<open>Downloads\<close>

text \<open>
  The HTTP libraries: whether the text of a request is read, and what comes of a request, given
  the requests so far. A response has a status code and a body, which may fail to be read.
\<close>

record http_response =
  hr_StatusCode :: int
  hr_Body :: "bytes outcome"

record http_client =
  hc_ParseRequest :: "string \<Rightarrow> unit outcome"
  hc_Do :: "string \<Rightarrow> string list \<Rightarrow> http_response outcome"

definition errTooManyRetries :: go_error where
  "errTooManyRetries = GoError ''too many retries'' []"

text \<open>
  One round of the download: the body, or nothing if the next location is to be tried. In the
  last round (\<open>final\<close>) a failed location is voted down, too, and the download ends. The order of
  the checks differs between a request that fails and one that is answered with another status.
\<close>

definition try_location ::
  "'s env \<Rightarrow> http_client \<Rightarrow> bool \<Rightarrow> SignedStorageLocationImpl \<Rightarrow> 's world \<times> string list \<Rightarrow>
   bytes option outcome \<times> 's world \<times> string list" where
  "try_location env hc final dlUri st =
     (case st of (w, requests) \<Rightarrow>
      case BytesURL (ssl_location dlUri) of
        Ok url \<Rightarrow>
          (case hc_ParseRequest hc url of
             Ok _ \<Rightarrow>
               let requests' = requests @ [url] in
               (case hc_Do hc url requests of
                  Panic \<Rightarrow> (Panic, w, requests')
                | Err _ \<Rightarrow>
                    (case Provider_Downvote env dlUri w of
                       (Ok _, w) \<Rightarrow> (if final then Err errTooManyRetries else Ok None, w, requests')
                     | (Err err, w) \<Rightarrow> (Err err, w, requests')
                     | (Panic, w) \<Rightarrow> (Panic, w, requests'))
                | Ok res \<Rightarrow>
                    if hr_StatusCode res \<noteq> 200 then
                      (case Provider_Downvote env dlUri w of
                         (Panic, w) \<Rightarrow> (Panic, w, requests')
                       | (Ok _, w) \<Rightarrow> (if final then Err errTooManyRetries else Ok None, w, requests')
                       | (Err err, w) \<Rightarrow> (if final then Err errTooManyRetries else Err err, w, requests'))
                    else (case hr_Body res of
                            Ok bodyBytes \<Rightarrow> (Ok (Some bodyBytes), w, requests')
                          | Err err \<Rightarrow> (Err err, w, requests')
                          | Panic \<Rightarrow> (Panic, w, requests')))
           | Err err \<Rightarrow> (Err err, w, requests)
           | Panic \<Rightarrow> (Panic, w, requests))
      | Err err \<Rightarrow> (Err err, w, requests)
      | Panic \<Rightarrow> (Panic, w, requests))"

text \<open>
  The loop, with the number of retries that are left; before the round with \<open>n\<close> left, the call of
  \<open>Next\<close> is made at the time, and waits for the rounds of the goroutine, that \<open>sched n\<close> says.
\<close>

primrec download_loop ::
  "'s env \<Rightarrow> http_client \<Rightarrow> (nat \<Rightarrow> int \<times> int list) \<Rightarrow> nat \<Rightarrow> string list \<Rightarrow> 's provider_state \<Rightarrow>
   (bytes outcome \<times> 's provider_state \<times> string list) option" where
  "download_loop env hc sched 0 requests st =
     (case Next env (fst (sched 0)) (snd (sched 0)) st of
        None \<Rightarrow> None
      | Some (Err err, st) \<Rightarrow> Some (Err err, st, requests)
      | Some (Panic, st) \<Rightarrow> Some (Panic, st, requests)
      | Some (Ok dlUri, s, w) \<Rightarrow>
          (case try_location env hc True dlUri (w, requests) of
             (Ok (Some body), w, requests) \<Rightarrow> Some (Ok body, (s, w), requests)
           | (Ok None, w, requests) \<Rightarrow> Some (Err errTooManyRetries, (s, w), requests)
           | (Err err, w, requests) \<Rightarrow> Some (Err err, (s, w), requests)
           | (Panic, w, requests) \<Rightarrow> Some (Panic, (s, w), requests)))"
| "download_loop env hc sched (Suc n) requests st =
     (case Next env (fst (sched (Suc n))) (snd (sched (Suc n))) st of
        None \<Rightarrow> None
      | Some (Err err, st) \<Rightarrow> Some (Err err, st, requests)
      | Some (Panic, st) \<Rightarrow> Some (Panic, st, requests)
      | Some (Ok dlUri, s, w) \<Rightarrow>
          (case try_location env hc False dlUri (w, requests) of
             (Ok (Some body), w, requests) \<Rightarrow> Some (Ok body, (s, w), requests)
           | (Ok None, w, requests) \<Rightarrow> download_loop env hc sched n requests (s, w)
           | (Err err, w, requests) \<Rightarrow> Some (Err err, (s, w), requests)
           | (Panic, w, requests) \<Rightarrow> Some (Panic, (s, w), requests)))"

definition max_retries :: nat where "max_retries = 32"

definition DownloadBytesByHash ::
  "'s env \<Rightarrow> http_client \<Rightarrow> int \<Rightarrow> (nat \<Rightarrow> int \<times> int list) \<Rightarrow> Multihash \<Rightarrow> 's world \<Rightarrow>
   (bytes outcome \<times> 's provider_state \<times> string list) option" where
  "DownloadBytesByHash env hc now sched hash w =
     (let dlUriProvider = NewStorageLocationProvider hash (Some [StorageLocationTypeFull, StorageLocationTypeFile]) [] in
      case Provider_Start env now (dlUriProvider, w) of
        (Ok _, st) \<Rightarrow> download_loop env hc sched max_retries [] st
      | (Err err, st) \<Rightarrow> Some (Err err, st, [])
      | (Panic, st) \<Rightarrow> Some (Panic, st, []))"

definition DownloadBytesByCID ::
  "'s env \<Rightarrow> http_client \<Rightarrow> int \<Rightarrow> (nat \<Rightarrow> int \<times> int list) \<Rightarrow> CID \<Rightarrow> 's world \<Rightarrow>
   (bytes outcome \<times> 's provider_state \<times> string list) option" where
  "DownloadBytesByCID env hc now sched cid w = DownloadBytesByHash env hc now sched (cid_Hash cid) w"


section \<open>The goroutine offers what is stored\<close>

lemma containsNode_iff [simp]: "containsNode ns n \<longleftrightarrow> n \<in> set ns"
  by (induction ns) auto

lemma merge_uris_offer:
  assumes "fold (merge_uri mb ex sent) kvs (uris, ns, new) = (uris', ns', new')"
  shows "set ns \<subseteq> set ns' \<and> (new' = new \<longrightarrow> new \<or> ns' = ns) \<and> (new \<longrightarrow> new') \<and>
    (\<forall>k n. k \<in> fst ` set kvs \<longrightarrow> DecodeNodeId mb k = Ok n \<longrightarrow> n \<in> set ex \<and> sent \<or> n \<in> set ns')"
  using assms
proof (induction kvs arbitrary: uris ns new)
  case (Cons kv kvs)
  obtain k v where kv: "kv = (k, v)" by (cases kv)
  obtain u1 ns1 new1 where step: "merge_uri mb ex sent kv (uris, ns, new) = (u1, ns1, new1)"
    by (cases "merge_uri mb ex sent kv (uris, ns, new)")
  have ih: "set ns1 \<subseteq> set ns' \<and> (new' = new1 \<longrightarrow> new1 \<or> ns' = ns1) \<and> (new1 \<longrightarrow> new') \<and>
      (\<forall>k n. k \<in> fst ` set kvs \<longrightarrow> DecodeNodeId mb k = Ok n \<longrightarrow> n \<in> set ex \<and> sent \<or> n \<in> set ns')"
    using Cons.prems step by (intro Cons.IH [of u1 ns1 new1]) simp
  have "set ns \<subseteq> set ns1 \<and> (new \<longrightarrow> new1) \<and> (new1 \<or> ns1 = ns) \<and>
      (\<forall>n. DecodeNodeId mb k = Ok n \<longrightarrow> n \<in> set ex \<and> sent \<or> n \<in> set ns1)"
    using step by (auto simp: kv merge_uri_def Let_def split: outcome.splits if_splits)
  with ih show ?case by (auto simp: kv)
qed simp

lemma mset_single: "mset xs = {#x#} \<Longrightarrow> xs = [x]"
  by (cases xs) auto

lemma Sort_mset:
  "sorter_laws (v_sorter env) \<Longrightarrow> Mediator_SortNodesByScore env ns w = (Ok (out, err), w') \<Longrightarrow> mset out = mset ns"
  using sorter_permutes [of "v_sorter env"]
  by (fastforce simp: Mediator_SortNodesByScore_def store_step_eq SortNodesByScore_def sbind_eq_Ok
      split: option.splits if_splits)

lemma Sort_permutes:
  "sorter_laws (v_sorter env) \<Longrightarrow> Mediator_SortNodesByScore env ns w = (Ok (out, err), w') \<Longrightarrow> set out = set ns"
  by (rule mset_eq_setD [OF Sort_mset])

text \<open>What a round of the goroutine keeps, and when it is the last one.\<close>

lemma poll_once_frame:
  assumes "poll_once env t (s, w) = (Ok u, s', w')"
  shows "lp_hash s' = lp_hash s \<and> lp_types s' = lp_types s \<and> lp_timeout s' = lp_timeout s \<and>
    (lp_polling s \<longrightarrow> (if lp_timeout s < t then lp_isTimedOut s'
      else lp_isTimedOut s' = lp_isTimedOut s \<and>
        (lp_polling s' \<or> (\<exists>e. fst (GetCachedStorageLocations env (lp_hash s) (lp_types s) False w) = Err e))))"
  using assms
  by (auto simp: poll_once_def Let_def split: if_splits prod.splits outcome.splits)

lemma next_loop_timed_out: "lp_isTimedOut s \<Longrightarrow> next_loop env ticks (s, w) \<noteq> None"
  by (subst next_loop.simps) (simp add: Let_def split: prod.split outcome.split option.split)

lemma next_loop_returns:
  assumes "\<And>w e. fst (GetCachedStorageLocations env (lp_hash s) (lp_types s) False w) \<noteq> Err e"
    and "t \<in> set ticks" "lp_timeout s < t" "lp_polling s \<or> lp_isTimedOut s"
  shows "next_loop env ticks (s, w) \<noteq> None"
  using assms
proof (induction ticks arbitrary: s w)
  case (Cons t0 ts)
  obtain r ns where step: "next_available (v_mb env) (lp_uris s) (lp_availableNodes s) = (r, ns)"
    by (cases "next_available (v_mb env) (lp_uris s) (lp_availableNodes s)")
  let ?s = "s\<lparr>lp_availableNodes := ns, lp_isWaitingForUri := True\<rparr>"
  show ?case
  proof (cases "r = Ok None \<and> \<not> lp_isTimedOut s")
    case False
    then show ?thesis using step by (subst next_loop.simps) (auto simp: Let_def split: outcome.split option.split)
  next
    case True
    obtain q s1 w1 where poll: "poll_once env t0 (?s, w) = (q, s1, w1)" by (cases "poll_once env t0 (?s, w)")
    show ?thesis
    proof (cases q)
      case (Ok u)
      have frame: "lp_hash s1 = lp_hash s" "lp_types s1 = lp_types s" "lp_timeout s1 = lp_timeout s"
        "lp_polling s1 \<or> lp_isTimedOut s1" "lp_timeout s < t0 \<longrightarrow> lp_isTimedOut s1"
        using poll_once_frame [of env t0 ?s w u s1 w1] poll Ok True Cons.prems(1,4) by (auto split: if_splits)
      have "next_loop env ts (s1, w1) \<noteq> None"
      proof (cases "t \<in> set ts")
        case True
        then show ?thesis using Cons.IH [of s1 w1] frame(1-4) Cons.prems(1,3) by simp
      next
        case False
        then have "lp_isTimedOut s1" using frame(5) Cons.prems(2,3) by auto
        then show ?thesis by (rule next_loop_timed_out)
      qed
      then show ?thesis using step True poll Ok by (subst next_loop.simps) simp
    qed (use step True poll in \<open>subst next_loop.simps, simp\<close>)+
  qed
qed simp


lemma next_loop_hangs:
  assumes "\<not> lp_polling s" "\<not> lp_isTimedOut s" "lp_availableNodes s = []"
  shows "next_loop env ticks (s, w) = None"
  using assms
proof (induction ticks arbitrary: s)
  case (Cons t ts)
  then show ?case by (subst next_loop.simps) (simp add: poll_once_def)
qed (subst next_loop.simps, simp)

section \<open>How many requests a download makes\<close>

lemma try_location_requests:
  assumes "try_location env hc final l (w, rs) = (r, w', rs')"
  shows "rs' = rs \<and> (\<forall>b. r \<noteq> Ok b) \<or> (\<exists>url. rs' = rs @ [url] \<and>
    (\<forall>body. r = Ok (Some body) \<longrightarrow> BytesURL (ssl_location l) = Ok url \<and>
      (\<exists>res. hc_Do hc url rs = Ok res \<and> hr_StatusCode res = 200 \<and> hr_Body res = Ok body)))"
  using assms
  by (auto simp: try_location_def Let_def split: outcome.splits prod.splits if_splits)

lemma download_loop_requests:
  assumes "download_loop env hc sched n rs st = Some (r, st', rs')"
  shows "length rs' \<le> length rs + Suc n \<and> (\<forall>body. r = Ok body \<longrightarrow>
    (\<exists>us url res. rs' = us @ [url] \<and> hc_Do hc url us = Ok res \<and> hr_StatusCode res = 200 \<and> hr_Body res = Ok body))"
  using assms
proof (induction n arbitrary: rs st)
  case 0
  then show ?case
    by (auto split: option.splits outcome.splits prod.splits dest!: try_location_requests)
next
  case (Suc n)
  obtain q0 s w where nxt: "Next env (fst (sched (Suc n))) (snd (sched (Suc n))) st = Some (q0, s, w)"
    using Suc.prems by (cases "Next env (fst (sched (Suc n))) (snd (sched (Suc n))) st") auto
  show ?case
  proof (cases q0)
    case (Ok l)
    obtain q w1 rs1 where step: "try_location env hc False l (w, rs) = (q, w1, rs1)"
      by (cases "try_location env hc False l (w, rs)")
    note reqs = try_location_requests [OF step]
    show ?thesis
    proof (cases "q = Ok None")
      case True
      then have "download_loop env hc sched n rs1 (s, w1) = Some (r, st', rs')"
        using Suc.prems nxt Ok step by simp
      from Suc.IH [OF this] show ?thesis using reqs by auto
    next
      case False
      then show ?thesis using Suc.prems nxt Ok step reqs by (auto split: outcome.splits option.splits)
    qed
  qed (use Suc.prems nxt in auto)
qed

section \<open>One location\<close>

text \<open>If one node has the file and answers, it is asked first, whatever the schedule.\<close>

lemma single_location_download:
  assumes "sorter_laws (v_sorter env)" "multibase_laws (v_mb env)" "NodeId_ToString (v_mb env) n = Ok s"
    and start: "Provider_Start env now (NewStorageLocationProvider hash (Some [StorageLocationTypeFull, StorageLocationTypeFile]) [], w) = (Ok u, st)"
    and get: "\<And>locs w'. GetCachedStorageLocations env hash [StorageLocationTypeFull, StorageLocationTypeFile] True w = (Ok locs, w')
      \<Longrightarrow> locs = [(s, l)]"
    and http: "BytesURL l = Ok url" "hc_ParseRequest hc url = Ok ()" "hc_Do hc url [] = Ok \<lparr>hr_StatusCode = 200, hr_Body = Ok body\<rparr>"
  shows "\<exists>st. DownloadBytesByHash env hc now sched hash w = Some (Ok body, st, [url])"
proof -
  let ?p = "NewStorageLocationProvider hash (Some [StorageLocationTypeFull, StorageLocationTypeFile]) []"
  have dec: "DecodeNodeId (v_mb env) s = Ok n" using NodeId_ToString_decode [OF assms(2), of n] assms(3) by auto
  obtain uris w1 where g: "GetCachedStorageLocations env hash [StorageLocationTypeFull, StorageLocationTypeFile] True w = (Ok uris, w1)"
    using start by (auto simp: Provider_Start_def NewStorageLocationProvider_def split: outcome.splits prod.splits)
  have uris: "uris = [(s, l)]" by (rule get [OF g])
  have nodes: "start_nodes (v_mb env) [] (Map_Keys uris) = Ok [n]" by (simp add: uris Map_Keys_def dec)
  obtain ranked w2 where sort: "Mediator_SortNodesByScore env [n] w1 = (Ok (ranked, None), w2)"
    and st: "st = (?p\<lparr>lp_uris := uris, lp_availableNodes := ranked, lp_timeout := now + 60 * 10 ^ 9, lp_isTimedOut := False,
      lp_polling := True, lp_requestSent := False\<rparr>, w2)"
    using start g nodes
    by (auto simp: Provider_Start_def NewStorageLocationProvider_def Let_def split: outcome.splits prod.splits option.splits)
  have ranked: "ranked = [n]" using Sort_mset [OF assms(1) sort] by (simp add: mset_single)
  have nxt: "\<exists>s'. Next env x ticks st = Some (Ok (NewSignedStorageLocation n l), s', w2)" for x ticks
    using assms(3) by (simp add: st ranked uris Next_def next_loop.simps Map_Get_def NewStorageLocationProvider_def)
  have try_ok: "try_location env hc b (NewSignedStorageLocation n l) (w2, []) = (Ok (Some body), w2, [url])" for b
    using http by (simp add: try_location_def NewSignedStorageLocation_def)
  obtain k where mr: "max_retries = Suc k" using that [of 31] by (simp add: max_retries_def)
  obtain s' where "Next env (fst (sched (Suc k))) (snd (sched (Suc k))) st = Some (Ok (NewSignedStorageLocation n l), s', w2)"
    using nxt by blast
  then have "download_loop env hc sched (Suc k) [] st = Some (Ok body, (s', w2), [url])"
    by (simp add: try_ok)
  then show ?thesis using start by (simp add: DownloadBytesByHash_def mr del: download_loop.simps)
qed

section \<open>A sample provider\<close>

text \<open>
  For the witnesses: a node with an empty location cache and no votes that can provide every file itself,
  and an HTTP client that answers every request with the same bytes.
\<close>

definition own_env :: "plain_store env" where
  "own_env = plain_env\<lparr>v_cache := (v_cache plain_env)\<lparr>kv_Get := \<lambda>_ s. (Ok None, s)\<rparr>,
     v_nodes := (v_nodes plain_env)\<lparr>kv_Get := \<lambda>_ s. (Ok None, s)\<rparr>,
     v_providerStore := Some \<lparr>ps_CanProvide = \<lambda>_ _. True,
       ps_Provide = \<lambda>_ _. Ok (NewStorageLocation StorageLocationTypeFull [''http://a''] 0)\<rparr>\<rparr>"

definition own_hash :: Multihash where "own_hash = NewMultihash (replicate 33 1)"

definition own_http :: http_client where
  "own_http = \<lparr>hc_ParseRequest = \<lambda>_. Ok (), hc_Do = \<lambda>_ _. Ok \<lparr>hr_StatusCode = 200, hr_Body = Ok [1, 2]\<rparr>\<rparr>"

lemma own_env_simps:
  "v_mb own_env = plain_multibase" "v_ed own_env = plain_ed25519" "v_KeyPair own_env = \<lparr>kp_Bytes = replicate 64 5\<rparr>"
  "v_sorter own_env = plain_sorter" "kv_Get (v_cache own_env) k s = (Ok None, s)"
  "kv_Get (v_nodes own_env) k s = (Ok None, s)" "v_spare own_env = (\<lambda>_. [])"
  "v_providerStore own_env = Some \<lparr>ps_CanProvide = \<lambda>_ _. True,
     ps_Provide = \<lambda>_ _. Ok (NewStorageLocation StorageLocationTypeFull [''http://a''] 0)\<rparr>"
  "w_localNodeID plain_node = Some (0, NewNodeId (0xed # replicate 32 5))"
  by (simp_all add: own_env_def plain_env_def plain_node_def)

lemma own_no_locations: "GetCachedStorageLocations own_env h ks False w = (Ok NewMap, w)"
  by (simp add: GetCachedStorageLocations_def readStorageLocationsFromDB_def store_step_def own_env_simps
      NewStorageLocationMap_def NewMap_def)

lemma own_location:
  obtains s l where "NodeId_ToString plain_multibase (NewNodeId (0xed # replicate 32 5)) = Ok s"
    "\<And>ks. GetCachedStorageLocations own_env own_hash ks True plain_node = (Ok [(s, l)], plain_node)"
    "sl_parts l = [''http://a'']"
proof -
  let ?n = "NewNodeId (0xed # replicate 32 5)" and ?l = "NewStorageLocation StorageLocationTypeFull [''http://a''] 0"
  obtain s where s: "NodeId_ToString plain_multibase ?n = Ok s" using NodeId_ToString_total [OF plain_multibase_laws] by blast
  have pk: "PublicKey \<lparr>kp_Bytes = replicate 64 5\<rparr> = Ok (0xed # replicate 32 5)"
    by (subst PublicKey_usable [OF plain_usable_key]) simp_all
  have "usable_key plain_ed25519 \<lparr>kp_Bytes = replicate 64 5\<rparr>" by (rule plain_usable_key) simp
  then obtain sig where "ed25519_Sign plain_ed25519 (ExtractBytes \<lparr>kp_Bytes = replicate 64 5\<rparr>) (provide_list own_hash ?l) = Ok sig"
    by (rule sign_verify)
  with pk obtain msg where "PrepareProvideMessage plain_ed25519 \<lparr>kp_Bytes = replicate 64 5\<rparr> own_hash ?l = Ok msg"
    by (auto simp: PrepareProvideMessage_def Let_def)
  then have "GetCachedStorageLocations own_env own_hash ks True plain_node = (Ok [(s, SetProviderMessage ?l msg)], plain_node)" for ks
    using s by (simp add: GetCachedStorageLocations_def readStorageLocationsFromDB_def store_step_def own_env_simps
      getLocalStorageLocation_def NewStorageLocationMap_def NewMap_def id_ToString_def Map_Put_def)
  with s show thesis by (rule that) (simp add: SetProviderMessage_def NewStorageLocation_def)
qed

lemma own_download:
  "\<exists>st. DownloadBytesByHash own_env own_http 0 (\<lambda>_. (0, [])) own_hash plain_node = Some (Ok [1, 2], st, [''http://a''])"
proof -
  let ?n = "NewNodeId (0xed # replicate 32 5)"
  obtain s l where s: "NodeId_ToString plain_multibase ?n = Ok s" and l: "sl_parts l = [''http://a'']"
    and uris: "\<And>ks. GetCachedStorageLocations own_env own_hash ks True plain_node = (Ok [(s, l)], plain_node)"
    by (rule own_location) blast
  have dec: "DecodeNodeId plain_multibase s = Ok ?n"
    using NodeId_ToString_decode [OF plain_multibase_laws, of ?n] s by auto
  obtain c where code: "NodeId_HashCode [] ?n = Ok c"
    by (simp add: NodeId_HashCode_def NewNodeId_def go_slice_def)
  have "Mediator_SortNodesByScore own_env [?n] plain_node = (Ok ([?n], None), plain_node)"
    using code by (simp add: Mediator_SortNodesByScore_def store_step_def SortNodesByScore_def GetNodeScore_def
        NodeId_Equals_def own_env_simps plain_sorter_def)
  then obtain st where "Provider_Start own_env 0
      (NewStorageLocationProvider own_hash (Some [StorageLocationTypeFull, StorageLocationTypeFile]) [], plain_node) = (Ok (), st)"
    using uris dec by (simp add: Provider_Start_def NewStorageLocationProvider_def Map_Keys_def own_env_simps)
  from single_location_download [OF _ _ _ this, of ?n s l "''http://a''" own_http "[1, 2]"] show ?thesis
    using uris s l plain_sorter_laws plain_multibase_laws
    by (simp add: own_env_simps BytesURL_def go_index_def own_http_def)
qed

section \<open>Properties\<close>

text \<open>
  C27: a download makes at most 33 requests, whatever the nodes answer, and the bytes it returns
  are the body of the answer to the last one, with status 200.
\<close>
theorem download_bounded:
  assumes "DownloadBytesByHash env hc now sched hash w = Some (r, st, requests)"
  shows "length requests \<le> 33 \<and> (\<forall>body. r = Ok body \<longrightarrow>
    (\<exists>us url res. requests = us @ [url] \<and> hc_Do hc url us = Ok res \<and> hr_StatusCode res = 200 \<and> hr_Body res = Ok body))"
proof -
  let ?p = "NewStorageLocationProvider hash (Some [StorageLocationTypeFull, StorageLocationTypeFile]) []"
  obtain q st1 where start: "Provider_Start env now (?p, w) = (q, st1)" by (cases "Provider_Start env now (?p, w)")
  show ?thesis
  proof (cases q)
    case (Ok u)
    then have "download_loop env hc sched max_retries [] st1 = Some (r, st, requests)"
      using assms start by (simp add: DownloadBytesByHash_def)
    from download_loop_requests [OF this] show ?thesis by (simp add: max_retries_def)
  qed (use assms start in \<open>auto simp: DownloadBytesByHash_def\<close>)
qed

theorem download_bounded_witness:
  "\<exists>st. DownloadBytesByHash own_env own_http 0 (\<lambda>_. (0, [])) own_hash plain_node = Some (Ok [1, 2], st, [''http://a'']) \<and>
    length [''http://a''] \<le> 33"
  using own_download download_bounded [of own_env own_http 0 "\<lambda>_. (0, [])" own_hash plain_node "Ok [1, 2]" _ "[''http://a'']"] by blast

text \<open>
  C31: a call of \<open>Next\<close> comes back. If the goroutine of the provider runs and the store does not
  err, then \<open>Next\<close> has returned, with a location or an error, at the latest in the round after
  one that the goroutine makes more than the timeout after the call.
\<close>
theorem Next_returns:
  assumes "\<And>w e. fst (GetCachedStorageLocations env (lp_hash s) (lp_types s) False w) \<noteq> Err e"
    and "lp_polling s \<or> lp_isTimedOut s" "t \<in> set ticks" "now + lp_timeoutDuration s < t"
  shows "\<exists>r st. Next env now ticks (s, w) = Some (r, st)"
proof -
  have "next_loop env ticks (s\<lparr>lp_timeout := now + lp_timeoutDuration s\<rparr>, w) \<noteq> None"
    using assms by (intro next_loop_returns [where t = t]) simp_all
  then show ?thesis by (auto simp: Next_def)
qed

theorem Next_returns_witness:
  "\<exists>r st. Next own_env 0 [70 * 10 ^ 9] ((NewStorageLocationProvider own_hash None [])\<lparr>lp_polling := True\<rparr>, plain_node) = Some (r, st)"
  by (rule Next_returns [where t = "70 * 10 ^ 9"]) (simp_all add: own_no_locations NewStorageLocationProvider_def)

text \<open>
  An error of the store makes \<open>Next\<close> wait for ever. If no node is available and the goroutine
  meets an error before the timeout, it ends without noting a timeout: no matter how often and
  when its turn comes, the call does not return.
\<close>
lemma store_error_hangs_Next:
  assumes "lp_polling s" "\<not> lp_isTimedOut s" "lp_availableNodes s = []" "t \<le> now + lp_timeoutDuration s"
    and "fst (GetCachedStorageLocations env (lp_hash s) (lp_types s) False w) = Err e"
  shows "Next env now (t # ticks) (s, w) = None"
proof -
  let ?s = "s\<lparr>lp_timeout := now + lp_timeoutDuration s, lp_availableNodes := [], lp_isWaitingForUri := True\<rparr>"
  obtain w1 where "GetCachedStorageLocations env (lp_hash s) (lp_types s) False w = (Err e, w1)"
    using assms(5) by (cases "GetCachedStorageLocations env (lp_hash s) (lp_types s) False w") auto
  then have "poll_once env t (?s, w) = (Ok (), ?s\<lparr>lp_polling := False\<rparr>, w1)"
    using assms(1,4) by (simp add: poll_once_def)
  moreover have "next_loop env ticks (?s\<lparr>lp_polling := False\<rparr>, w1) = None"
    using assms(2,3) by (intro next_loop_hangs) simp_all
  ultimately show ?thesis
    using assms(2,3) by (simp add: Next_def next_loop.simps [of env "t # ticks"])
qed

text \<open>
  Every round of the goroutine offers all nodes for which the store has a location, those
  that have been tried already included; a node that was to be excluded is offered as well, as
  long as no hash request has been sent.
\<close>
lemma poll_offers_stored:
  assumes "sorter_laws (v_sorter env)" "lp_polling s" "t \<le> lp_timeout s"
    and "GetCachedStorageLocations env (lp_hash s) (lp_types s) False w = (Ok newUris, w1)"
    and "poll_once env t (s, w) = (Ok u, s', w')"
    and "k \<in> set (Map_Keys newUris)" "DecodeNodeId (v_mb env) k = Ok n"
  shows "n \<in> set (lp_availableNodes s') \<or> n \<in> set (lp_excludeNodes s) \<and> lp_requestSent s'"
proof -
  define sent where "sent = (lp_requestSent s \<or>
    length (lp_availableNodes s) = 0 \<and> length newUris < 2 \<and> \<not> lp_requestSent s)"
  obtain uris ns new where m: "fold (merge_uri (v_mb env) (lp_excludeNodes s) sent) newUris
      (lp_uris s, lp_availableNodes s, False) = (uris, ns, new)"
    by (cases "fold (merge_uri (v_mb env) (lp_excludeNodes s) sent) newUris (lp_uris s, lp_availableNodes s, False)")
  have "k \<in> fst ` set newUris" using assms(6) by (simp add: Map_Keys_def)
  then have offered: "n \<in> set (lp_excludeNodes s) \<and> sent \<or> n \<in> set ns"
    using merge_uris_offer [OF m] assms(7) by blast
  obtain w2 where "poll_once env t (s, w) = (let s = s\<lparr>lp_uris := uris, lp_availableNodes := ns, lp_requestSent := sent\<rparr> in
      if new then (case Mediator_SortNodesByScore env ns w2 of
          (Ok (ranked, err), w) \<Rightarrow> (Ok (), s\<lparr>lp_availableNodes := ranked\<rparr>, w) | (_, w) \<Rightarrow> (Panic, s, w))
      else (Ok (), s, w2))"
    using assms(2-4) m by (simp add: poll_once_def Let_def sent_def)
  then have "set (lp_availableNodes s') = set ns \<and> lp_requestSent s' = sent"
    using assms(5) Sort_permutes [OF assms(1), of ns w2]
    by (cases new) (auto simp: Let_def split: prod.splits outcome.splits)
  with offered show ?thesis by blast
qed



end
