(* ===== verification/Metadata_Service.thy ===== *)
theory Metadata_Service
  imports Media Storage_Provider
begin

text \<open>
  \<open>ParseMetadata\<close> and \<open>GetMetadataByCID\<close> of \<open>service/default/storage.go\<close>: the formats by the type of
  an identifier, over the download of its hash, with the cache. Lemmas: what is downloaded is not
  compared with the hash, and metadata is fetched once per hash.
\<close>

section \<open>The operations\<close>

datatype Metadata = MD_Media MediaMetadata | MD_WebApp WebAppMetadata | MD_Directory DirectoryMetadata

definition ErrUnsupportedMetaFormat :: go_error where
  "ErrUnsupportedMetaFormat = GoError ''unsupported metadata format'' []"

text \<open>\<open>msgpack.Unmarshal\<close> into a value: nil leaves the zero value, and what follows is not looked at.\<close>

definition unmarshal :: "meta_lib \<Rightarrow> 'm \<Rightarrow> ('m \<Rightarrow> bytes \<Rightarrow> ('m \<times> bytes) outcome) \<Rightarrow> bytes \<Rightarrow> 'm outcome" where
  "unmarshal ml zero d bs = obind (decode_or_nil ml (d zero) bs) (\<lambda>(x, _). Ok (case x of None \<Rightarrow> zero | Some m \<Rightarrow> m))"

definition ParseMetadata :: "meta_lib \<Rightarrow> ed25519_lib \<Rightarrow> (bytes \<Rightarrow> bytes) \<Rightarrow> bytes \<Rightarrow> CID \<Rightarrow> Metadata outcome" where
  "ParseMetadata ml ed blake3 bs cid =
     (if cid_Type cid = CIDTypeMetadataMedia \<or> cid_Type cid = CIDTypeBridge then
        obind (unmarshal ml NewEmptyMediaMetadata (MediaMetadata_DecodeMsgpack ml ed blake3) bs) (\<lambda>md. Ok (MD_Media md))
      else if cid_Type cid = CIDTypeMetadataWebapp then
        obind (unmarshal ml NewEmptyWebAppMetadata (WebApp_DecodeMsgpack ml) bs) (\<lambda>md. Ok (MD_WebApp md))
      else if cid_Type cid = CIDTypeDirectory then
        obind (unmarshal ml NewEmptyDirectoryMetadata (Directory_DecodeMsgpack ml) bs) (\<lambda>md. Ok (MD_Directory md))
      else Err ErrUnsupportedMetaFormat)"

type_synonym metadata_cache = "(string, Metadata) gomap"

text \<open>The state is the cache with the rest of the node; the requests of the download come last.\<close>

definition GetMetadataByCID ::
  "'s env \<Rightarrow> meta_lib \<Rightarrow> (bytes \<Rightarrow> bytes) \<Rightarrow> http_client \<Rightarrow> int \<Rightarrow> (nat \<Rightarrow> int \<times> int list) \<Rightarrow> CID \<Rightarrow>
   metadata_cache \<times> 's world \<Rightarrow> (Metadata outcome \<times> (metadata_cache \<times> 's world) \<times> string list) option" where
  "GetMetadataByCID env ml blake3 hc now sched cid st =
     (case st of (cache, w) \<Rightarrow>
      case Multihash_ToString (cid_Hash cid) of
        Err err \<Rightarrow> Some (Err err, st, [])
      | Panic \<Rightarrow> Some (Panic, st, [])
      | Ok hashStr \<Rightarrow>
          (case Map_Get cache hashStr of
             Some md \<Rightarrow> Some (Ok md, st, [])
           | None \<Rightarrow>
               (case DownloadBytesByHash env hc now sched (cid_Hash cid) w of
                  None \<Rightarrow> None
                | Some (Err err, (_, w), requests) \<Rightarrow> Some (Err err, (cache, w), requests)
                | Some (Panic, (_, w), requests) \<Rightarrow> Some (Panic, (cache, w), requests)
                | Some (Ok bs, (_, w), requests) \<Rightarrow>
                    (case ParseMetadata ml (v_ed env) blake3 bs cid of
                       Ok md \<Rightarrow> Some (Ok md, (Map_Put cache hashStr md, w), requests)
                     | Err err \<Rightarrow> Some (Err err, (cache, w), requests)
                     | Panic \<Rightarrow> Some (Panic, (cache, w), requests)))))"

section \<open>Downloads do not look at the content\<close>

text \<open>The same web, with every body changed by \<open>f\<close>.\<close>

definition map_body :: "(bytes \<Rightarrow> bytes) \<Rightarrow> http_client \<Rightarrow> http_client" where
  "map_body f hc = hc\<lparr>hc_Do := \<lambda>url requests. map_outcome (\<lambda>res. res\<lparr>hr_Body := map_outcome f (hr_Body res)\<rparr>) (hc_Do hc url requests)\<rparr>"

lemma try_location_map_body:
  "try_location env (map_body f hc) final uri st = apfst (map_outcome (map_option f)) (try_location env hc final uri st)"
proof -
  obtain w requests where st: "st = (w, requests)" by (cases st)
  show ?thesis
  proof (cases "BytesURL (ssl_location uri)")
    case (Ok url)
    have parse: "hc_ParseRequest (map_body f hc) = hc_ParseRequest hc" by (simp add: map_body_def)
    have ans: "hc_Do (map_body f hc) url requests =
        map_outcome (\<lambda>res. res\<lparr>hr_Body := map_outcome f (hr_Body res)\<rparr>) (hc_Do hc url requests)"
      by (simp add: map_body_def)
    show ?thesis
    proof (cases "hc_Do hc url requests")
      case res: (Ok res)
      show ?thesis
        by (cases "hr_Body res"; cases "Provider_Downvote env uri w"; cases "fst (Provider_Downvote env uri w)")
          (auto simp: try_location_def st Ok parse ans res Let_def split: outcome.split)
    qed (cases "Provider_Downvote env uri w"; cases "fst (Provider_Downvote env uri w)";
      auto simp: try_location_def st Ok parse ans Let_def split: outcome.split)+
  qed (simp_all add: try_location_def st)
qed

lemma download_loop_map_body:
  "download_loop env (map_body f hc) sched n requests st =
     map_option (apfst (map_outcome f)) (download_loop env hc sched n requests st)"
proof (induction n arbitrary: requests st)
  case 0
  show ?case
    by (auto simp: try_location_map_body split: option.split outcome.split prod.split)
next
  case (Suc n)
  show ?case
    by (auto simp: try_location_map_body Suc.IH split: option.split outcome.split prod.split)
qed

lemma DownloadBytesByHash_map_body:
  "DownloadBytesByHash env (map_body f hc) now sched hash w =
     map_option (apfst (map_outcome f)) (DownloadBytesByHash env hc now sched hash w)"
  by (auto simp: DownloadBytesByHash_def download_loop_map_body Let_def split: outcome.split prod.split)

section \<open>Fetching and caching\<close>

lemma GetMetadataByCID_cached:
  assumes "Multihash_ToString (cid_Hash cid) = Ok hashStr" "Map_Get cache hashStr = Some md"
  shows "GetMetadataByCID env ml blake3 hc now sched cid (cache, w) = Some (Ok md, (cache, w), [])"
  using assms by (simp add: GetMetadataByCID_def)

lemma GetMetadataByCID_fills:
  assumes "GetMetadataByCID env ml blake3 hc now sched cid (cache, w) = Some (Ok md, (cache', w'), requests)"
  shows "\<exists>hashStr. Multihash_ToString (cid_Hash cid) = Ok hashStr \<and> Map_Get cache' hashStr = Some md"
  using assms
  by (auto simp: GetMetadataByCID_def split: outcome.splits option.splits prod.splits)

lemma unmarshal_webapp:
  assumes "meta_laws ml" "webapp_ok wm"
  shows "unmarshal ml NewEmptyWebAppMetadata (WebApp_DecodeMsgpack ml) (webapp_bytes ml mb wm) = Ok (as_read wm)"
proof -
  have "\<not> ml_IsNil ml (webapp_bytes ml mb wm @ [])"
    using meta_int_not_nil [OF assms(1)] by (simp add: webapp_encoded(2) [OF assms(2)] webapp_prefix_def InitMarshaller_def)
  then show ?thesis
    using webapp_decoded [OF assms, of mb "[]"] by (simp add: unmarshal_def decode_or_nil_def)
qed

text \<open>
  A published web app is read. If a node serves what the encoder wrote for a web app without
  extension data, fetching an identifier of type web app with its hash yields the web app with its
  paths in order, and enters it into the cache.
\<close>
lemma GetMetadataByCID_webapp:
  assumes "meta_laws ml" "webapp_ok wm" "WebApp_EncodeMsgpack ml mb wm = Ok (bs, wm')"
    and "cid_Type cid = CIDTypeMetadataWebapp" "Multihash_ToString (cid_Hash cid) = Ok hashStr" "Map_Get cache hashStr = None"
    and "DownloadBytesByHash env hc now sched (cid_Hash cid) w = Some (Ok bs, (s, w'), requests)"
  shows "GetMetadataByCID env ml blake3 hc now sched cid (cache, w) =
    Some (Ok (MD_WebApp (as_read wm)), (Map_Put cache hashStr (MD_WebApp (as_read wm)), w'), requests)"
proof -
  have "bs = webapp_bytes ml mb wm" using assms(3) webapp_encoded(1) [OF assms(2)] by simp
  then have "ParseMetadata ml (v_ed env) blake3 bs cid = Ok (MD_WebApp (as_read wm))"
    using assms(4) unmarshal_webapp [OF assms(1,2)] by (simp add: ParseMetadata_def go_consts)
  then show ?thesis using assms(5-7) by (simp add: GetMetadataByCID_def)
qed

section \<open>A sample web\<close>

text \<open>The node of the sample provider, in a web that answers every request with the sample web app.\<close>

definition app_http :: http_client where
  "app_http = map_body (\<lambda>_. webapp_bytes wide_meta plain_multibase sample_app) own_http"

definition app_cid :: CID where "app_cid = NewCID CIDTypeMetadataWebapp own_hash 0"

lemma app_download:
  "\<exists>s w'. DownloadBytesByHash own_env app_http 0 (\<lambda>_. (0, [])) own_hash plain_node =
     Some (Ok (webapp_bytes wide_meta plain_multibase sample_app), (s, w'), [''http://a''])"
proof -
  obtain s w' where "DownloadBytesByHash own_env own_http 0 (\<lambda>_. (0, [])) own_hash plain_node = Some (Ok [1, 2], (s, w'), [''http://a''])"
    using own_download by auto
  then have "DownloadBytesByHash own_env app_http 0 (\<lambda>_. (0, [])) own_hash plain_node =
     Some (Ok (webapp_bytes wide_meta plain_multibase sample_app), (s, w'), [''http://a''])"
    unfolding app_http_def by (simp only: DownloadBytesByHash_map_body option.map apfst_conv outcome.map)
  then show ?thesis by blast
qed

lemma app_fetched:
  obtains hashStr w' where "Multihash_ToString own_hash = Ok hashStr"
    "GetMetadataByCID own_env wide_meta (\<lambda>_. []) app_http 0 (\<lambda>_. (0, [])) app_cid ([], plain_node) =
      Some (Ok (MD_WebApp (as_read sample_app)), (Map_Put [] hashStr (MD_WebApp (as_read sample_app)), w'), [''http://a''])"
proof -
  obtain hashStr where h: "Multihash_ToString own_hash = Ok hashStr"
    using Multihash_ToString_total [of own_hash] by (auto simp: own_hash_def NewMultihash_def)
  moreover obtain s w' where d: "DownloadBytesByHash own_env app_http 0 (\<lambda>_. (0, [])) (cid_Hash app_cid) plain_node =
     Some (Ok (webapp_bytes wide_meta plain_multibase sample_app), (s, w'), [''http://a''])"
    using app_download by (auto simp: app_cid_def NewCID_def)
  have "GetMetadataByCID own_env wide_meta (\<lambda>_. []) app_http 0 (\<lambda>_. (0, [])) app_cid ([], plain_node) =
      Some (Ok (MD_WebApp (as_read sample_app)), (Map_Put [] hashStr (MD_WebApp (as_read sample_app)), w'), [''http://a''])"
    using h by (intro GetMetadataByCID_webapp [OF wide_meta_laws sample_app_ok webapp_encoded(1) [OF sample_app_ok] _ _ _ d])
      (simp_all add: app_cid_def NewCID_def Map_Get_def)
  with h show thesis by (rule that)
qed

section \<open>Properties\<close>

text \<open>
  C29: what is downloaded is not compared with the hash that was asked for. If every body the web
  answers with is changed by any function, the download makes the same requests, ends in the
  same state and returns the changed body.
\<close>
theorem download_content_unchecked:
  "DownloadBytesByHash env (map_body f hc) now sched hash w =
     map_option (apfst (map_outcome f)) (DownloadBytesByHash env hc now sched hash w)"
  by (rule DownloadBytesByHash_map_body)


text \<open>
  C30: metadata is fetched once per hash. After a call that returned metadata, every call for an
  identifier with the same hash, whatever its type, returns the same metadata with no request and
  no change of state.
\<close>
theorem metadata_fetched_once:
  assumes "GetMetadataByCID env ml blake3 hc now sched cid (cache, w) = Some (Ok md, (cache', w'), requests)"
    and "cid_Hash cid' = cid_Hash cid"
  shows "GetMetadataByCID env ml blake3 hc' now' sched' cid' (cache', w'') = Some (Ok md, (cache', w''), [])"
  using GetMetadataByCID_fills [OF assms(1)] assms(2) by (auto intro: GetMetadataByCID_cached)

theorem metadata_fetched_once_witness:
  "\<exists>cache w'. GetMetadataByCID own_env wide_meta (\<lambda>_. []) app_http 0 (\<lambda>_. (0, [])) app_cid ([], plain_node) =
      Some (Ok (MD_WebApp (as_read sample_app)), (cache, w'), [''http://a'']) \<and>
    GetMetadataByCID own_env wide_meta (\<lambda>_. []) own_http 5 (\<lambda>_. (5, [])) (NewCID CIDTypeMetadataMedia own_hash 0) (cache, w') =
      Some (Ok (MD_WebApp (as_read sample_app)), (cache, w'), [])"
proof -
  obtain hashStr w' where f: "GetMetadataByCID own_env wide_meta (\<lambda>_. []) app_http 0 (\<lambda>_. (0, [])) app_cid ([], plain_node) =
      Some (Ok (MD_WebApp (as_read sample_app)), (Map_Put [] hashStr (MD_WebApp (as_read sample_app)), w'), [''http://a''])"
    by (rule app_fetched)
  with metadata_fetched_once [OF f, of "NewCID CIDTypeMetadataMedia own_hash 0"] show ?thesis
    by (auto simp: app_cid_def NewCID_def)
qed

end
