(* ===== verification/Ws_Listen.thy ===== *)
theory Ws_Listen
  imports Prelude "HOL-Library.Multiset"
begin

text \<open>
  \<open>ListenForMessages\<close> of \<open>net/ws.go\<close>: one loop that reads the socket, one goroutine per message, a
  channel for ten errors and one that says that the loop has ended. The steps of all of them
  interleave. What the socket yields and what a callback returns is left open; a callback that
  panics ends the process and is not a step. Lemmas: an invariant of every interleaving, no
  deadlock, and a measure of what is left to do once the socket has failed.
\<close>

section \<open>State\<close>

text \<open>Where the loop is, in the order of the code.\<close>

datatype loop_pos = L_Read | L_Check | L_Close | L_Done | L_Wait | L_CloseChan | L_Drain | L_End

text \<open>A goroutine in its callback, or with the error it got, which it has to send.\<close>

datatype worker = W_Running bytes | W_Failed go_error

record listener_options =
  lo_OnClose :: bool
  lo_OnError :: bool

text \<open>
  \<open>li_reported\<close>, \<open>li_closes\<close>, \<open>li_failed\<close>, \<open>li_dropped\<close> and \<open>li_readErr\<close> are what has happened: the calls of
  \<open>OnError\<close>, the number of calls of \<open>OnClose\<close>, the errors that callbacks returned, those that were
  never sent, and the error of the socket.
\<close>

record listener =
  li_pos :: loop_pos
  li_workers :: "worker list"
  li_errChan :: "go_error list"
  li_done :: bool
  li_chanClosed :: bool
  li_panicked :: bool
  li_reported :: "go_error list"
  li_closes :: nat
  li_failed :: "go_error list"
  li_dropped :: "go_error list"
  li_readErr :: "go_error list"

definition errChan_size :: nat where "errChan_size = 10"

definition new_listener :: listener where
  "new_listener = \<lparr>li_pos = L_Read, li_workers = [], li_errChan = [], li_done = False, li_chanClosed = False,
     li_panicked = False, li_reported = [], li_closes = 0, li_failed = [], li_dropped = [], li_readErr = []\<rparr>"

definition report :: "listener_options \<Rightarrow> go_error \<Rightarrow> listener \<Rightarrow> listener" where
  "report opts e s = (if lo_OnError opts then s\<lparr>li_reported := li_reported s @ [e]\<rparr> else s)"

section \<open>Steps\<close>

text \<open>
  A goroutine with an error chooses between two cases that can both be ready: there is room in the
  channel, or the loop has ended. A send on a channel that has been closed panics.
\<close>

inductive listen_step :: "listener_options \<Rightarrow> listener \<Rightarrow> listener \<Rightarrow> bool" for opts where
  read_message: "li_pos s = L_Read \<Longrightarrow>
    listen_step opts s (s\<lparr>li_pos := L_Check, li_workers := li_workers s @ [W_Running m]\<rparr>)"
| read_error: "li_pos s = L_Read \<Longrightarrow>
    listen_step opts s ((report opts e s)\<lparr>li_pos := L_Close, li_readErr := [e]\<rparr>)"
| check_error: "li_pos s = L_Check \<Longrightarrow> li_errChan s = e # es \<Longrightarrow>
    listen_step opts s ((report opts e s)\<lparr>li_pos := L_Read, li_errChan := es\<rparr>)"
| check_none: "li_pos s = L_Check \<Longrightarrow> li_errChan s = [] \<Longrightarrow> listen_step opts s (s\<lparr>li_pos := L_Read\<rparr>)"
| callback_ok: "li_workers s = xs @ W_Running m # ys \<Longrightarrow> listen_step opts s (s\<lparr>li_workers := xs @ ys\<rparr>)"
| callback_error: "li_workers s = xs @ W_Running m # ys \<Longrightarrow>
    listen_step opts s (s\<lparr>li_workers := xs @ W_Failed e # ys, li_failed := li_failed s @ [e]\<rparr>)"
| send: "li_workers s = xs @ W_Failed e # ys \<Longrightarrow> \<not> li_chanClosed s \<Longrightarrow> length (li_errChan s) < errChan_size \<Longrightarrow>
    listen_step opts s (s\<lparr>li_workers := xs @ ys, li_errChan := li_errChan s @ [e]\<rparr>)"
| send_closed: "li_workers s = xs @ W_Failed e # ys \<Longrightarrow> li_chanClosed s \<Longrightarrow>
    listen_step opts s (s\<lparr>li_workers := xs @ ys, li_panicked := True\<rparr>)"
| stop_sending: "li_workers s = xs @ W_Failed e # ys \<Longrightarrow> li_done s \<Longrightarrow>
    listen_step opts s (s\<lparr>li_workers := xs @ ys, li_dropped := li_dropped s @ [e]\<rparr>)"
| on_close: "li_pos s = L_Close \<Longrightarrow>
    listen_step opts s (s\<lparr>li_pos := L_Done, li_closes := li_closes s + (if lo_OnClose opts then 1 else 0)\<rparr>)"
| close_done: "li_pos s = L_Done \<Longrightarrow> listen_step opts s (s\<lparr>li_pos := L_Wait, li_done := True\<rparr>)"
| wait_all: "li_pos s = L_Wait \<Longrightarrow> li_workers s = [] \<Longrightarrow> listen_step opts s (s\<lparr>li_pos := L_CloseChan\<rparr>)"
| close_chan: "li_pos s = L_CloseChan \<Longrightarrow> listen_step opts s (s\<lparr>li_pos := L_Drain, li_chanClosed := True\<rparr>)"
| drain_error: "li_pos s = L_Drain \<Longrightarrow> li_errChan s = e # es \<Longrightarrow>
    listen_step opts s ((report opts e s)\<lparr>li_errChan := es\<rparr>)"
| drain_end: "li_pos s = L_Drain \<Longrightarrow> li_errChan s = [] \<Longrightarrow> listen_step opts s (s\<lparr>li_pos := L_End\<rparr>)"

definition reachable :: "listener_options \<Rightarrow> listener \<Rightarrow> bool" where
  "reachable opts s \<longleftrightarrow> (listen_step opts)\<^sup>*\<^sup>* new_listener s"

section \<open>The invariant\<close>

primrec sending :: "worker list \<Rightarrow> go_error multiset" where
  "sending [] = {#}"
| "sending (x # xs) = (case x of W_Running _ \<Rightarrow> sending xs | W_Failed e \<Rightarrow> add_mset e (sending xs))"

lemma sending_append [simp]: "sending (xs @ ys) = sending xs + sending ys"
  by (induction xs) (auto split: worker.split)

text \<open>No error is lost: what callbacks and the socket returned is reported, in the channel, about to be sent, or dropped.\<close>

definition accounted :: "listener \<Rightarrow> bool" where
  "accounted s \<longleftrightarrow> mset (li_failed s) + mset (li_readErr s) =
     mset (li_reported s) + mset (li_errChan s) + sending (li_workers s) + mset (li_dropped s)"

definition ended :: "listener \<Rightarrow> bool" where
  "ended s \<longleftrightarrow> li_pos s \<in> {L_Wait, L_CloseChan, L_Drain, L_End}"

definition listen_inv :: "listener_options \<Rightarrow> listener \<Rightarrow> bool" where
  "listen_inv opts s \<longleftrightarrow> length (li_errChan s) \<le> errChan_size \<and> \<not> li_panicked s \<and>
     li_done s = ended s \<and> li_chanClosed s = (li_pos s \<in> {L_Drain, L_End}) \<and>
     (li_pos s \<in> {L_CloseChan, L_Drain, L_End} \<longrightarrow> li_workers s = []) \<and> (li_pos s = L_End \<longrightarrow> li_errChan s = []) \<and>
     li_closes s = (if lo_OnClose opts \<and> (li_pos s = L_Done \<or> ended s) then 1 else 0) \<and>
     (li_readErr s \<noteq> []) = (li_pos s \<notin> {L_Read, L_Check}) \<and> (lo_OnError opts \<longrightarrow> accounted s)"

lemma listen_inv_init: "listen_inv opts new_listener"
  by (simp add: listen_inv_def new_listener_def ended_def accounted_def)

lemma listen_inv_step:
  assumes "listen_inv opts s" "listen_step opts s t"
  shows "listen_inv opts t"
  using assms(2,1)
  by (cases rule: listen_step.cases)
    (auto simp: listen_inv_def ended_def accounted_def report_def errChan_size_def ac_simps)

lemma listen_inv_steps: "(listen_step opts)\<^sup>*\<^sup>* s t \<Longrightarrow> listen_inv opts s \<Longrightarrow> listen_inv opts t"
  by (induction rule: rtranclp_induct) (auto intro: listen_inv_step)

lemma reachable_inv: "reachable opts s \<Longrightarrow> listen_inv opts s"
  unfolding reachable_def by (rule listen_inv_steps [OF _ listen_inv_init])

section \<open>Progress\<close>

lemma listen_progress:
  assumes "listen_inv opts s" "li_pos s \<noteq> L_End"
  shows "\<exists>t. listen_step opts s t"
proof (cases "li_pos s")
  case L_Read
  then show ?thesis by (blast intro: read_message)
next
  case L_Check
  then show ?thesis by (cases "li_errChan s") (blast intro: check_error check_none)+
next
  case L_Wait
  show ?thesis
  proof (cases "li_workers s")
    case Nil
    with L_Wait show ?thesis by (blast intro: wait_all)
  next
    case (Cons x xs)
    have "li_done s" using assms(1) L_Wait by (simp add: listen_inv_def ended_def)
    with Cons show ?thesis
      using callback_ok [of s "[]" _ xs] stop_sending [of s "[]" _ xs] by (cases x) auto
  qed
next
  case L_Drain
  then show ?thesis by (cases "li_errChan s") (blast intro: drain_error drain_end)+
qed (use assms(2) in \<open>blast intro: on_close close_done close_chan\<close>)+

text \<open>What is left to do, once the socket has failed.\<close>

primrec worker_cost :: "worker \<Rightarrow> nat" where
  "worker_cost (W_Running m) = 3"
| "worker_cost (W_Failed e) = 2"

primrec pos_cost :: "loop_pos \<Rightarrow> nat" where
  "pos_cost L_Read = 0" | "pos_cost L_Check = 0" | "pos_cost L_Close = 5" | "pos_cost L_Done = 4"
| "pos_cost L_Wait = 3" | "pos_cost L_CloseChan = 2" | "pos_cost L_Drain = 1" | "pos_cost L_End = 0"

definition left_to_do :: "listener \<Rightarrow> nat" where
  "left_to_do s = sum_list (map worker_cost (li_workers s)) + length (li_errChan s) + pos_cost (li_pos s)"

lemma listen_step_decreases:
  assumes "listen_step opts s t" "li_pos s \<notin> {L_Read, L_Check}"
  shows "left_to_do t < left_to_do s \<and> li_pos t \<notin> {L_Read, L_Check}"
  using assms by (cases rule: listen_step.cases) (auto simp: left_to_do_def report_def)

lemma listen_bounded:
  assumes "(listen_step opts ^^ n) s t" "li_pos s \<notin> {L_Read, L_Check}"
  shows "n + left_to_do t \<le> left_to_do s \<and> li_pos t \<notin> {L_Read, L_Check}"
  using assms(1)
proof (induction n arbitrary: t)
  case (Suc n)
  then obtain u where u: "(listen_step opts ^^ n) s u" "listen_step opts u t" by auto
  with Suc.IH [OF u(1)] listen_step_decreases [OF u(2)] show ?case by auto
qed (use assms(2) in simp)

section \<open>Properties\<close>

text \<open>
  C19: the listener of a connection is sound in every interleaving of its loop and its goroutines.
  The channel of errors never holds more than ten, no goroutine sends on it after it was
  closed, and \<open>OnClose\<close> is called at most once. When the loop has ended, no goroutine is left,
  \<open>OnClose\<close> has been called, and every error of a callback or the socket was reported or
  dropped by a goroutine that saw the end.
\<close>
theorem listener_sound:
  assumes "reachable opts s" "lo_OnClose opts" "lo_OnError opts"
  shows "length (li_errChan s) \<le> 10 \<and> \<not> li_panicked s \<and> li_closes s \<le> 1 \<and>
    (li_pos s = L_End \<longrightarrow> li_workers s = [] \<and> li_closes s = 1 \<and>
      mset (li_failed s) + mset (li_readErr s) = mset (li_reported s) + mset (li_dropped s))"
  using reachable_inv [OF assms(1)] assms(2,3)
  by (auto simp: listen_inv_def errChan_size_def accounted_def ended_def)

text \<open>A run for the witnesses: one message, whose callback fails, after the socket has failed.\<close>

definition ended_listener :: listener where
  "ended_listener = \<lparr>li_pos = L_End, li_workers = [], li_errChan = [], li_done = True, li_chanClosed = True,
     li_panicked = False, li_reported = [LibError ''EOF''], li_closes = 1, li_failed = [LibError ''callback''],
     li_dropped = [LibError ''callback''], li_readErr = [LibError ''EOF'']\<rparr>"

definition both_options :: listener_options where
  "both_options = \<lparr>lo_OnClose = True, lo_OnError = True\<rparr>"

text \<open>The callback is still running when \<open>OnClose\<close> has been called.\<close>

definition closing_listener :: listener where
  "closing_listener = new_listener\<lparr>li_pos := L_Done, li_workers := [W_Running [1]], li_closes := 1,
     li_reported := [LibError ''EOF''], li_readErr := [LibError ''EOF'']\<rparr>"

lemma closing_reachable: "reachable both_options closing_listener"
proof -
  let ?o = both_options
  let ?a = "new_listener\<lparr>li_pos := L_Check, li_workers := [W_Running [1]]\<rparr>"
  let ?b = "?a\<lparr>li_pos := L_Read\<rparr>"
  let ?c = "?b\<lparr>li_reported := [LibError ''EOF''], li_pos := L_Close, li_readErr := [LibError ''EOF'']\<rparr>"
  have "listen_step ?o new_listener ?a" using read_message [of new_listener ?o "[1]"] by (simp add: new_listener_def)
  moreover have "listen_step ?o ?a ?b" using check_none [of ?a ?o] by (simp add: new_listener_def)
  moreover have "listen_step ?o ?b ?c" using read_error [of ?b ?o "LibError ''EOF''"]
    by (simp add: new_listener_def report_def both_options_def)
  moreover have "listen_step ?o ?c closing_listener" using on_close [of ?c ?o]
    by (simp add: new_listener_def closing_listener_def both_options_def)
  ultimately show ?thesis unfolding reachable_def by (meson converse_rtranclp_into_rtranclp rtranclp.rtrancl_refl)
qed

lemma ended_reachable: "reachable both_options ended_listener"
proof -
  let ?o = both_options and ?e = "LibError ''callback''"
  let ?a = "closing_listener\<lparr>li_pos := L_Wait, li_done := True\<rparr>"
  let ?b = "?a\<lparr>li_workers := [W_Failed ?e], li_failed := [?e]\<rparr>"
  let ?c = "?b\<lparr>li_workers := [], li_dropped := [?e]\<rparr>"
  let ?d = "?c\<lparr>li_pos := L_CloseChan\<rparr>"
  let ?f = "?d\<lparr>li_pos := L_Drain, li_chanClosed := True\<rparr>"
  have "listen_step ?o closing_listener ?a" using close_done [of closing_listener ?o] by (simp add: closing_listener_def)
  moreover have "listen_step ?o ?a ?b" using callback_error [of ?a "[]" "[1]" "[]" ?o ?e]
    by (simp add: closing_listener_def new_listener_def)
  moreover have "listen_step ?o ?b ?c" using stop_sending [of ?b "[]" ?e "[]" ?o]
    by (simp add: closing_listener_def new_listener_def)
  moreover have "listen_step ?o ?c ?d" using wait_all [of ?c ?o] by simp
  moreover have "listen_step ?o ?d ?f" using close_chan [of ?d ?o] by simp
  moreover have "listen_step ?o ?f ended_listener" using drain_end [of ?f ?o]
    by (simp add: closing_listener_def new_listener_def ended_listener_def)
  ultimately have "(listen_step ?o)\<^sup>*\<^sup>* closing_listener ended_listener"
    by (meson converse_rtranclp_into_rtranclp rtranclp.rtrancl_refl)
  with closing_reachable show ?thesis unfolding reachable_def by (rule rtranclp_trans)
qed

theorem listener_sound_witness:
  "li_pos ended_listener = L_End \<and> li_closes ended_listener = 1 \<and>
    mset (li_failed ended_listener) + mset (li_readErr ended_listener) =
      mset (li_reported ended_listener) + mset (li_dropped ended_listener)"
  using listener_sound [OF ended_reachable] by (simp add: both_options_def) (simp add: ended_listener_def)

text \<open>
  C20: the listener ends. Once the socket has failed, every run of the loop and the goroutines
  that are left takes a bounded number of steps, in which each callback returns once, and it does
  not get stuck: it stops only when the loop has ended.
\<close>
theorem listener_ends:
  assumes "reachable opts s" "li_readErr s \<noteq> []"
  shows "(\<forall>n t. (listen_step opts ^^ n) s t \<longrightarrow> n \<le> left_to_do s) \<and>
    (\<forall>t. (listen_step opts)\<^sup>*\<^sup>* s t \<and> (\<nexists>u. listen_step opts t u) \<longrightarrow> li_pos t = L_End)"
proof -
  have inv: "listen_inv opts s" using assms(1) by (rule reachable_inv)
  then have pos: "li_pos s \<notin> {L_Read, L_Check}" using assms(2) unfolding listen_inv_def by blast
  then have "n \<le> left_to_do s" if "(listen_step opts ^^ n) s t" for n t
    using listen_bounded [OF that pos] by simp
  moreover have "li_pos t = L_End" if "(listen_step opts)\<^sup>*\<^sup>* s t" "\<nexists>u. listen_step opts t u" for t
    using listen_progress [OF listen_inv_steps [OF that(1) inv]] that(2) by blast
  ultimately show ?thesis by blast
qed

theorem listener_ends_witness:
  "left_to_do closing_listener = 7 \<and> (\<nexists>t. (listen_step both_options ^^ 8) closing_listener t) \<and>
    \<not> (\<exists>t. (listen_step both_options)\<^sup>*\<^sup>* closing_listener t \<and> li_pos t \<noteq> L_End \<and> (\<nexists>u. listen_step both_options t u))"
proof -
  have "li_readErr closing_listener \<noteq> []" by (simp add: closing_listener_def)
  from listener_ends [OF closing_reachable this] show ?thesis
    by (auto simp: left_to_do_def closing_listener_def new_listener_def)
qed

end
