(* ===== verification/Registry_Race.thy ===== *)
theory Registry_Race
  imports Registry_Service
begin

text \<open>
  \<open>Set\<close> of \<open>service/default/registry.go\<close> takes no lock between reading the stored entry and
  writing the new one, and every message is handled in a goroutine of its own. Here a call is two
  steps, and calls interleave. Lemmas: a call that is not interrupted is \<open>Registry_Set\<close>; whatever
  the interleaving only valid entries are stored; but a lower revision can replace a higher one.
\<close>

section \<open>The two steps of a call\<close>

text \<open>Up to the decision whether to store the entry.\<close>

definition Set_decide ::
  "'s env \<Rightarrow> SignedRegistryEntry \<Rightarrow> bool \<Rightarrow> peer_ref option \<Rightarrow> 's world \<Rightarrow> bool outcome \<times> 's world" where
  "Set_decide env sre trusted receivedFrom w =
     sbind (pure_step (Multihash_ToString (NewMultihash (sre_pk sre))) w) (\<lambda>_ w.
     sbind (pure_step (peer_id_string env receivedFrom w) w) (\<lambda>_ w.
     sbind (pure_step (if trusted then Ok () else check_entry (v_ed env) sre) w) (\<lambda>_ w.
     sbind (getFromDB env (sre_pk sre) w) (\<lambda>existing w.
       case existing of
         None \<Rightarrow> (Ok True, w)
       | Some old \<Rightarrow>
           (case receivedFrom of
              Some peer \<Rightarrow>
                if sre_revision old = sre_revision sre then (Ok False, w)
                else if sre_revision old > sre_revision sre
                  then sbind (SendMessage env peer (MarshalSignedRegistryEntry old) w) (\<lambda>_ w. (Ok False, w))
                else (Ok True, w)
            | None \<Rightarrow> if sre_revision old \<ge> sre_revision sre then (Err err_too_low, w) else (Ok True, w))))))"

lemma Registry_Set_steps:
  "Registry_Set env sre trusted rf w =
     sbind (Set_decide env sre trusted rf w) (\<lambda>store w. if store then store_entry env sre rf w else (Ok (), w))"
  by (auto simp: Registry_Set_def Set_decide_def sbind_pure_step sbind_def split: outcome.split option.split prod.split)

text \<open>Calls for entries that are not trusted, with those that have decided to store and have not stored.\<close>

type_synonym pending = "(SignedRegistryEntry \<times> peer_ref option) list"

inductive set_step :: "'s env \<Rightarrow> 's world \<times> pending \<Rightarrow> 's world \<times> pending \<Rightarrow> bool" for env where
  decide_store: "Set_decide env sre False rf w = (Ok True, w') \<Longrightarrow> set_step env (w, pend) (w', (sre, rf) # pend)"
| decide_done: "Set_decide env sre False rf w = (r, w') \<Longrightarrow> r \<noteq> Ok True \<Longrightarrow> set_step env (w, pend) (w', pend)"
| finish: "store_entry env sre rf w = (r, w') \<Longrightarrow> set_step env (w, xs @ (sre, rf) # ys) (w', xs @ ys)"

text \<open>The entries that wait to be stored have passed the checks.\<close>

definition pending_ok :: "ed25519_lib \<Rightarrow> pending \<Rightarrow> bool" where
  "pending_ok ed pend \<longleftrightarrow> (\<forall>(sre, rf) \<in> set pend. check_entry ed sre = Ok ())"

section \<open>What interleaving keeps and loses\<close>

text \<open>Two calls that both decide to store before either has stored.\<close>

lemma race_steps:
  assumes "Set_decide env lo False p w = (Ok True, w1)" "Set_decide env hi False q w1 = (Ok True, w2)"
    and "store_entry env hi q w2 = (r, w3)"
  shows "(set_step env)\<^sup>*\<^sup>* (w, []) (w3, [(lo, p)])"
    and "store_entry env lo p w3 = (r', w4) \<Longrightarrow> (set_step env)\<^sup>*\<^sup>* (w, []) (w4, [])"
proof -
  have "set_step env (w, []) (w1, [(lo, p)])" using assms(1) by (rule decide_store)
  moreover have "set_step env (w1, [(lo, p)]) (w2, [(hi, q), (lo, p)])" using assms(2) by (rule decide_store)
  moreover have "set_step env (w2, [(hi, q), (lo, p)]) (w3, [(lo, p)])"
    using finish [OF assms(3), of "[]" "[(lo, p)]"] by simp
  ultimately show steps: "(set_step env)\<^sup>*\<^sup>* (w, []) (w3, [(lo, p)])"
    by (meson rtranclp.rtrancl_refl rtranclp.rtrancl_into_rtrancl)
  show "(set_step env)\<^sup>*\<^sup>* (w, []) (w4, [])" if "store_entry env lo p w3 = (r', w4)"
    using finish [OF that, of "[]" "[]"] by (intro rtranclp.rtrancl_into_rtrancl [OF steps]) simp
qed

context kv_store
begin

lemma Set_decide_frame:
  assumes "v_registry env = kv" "inv (w_store w)" "Set_decide env sre False rf w = (r, w')"
  shows "inv (w_store w') \<and> contents (w_store w') = contents (w_store w) \<and>
    (r = Ok True \<longrightarrow> check_entry (v_ed env) sre = Ok ())"
proof -
  consider "w' = w" "r \<noteq> Ok True" | g w1 where "getFromDB env (sre_pk sre) w = (g, w1)" "w_store w' = w_store w1"
      "check_entry (v_ed env) sre = Ok ()"
    using assms(3) unfolding Set_decide_def sbind_pure_step
    by (cases "getFromDB env (sre_pk sre) w"; cases "fst (getFromDB env (sre_pk sre) w)")
      (auto simp: sbind_def split: outcome.splits option.splits if_splits prod.splits dest: SendMessage_store)
  then show ?thesis
  proof cases
    case (2 g w1)
    from getFromDB_result(1,2) [OF assms(1,2) 2(1)] 2 show ?thesis by simp
  qed (use assms(2) in simp)
qed

lemma set_step_inv:
  assumes "set_step env (w, pend) (w', pend')" "v_registry env = kv"
    and "inv (w_store w) \<and> registry_ok (v_ed env) (contents (w_store w)) \<and> pending_ok (v_ed env) pend"
  shows "inv (w_store w') \<and> registry_ok (v_ed env) (contents (w_store w')) \<and> pending_ok (v_ed env) pend'"
  using assms(1)
proof (cases rule: set_step.cases)
  case (finish sre rf r xs ys)
  from store_entry_effect [OF assms(2) _ finish(3)] finish assms(3) registry_ok_upd show ?thesis
    by (auto simp: pending_ok_def)
qed (use assms(3) Set_decide_frame [OF assms(2)] in \<open>auto simp: pending_ok_def\<close>)

lemma set_steps_inv:
  assumes "(set_step env)\<^sup>*\<^sup>* (w, pend) (w', pend')" "v_registry env = kv"
    and "inv (w_store w) \<and> registry_ok (v_ed env) (contents (w_store w)) \<and> pending_ok (v_ed env) pend"
  shows "inv (w_store w') \<and> registry_ok (v_ed env) (contents (w_store w')) \<and> pending_ok (v_ed env) pend'"
  using assms(1,3)
proof (induction rule: rtranclp_induct2)
  case (step v x v' x')
  from set_step_inv [OF step(2) assms(2) step(3) [OF step(4)]] show ?case .
qed

lemma late_store_wins:
  assumes "v_registry env = kv" "inv (w_store w)" "check_entry (v_ed env) sre = Ok ()" "store_entry env sre rf w = (Ok (), w')"
  shows "inv (w_store w') \<and> entry_in (contents (w_store w')) (sre_pk sre) = Ok (Some sre)"
  using store_entry_effect [OF assms(1,2,4)] entry_in_upd [OF check_entry_Ok(1) [OF assms(3)]] by simp

end

section \<open>A run that rolls back\<close>

definition plain_newer :: SignedRegistryEntry where
  "plain_newer = NewSignedRegistryEntry (0xed # replicate 32 7) 9 [2] (replicate 64 7)"

lemma plain_newer_check: "check_entry plain_ed25519 plain_newer = Ok ()"
  by (simp add: check_entry_def plain_newer_def NewSignedRegistryEntry_def HashTypeEd25519_def
      RegistryMaxDataSize_def VerifyRegistryEntry_def ed25519_Verify_def plain_ed25519_def
      replicate_add [symmetric] Let_def)

lemma plain_newer_key: "sre_pk plain_newer = sre_pk plain_sre" "sre_revision plain_sre < sre_revision plain_newer"
  by (simp_all add: plain_newer_def plain_sre_def NewSignedRegistryEntry_def)

lemma plain_decide:
  assumes "check_entry plain_ed25519 sre = Ok ()" "bbolt_inv (plain_bucket ''registry'') (w_store w)" "w_heap w = w_heap plain_node"
    "bbolt_contents (plain_bucket ''registry'') (w_store w) (sre_pk sre) = None"
  obtains s where "Set_decide plain_env sre False (Some 1) w = (Ok True, w\<lparr>w_store := s\<rparr>)" "bbolt_inv (plain_bucket ''registry'') s"
    "bbolt_contents (plain_bucket ''registry'') s = bbolt_contents (plain_bucket ''registry'') (w_store w)"
proof -
  obtain key where key: "Multihash_ToString (NewMultihash (sre_pk sre)) = Ok key"
    using checked_key [OF assms(1)] by blast
  obtain pid where pid: "id_ToString plain_env (pe_id (w_heap plain_node 1)) = Ok pid"
    using plain_peer_id by blast
  have ed: "v_ed plain_env = plain_ed25519" by (simp add: plain_env_def)
  from assms(2,4) show thesis
  proof (rule plain_db_empty)
    fix s assume db: "getFromDB plain_env (sre_pk sre) w = (Ok None, w\<lparr>w_store := s\<rparr>)"
      and s: "bbolt_inv (plain_bucket ''registry'') s"
        "bbolt_contents (plain_bucket ''registry'') s = bbolt_contents (plain_bucket ''registry'') (w_store w)"
    have "Set_decide plain_env sre False (Some 1) w = (Ok True, w\<lparr>w_store := s\<rparr>)"
      using pid by (simp add: Set_decide_def key peer_id_string_def peer_Id_def assms(1,3) ed db)
    then show thesis using s by (rule that)
  qed
qed

lemma plain_race:
  obtains w1 w2 w3 w4 where
    "Set_decide plain_env plain_sre False (Some 1) plain_node = (Ok True, w1)"
    "Set_decide plain_env plain_newer False (Some 1) w1 = (Ok True, w2)"
    "store_entry plain_env plain_newer (Some 1) w2 = (Ok (), w3)" "store_entry plain_env plain_sre (Some 1) w3 = (Ok (), w4)"
proof -
  let ?b = "plain_bucket ''registry''"
  have none: "bbolt_contents ?b plain_world (sre_pk sre) = None" for sre by (rule plain_bucket_empty)
  obtain s1 where s1: "Set_decide plain_env plain_sre False (Some 1) plain_node = (Ok True, plain_node\<lparr>w_store := s1\<rparr>)"
    "bbolt_inv ?b s1" "bbolt_contents ?b s1 = bbolt_contents ?b plain_world"
    by (rule plain_decide [OF plain_sre_check, of plain_node])
      (simp_all only: plain_node_store plain_bucket_inv none)
  let ?w1 = "plain_node\<lparr>w_store := s1\<rparr>"
  obtain s2 where s2: "Set_decide plain_env plain_newer False (Some 1) ?w1 = (Ok True, ?w1\<lparr>w_store := s2\<rparr>)" "bbolt_inv ?b s2"
    by (rule plain_decide [OF plain_newer_check, of ?w1]) (simp_all add: s1(2,3) none)
  obtain w3 where w3: "store_entry plain_env plain_newer (Some 1) (?w1\<lparr>w_store := s2\<rparr>) = (Ok (), w3)"
    "bbolt_inv ?b (w_store w3)" "w_peers w3 = w_peers plain_node" "w_heap w3 = w_heap plain_node"
    using plain_store [OF plain_newer_check, of "?w1\<lparr>w_store := s2\<rparr>"] s2(2) by auto
  obtain w4 where "store_entry plain_env plain_sre (Some 1) w3 = (Ok (), w4)"
    using plain_store [OF plain_sre_check w3(2,4,3)] by blast
  with s1(1) s2(1) w3(1) show thesis by (rule that)
qed

section \<open>Properties\<close>

text \<open>
  C10: interleaved calls of \<open>Set\<close> only store valid entries. However calls for entries from the
  network interleave, from a bucket whose entries are all valid, every stored entry parses, is
  stored under its own key, obeys the bounds and verifies.
\<close>
theorem interleaved_Sets_stay_valid:
  assumes "v_registry env = Bbolt_methods b" "bbolt_inv b (w_store w)" "registry_ok (v_ed env) (bbolt_contents b (w_store w))"
    and "(set_step env)\<^sup>*\<^sup>* (w, []) (w', pend)"
  shows "bbolt_inv b (w_store w') \<and> registry_ok (v_ed env) (bbolt_contents b (w_store w'))"
  using bbolt.set_steps_inv [OF assms(4,1)] assms(2,3) by (simp add: pending_ok_def)

theorem interleaved_Sets_stay_valid_witness:
  "\<exists>w'. (set_step plain_env)\<^sup>*\<^sup>* (plain_node, []) (w', [(plain_sre, Some 1)]) \<and>
     registry_ok plain_ed25519 (bbolt_contents (plain_bucket ''registry'') (w_store w'))"
proof -
  obtain w1 w2 w3 w4 where "Set_decide plain_env plain_sre False (Some 1) plain_node = (Ok True, w1)"
    "Set_decide plain_env plain_newer False (Some 1) w1 = (Ok True, w2)"
    "store_entry plain_env plain_newer (Some 1) w2 = (Ok (), w3)"
    by (rule plain_race)
  from race_steps(1) [OF this] have steps: "(set_step plain_env)\<^sup>*\<^sup>* (plain_node, []) (w3, [(plain_sre, Some 1)])" .
  have "v_ed plain_env = plain_ed25519" by (simp add: plain_env_def)
  moreover have "registry_ok plain_ed25519 (bbolt_contents (plain_bucket ''registry'') (w_store plain_node))"
    by (simp add: registry_ok_def plain_node_store plain_bucket_empty)
  ultimately show ?thesis
    using interleaved_Sets_stay_valid [OF plain_env_registry _ _ steps] steps
    by (auto simp: plain_node_store plain_bucket_inv)
qed

text \<open>
  C11: interleaved calls of \<open>Set\<close> roll the registry back. If two calls for entries of the same key
  both decide to store before either has, and the one with the higher revision stores first, then
  when both have returned without an error the registry holds the lower revision, after it held
  the higher one.
\<close>
theorem interleaved_Sets_roll_back:
  assumes "v_registry env = Bbolt_methods b" "bbolt_inv b (w_store w)" "sre_pk lo = sre_pk hi" "sre_revision lo < sre_revision hi"
    and "Set_decide env lo False p w = (Ok True, w1)" "Set_decide env hi False q w1 = (Ok True, w2)"
    and "store_entry env hi q w2 = (Ok (), w3)" "store_entry env lo p w3 = (Ok (), w4)"
  shows "(set_step env)\<^sup>*\<^sup>* (w, []) (w3, [(lo, p)]) \<and> entry_in (bbolt_contents b (w_store w3)) (sre_pk hi) = Ok (Some hi) \<and>
    (set_step env)\<^sup>*\<^sup>* (w, []) (w4, []) \<and> entry_in (bbolt_contents b (w_store w4)) (sre_pk hi) = Ok (Some lo)"
proof -
  note steps = race_steps(1) [OF assms(5,6,7)] race_steps(2) [OF assms(5,6,7,8)]
  note d1 = bbolt.Set_decide_frame [OF assms(1,2,5)]
  note d2 = bbolt.Set_decide_frame [OF assms(1) conjunct1 [OF d1] assms(6)]
  have s3: "bbolt_inv b (w_store w3) \<and> entry_in (bbolt_contents b (w_store w3)) (sre_pk hi) = Ok (Some hi)"
    using bbolt.late_store_wins [OF assms(1) _ _ assms(7)] d2 by simp
  then have "entry_in (bbolt_contents b (w_store w4)) (sre_pk lo) = Ok (Some lo)"
    using bbolt.late_store_wins [OF assms(1) _ _ assms(8)] d1 by simp
  with s3 steps assms(3) show ?thesis by simp
qed

theorem interleaved_Sets_roll_back_witness:
  "\<exists>w3 w4. (set_step plain_env)\<^sup>*\<^sup>* (plain_node, []) (w3, [(plain_sre, Some 1)]) \<and>
     (set_step plain_env)\<^sup>*\<^sup>* (plain_node, []) (w4, []) \<and>
     entry_in (bbolt_contents (plain_bucket ''registry'') (w_store w3)) (sre_pk plain_newer) = Ok (Some plain_newer) \<and>
     entry_in (bbolt_contents (plain_bucket ''registry'') (w_store w4)) (sre_pk plain_newer) = Ok (Some plain_sre) \<and>
     sre_revision plain_sre < sre_revision plain_newer"
proof -
  obtain w1 w2 w3 w4 where run: "Set_decide plain_env plain_sre False (Some 1) plain_node = (Ok True, w1)"
    "Set_decide plain_env plain_newer False (Some 1) w1 = (Ok True, w2)"
    "store_entry plain_env plain_newer (Some 1) w2 = (Ok (), w3)" "store_entry plain_env plain_sre (Some 1) w3 = (Ok (), w4)"
    by (rule plain_race)
  have "bbolt_inv (plain_bucket ''registry'') (w_store plain_node)" by (simp add: plain_node_store plain_bucket_inv)
  from interleaved_Sets_roll_back [OF plain_env_registry this plain_newer_key(1) [symmetric] plain_newer_key(2) run] plain_newer_key(2)
  show ?thesis by (intro exI [of _ w3] exI [of _ w4]) simp
qed

end
