(* ===== verification/Json_Forms.thy ===== *)
theory Json_Forms
  imports Web_App
begin

text \<open>
  The JSON hooks that go through the \<open>json\<close> package: identifiers as strings (\<open>encoding/cid.go\<close>,
  \<open>encoding/encrypted_cid.go\<close>), keys (\<open>Base64UrlBinary\<close> of \<open>metadata/misc.go\<close>) and extension data
  (\<open>metadata/extra.go\<close>). Lemmas: identifiers are read back, keys never are, and extension data only
  if there is none.
\<close>

section \<open>Strings and byte slices\<close>

text \<open>
  What \<open>json.Marshal\<close> makes of a string: printable ASCII but quotes, backslashes and the characters
  of HTML stand for themselves; \<open>escape\<close> is what it writes for another character.
\<close>

definition json_safe :: "char \<Rightarrow> bool" where
  "json_safe c \<longleftrightarrow> (let n = of_char c :: nat in 32 \<le> n \<and> n < 128 \<and> n \<notin> {0x22, 0x5C, 0x3C, 0x3E, 0x26})"

definition json_string :: "(char \<Rightarrow> string) \<Rightarrow> string \<Rightarrow> bytes" where
  "json_string escape s =
     bytes_of_string ([CHR 0x22] @ concat (map (\<lambda>c. if json_safe c then [c] else escape c) s) @ [CHR 0x22])"

text \<open>A byte slice becomes a string in the standard base64 encoding, with padding.\<close>

definition std_char :: "nat \<Rightarrow> char" where
  "std_char n = (if n = 62 then CHR ''+'' else if n = 63 then CHR ''/'' else b64_char n)"

definition base64std_EncodeToString :: "bytes \<Rightarrow> string" where
  "base64std_EncodeToString bs = map std_char (b64_sextets bs) @ replicate ((3 - length bs mod 3) mod 3) (CHR ''='')"

definition json_bytes :: "(char \<Rightarrow> string) \<Rightarrow> bytes \<Rightarrow> bytes" where
  "json_bytes escape bs = json_string escape (base64std_EncodeToString bs)"

section \<open>The hooks\<close>

definition CID_MarshalJSON :: "(char \<Rightarrow> string) \<Rightarrow> multibase_lib \<Rightarrow> CID \<Rightarrow> bytes outcome" where
  "CID_MarshalJSON escape mb cid =
     obind (multibase_ToBase64Url mb (ToBytes cid)) (\<lambda>url. Ok (json_string escape url))"

definition EncryptedCID_MarshalJSON :: "(char \<Rightarrow> string) \<Rightarrow> multibase_lib \<Rightarrow> EncryptedCID \<Rightarrow> bytes outcome" where
  "EncryptedCID_MarshalJSON escape mb c =
     obind (EncryptedCID_ToString mb c) (\<lambda>s. Ok (json_string escape s))"

definition Base64UrlBinary_MarshalJSON :: "(char \<Rightarrow> string) \<Rightarrow> bytes \<Rightarrow> bytes" where
  "Base64UrlBinary_MarshalJSON escape b = json_bytes escape (bytes_of_string (base64url_EncodeToString b))"

text \<open>\<open>null\<close> leaves the value as it is.\<close>

definition Base64UrlBinary_UnmarshalJSON :: "bytes \<Rightarrow> bytes \<Rightarrow> bytes outcome" where
  "Base64UrlBinary_UnmarshalJSON b data =
     (let strData = strip_quotes (string_of_bytes data) in
      if strData = ''null'' then Ok b else base64url_DecodeString strData)"

text \<open>\<open>marshal\<close> is what the \<open>json\<close> package makes of the object.\<close>

definition ExtraMetadata_MarshalJSON ::
  "((string, extra_value) gomap \<Rightarrow> bytes outcome) \<Rightarrow> meta_lib \<Rightarrow> multibase_lib \<Rightarrow> ExtraMetadata \<Rightarrow> bytes outcome" where
  "ExtraMetadata_MarshalJSON marshal ml mb em = obind (extra_encode ml mb em) marshal"

section \<open>Facts\<close>

lemma json_string_safe:
  assumes "\<forall>c \<in> set s. json_safe c"
  shows "strip_quotes (string_of_bytes (json_string escape s)) = s"
proof -
  have "concat (map (\<lambda>c. if json_safe c then [c] else escape c) s) = s"
    using assms by (induction s) simp_all
  then show ?thesis by (simp add: json_string_def strip_quotes_def nth_append)
qed

lemma plus_slash [simp]: "b64_value (CHR ''+'') = None" "b64_value (CHR ''/'') = None" "b64_value (CHR ''='') = None"
    "json_safe (CHR ''+'')" "json_safe (CHR ''/'')" "json_safe (CHR ''='')"
    "\<not> is_newline (CHR ''+'')" "\<not> is_newline (CHR ''/'')" "\<not> is_newline (CHR ''='')"
  by (simp_all add: b64_value_def json_safe_def is_newline_def)

lemma b64_char_safe: "n < 64 \<Longrightarrow> json_safe (b64_char n)"
  by (erule b64_char_cases) (simp_all add: json_safe_def of_char_of Let_def)

lemma std_char_facts:
  assumes "n < 64"
  shows "json_safe (std_char n)" "\<not> is_newline (std_char n)" "b64_value (std_char n) = Some v \<Longrightarrow> v = n"
  using b64_char_safe [OF assms] b64_char_no_newline [OF assms] b64_value_char [OF assms]
  by (simp_all add: std_char_def split: if_splits)

lemma those_Some: "those xs = Some ys \<Longrightarrow> xs = map Some ys"
  by (induction xs arbitrary: ys) (auto split: option.splits)

text \<open>Reading the standard encoding as the other one fails, or yields the bytes that were encoded.\<close>

lemma std_read_as_url:
  assumes "base64url_DecodeString (base64std_EncodeToString bs) = Ok bs'"
  shows "bs' = bs"
proof -
  let ?pad = "replicate ((3 - length bs mod 3) mod 3) (CHR ''='')"
  let ?s = "map std_char (b64_sextets bs) @ ?pad"
  have "filter (\<lambda>c. \<not> is_newline c) ?s = ?s"
    by (rule filter_True) (auto simp: std_char_facts sextets_lt)
  with assms obtain vs where vs: "those (map b64_value ?s) = Some vs" "b64_quanta vs = Ok bs'"
    by (auto simp: base64url_DecodeString_def base64std_EncodeToString_def split: option.splits)
  have all: "map b64_value ?s = map Some vs" using those_Some [OF vs(1)] .
  have "None \<notin> set (map b64_value ?s)" unfolding all by auto
  moreover have "None \<in> set (map b64_value ?s)" if "k \<noteq> 0" "?pad = replicate k (CHR ''='')" for k
    unfolding that(2) using that(1) by simp
  ultimately have "?pad = []" by fastforce
  with all have "map b64_value (map std_char (b64_sextets bs)) = map Some vs" by simp
  moreover have "map b64_value (map std_char ns) = map Some vs \<Longrightarrow> \<forall>n \<in> set ns. n < 64 \<Longrightarrow> vs = ns" for ns vs
  proof (induction ns arbitrary: vs)
    case (Cons n ns)
    then show ?case by (cases vs) (auto dest: std_char_facts(3))
  qed simp
  ultimately have "vs = b64_sextets bs" using sextets_lt by blast
  with vs(2) show ?thesis by (simp add: quanta_sextets)
qed

lemma length_base64url: "length bs < length (base64url_EncodeToString bs) \<or> bs = []"
  by (induction bs rule: base64url_EncodeToString.induct) (auto simp: Let_def)


lemma MultibaseDecode_ToBase:
  assumes "multibase_laws mb" "multibase_prefix name = Some p" "ToBase mb data name = Ok s"
  shows "MultibaseDecodeString mb s = Ok data \<and> s \<noteq> ''null''"
proof -
  obtain r where r: "s = p # r" "mb_Decode mb s = Ok (mb_EncoderByName mb name, data)"
    by (rule ToBase_Ok [OF assms(1,2), of data]) (use assms(3) in simp)
  have "p \<in> {CHR ''z'', CHR ''f'', CHR ''u'', CHR ''b''}"
    using assms(2) by (auto simp: multibase_prefix_def split: if_splits)
  with r show ?thesis by (auto simp: MultibaseDecodeString_def)
qed

lemma Unmarshal_json_string:
  assumes "multibase_laws mb" "multibase_prefix name = Some p" "ToBase mb data name = Ok s" "\<forall>c \<in> set s. json_safe c"
  shows "UnmarshalBase64UrlJSON mb (json_string escape s) = Ok data"
  using MultibaseDecode_ToBase [OF assms(1-3)] json_string_safe [OF assms(4)]
  by (simp add: UnmarshalBase64UrlJSON_def)

text \<open>Identifiers, if their texts consist of characters that need no escape, as those of all bases do.\<close>

lemma CID_json_roundtrip:
  assumes "multibase_laws mb" "valid_cid c" "\<forall>s. ToBase64Url mb (ToBytes c) = Ok s \<longrightarrow> (\<forall>x \<in> set s. json_safe x)"
  shows "\<exists>j. CID_MarshalJSON escape mb c = Ok j \<and> CID_UnmarshalJSON mb spare j = Ok c"
proof -
  have p: "multibase_prefix ''base64url'' = Some CHR ''u''" by (simp add: multibase_prefix_def)
  obtain s where s: "ToBase mb (ToBytes c) ''base64url'' = Ok (CHR ''u'' # s)" using ToBase_Ok [OF assms(1) p] by metis
  from Unmarshal_json_string [OF assms(1) p this] assms(2,3) s cid.dec_enc [of c spare] show ?thesis
    by (simp add: CID_MarshalJSON_def multibase_ToBase64Url_def ToBase64Url_def CID_UnmarshalJSON_def CIDFromBytes_def)
qed

lemma EncryptedCID_json_roundtrip:
  assumes "multibase_laws mb" "valid_ecid c"
    and "\<forall>s. ToBase58BTC mb (EncryptedCID_ToBytes c) = Ok s \<longrightarrow> (\<forall>x \<in> set s. json_safe x)"
  shows "\<exists>j. EncryptedCID_MarshalJSON escape mb c = Ok j \<and> EncryptedCID_UnmarshalJSON mb spare j = Ok c"
proof -
  have p: "multibase_prefix ''base58btc'' = Some CHR ''z''" by (simp add: multibase_prefix_def)
  obtain s where s: "ToBase mb (EncryptedCID_ToBytes c) ''base58btc'' = Ok (CHR ''z'' # s)"
    using ToBase_Ok [OF assms(1) p] by metis
  from Unmarshal_json_string [OF assms(1) p this] assms(2,3) s EncryptedCIDFromBytes_ToBytes [of c spare] show ?thesis
    by (simp add: EncryptedCID_MarshalJSON_def EncryptedCID_ToString_def multibase_ToString_def multibase_ToBase58_def
        ToBase58BTC_def EncryptedCID_UnmarshalJSON_def)
qed

text \<open>
  A key that is written is never read back, except the empty one: it is encoded twice and decoded
  once. \<open>b0\<close> is the value that is read into.
\<close>

lemma Base64UrlBinary_no_roundtrip:
  assumes "b \<noteq> []" "b0 \<noteq> b"
  shows "Base64UrlBinary_UnmarshalJSON b0 (Base64UrlBinary_MarshalJSON escape b) \<noteq> Ok b"
proof
  let ?t = "bytes_of_string (base64url_EncodeToString b)"
  assume *: "Base64UrlBinary_UnmarshalJSON b0 (Base64UrlBinary_MarshalJSON escape b) = Ok b"
  have "\<forall>c \<in> set (base64std_EncodeToString ?t). json_safe c"
    by (auto simp: base64std_EncodeToString_def std_char_facts sextets_lt)
  from json_string_safe [OF this, of escape] * assms(2) have "base64url_DecodeString (base64std_EncodeToString ?t) = Ok b"
    by (simp add: Base64UrlBinary_UnmarshalJSON_def Base64UrlBinary_MarshalJSON_def json_bytes_def Let_def split: if_splits)
  from std_read_as_url [OF this] have "b = ?t" .
  then have "length b = length (base64url_EncodeToString b)" by (metis length_map bytes_of_string_def)
  with length_base64url [of b] assms(1) show False by simp
qed

text \<open>Extension data is only read from an object without entries: a key is an \<open>int\<close>, which the decoder of items does not know.\<close>

lemma extra_json_empty_only:
  assumes "ExtraMetadata_UnmarshalJSON ml json data = Ok em"
  shows "json data = Ok [] \<and> em = \<lparr>em_Data = NewMap\<rparr>"
proof -
  have stuck: "fold (\<lambda>(name :: int, val) em. obind em (decodeItem ml Key_other val)) kvs r \<noteq> Ok em" if "\<forall>x. r \<noteq> Ok x" for kvs r
    using that by (induction kvs arbitrary: r) (auto simp: obind_eq_Ok)
  obtain kvs where kvs: "json data = Ok kvs"
    "fold (\<lambda>(name, val) em. obind em (decodeItem ml Key_other val)) kvs (Ok \<lparr>em_Data = NewMap\<rparr>) = Ok em"
    using assms by (auto simp: ExtraMetadata_UnmarshalJSON_def obind_eq_Ok)
  show ?thesis
  proof (cases kvs)
    case (Cons kv kvs')
    with kvs(2) stuck [of "Err (GoError ''unsupported key type'' [])" kvs'] show ?thesis by (cases kv) (simp add: decodeItem_def)
  qed (use kvs in simp)
qed

end
