(* ===== verification/Spec2Isabelle.thy ===== *)
theory Spec2Isabelle
  imports Conn_Tracker Metadata_Service Ws_Listen Registry_Race Json_Forms CID Registry_Entry Etcd_Store
begin

text \<open>
  libs5-go is the library for nodes of the S5 network: content-addressed storage with a registry
  of signed, mutable entries, over authenticated connections between peers. This is a model of
  its Go code and the theorems that make it correct, or show where it is not.

  \<^bold>\<open>The program.\<close> A node (\<open>node/\<close>) holds four services (\<open>service/default/\<close>): p2p (dialling, incoming
  connections, the handshake, the peer table, votes on nodes), registry (signed entries by public
  key), storage (who has a file, downloads, metadata) and http (the routes under which other
  nodes connect). Each keeps its state in buckets of a key-value store (\<open>db/\<close>, with bbolt and etcd
  behind one interface and an LRU cache) and in maps (\<open>structs/\<close>). What arrives on a connection
  (\<open>net/\<close>) is handed to the message types of \<open>protocol/\<close>, which call back into the services
  through a mediator. Underneath are identifiers, hashes and keys (\<open>encoding/\<close>, \<open>ed25519/\<close>,
  \<open>internal/bases/\<close>), locations of files (\<open>storage/\<close>) and the formats of metadata (\<open>metadata/\<close>,
  \<open>serialize/\<close>).

  \<^bold>\<open>How it is modelled.\<close> A Go function is a HOL function with the same branches. Its result is an
  \<open>outcome\<close>: \<open>Ok\<close>, \<open>Err\<close> with the error, or \<open>Panic\<close> for a run-time panic (a failed type assertion, an
  index out of range, a nil call), which ends the process. Functions with effects take the state
  and return it with the outcome. Integers that wrap are words or are cut explicitly; slicing
  follows Go's capacity rule, with the bytes behind a slice as a parameter (\<open>spare\<close>). Maps are
  association lists (\<open>gomap\<close>), iterated in their order; Go leaves the order open, so no lemma about
  an iteration should be read as one about its order. Locks are not modelled: an operation of a
  service runs to its end (what calls of \<open>Set\<close> or \<open>AddStorageLocation\<close> that overlap do is shown in
  \<open>Registry_Race\<close> and \<open>Storage_Service\<close>), but where the code sleeps (\<open>Registry_Get\<close>, the retries of
  \<open>ConnectToNode\<close>, \<open>Next\<close>) what others do meanwhile is a parameter (\<open>v_others\<close>, the ticks of \<open>Next\<close>), and
  the goroutines of a connection are interleaved step by step (\<open>Ws_Listen\<close>).

  \<^bold>\<open>The theories\<close>, in the order of their imports:
  \<^item> \<open>Prelude\<close>: bytes, \<open>outcome\<close> and its composition, slices, contracts of encoders (\<open>byte_codec\<close>).
    \<open>Endian\<close>: \<open>utils/endian.go\<close>, \<open>utils/bytes.go\<close>. \<open>Go_Types\<close>: the constants of \<open>types/\<close>.
  \<^item> \<open>Base_Codecs\<close>: the base64url and the multibase encodings (\<open>internal/bases\<close>). \<open>Multihash\<close>:
    \<open>encoding/multihash.go\<close>, \<open>encoding/nodeid.go\<close>, \<open>ed25519/ed25519.go\<close>. \<open>CID\<close>: \<open>encoding/cid.go\<close>,
    \<open>encrypted_cid.go\<close>, \<open>multibase.go\<close>, \<open>encoding.go\<close>. Lemmas: round trips of the byte, text, JSON and
    registry forms; every outcome of the parsers.
  \<^item> \<open>Registry_Entry\<close>: \<open>protocol/registry.go\<close>. Lemmas: the wire form is read back and printed back;
    what is signed verifies; a signature determines revision and data.
  \<^item> \<open>KV_Store\<close>, \<open>Bbolt_Store\<close>, \<open>Etcd_Store\<close>: \<open>db/\<close>. The locale \<open>kv_store\<close> is the contract of a store
    (what is read after a write), \<open>byte_cache\<close> that of a cache; both stores and the LRU cache are
    interpretations, and the lemmas of the services are proved once, in the locale.
  \<^item> \<open>Msgpack_Lib\<close>, \<open>Structs\<close>: the interface of the msgpack package, \<open>structs/\<close>. \<open>Storage_Location\<close>:
    \<open>storage/location.go\<close>, \<open>storage.go\<close>, \<open>p2p.go\<close> and the parser of announcements. \<open>Node_Votes\<close>:
    \<open>service/vote.go\<close>, scores and sorting by score.
  \<^item> \<open>Node_World\<close>: the state of a node. The record \<open>env\<close> holds what does not change (libraries,
    configuration, random choices), \<open>world\<close> what does: the store, the heap of peers, the peer
    table and the blocklists, the log of what was written to connections, subscriptions, dials and
    goroutines that were started.
  \<^item> \<open>Wire_Messages\<close>: every message of \<open>protocol/\<close> with its encoder and decoder. \<open>P2P_Service\<close>:
    \<open>service/default/p2p.go\<close>. \<open>Registry_Service\<close>: \<open>service/default/registry.go\<close>, calls that run to their
    end. \<open>Registry_Race\<close>: calls of \<open>Set\<close> that overlap, as a step relation. \<open>Storage_Service\<close>:
    the locations of \<open>service/default/storage.go\<close>. \<open>Message_Handlers\<close>: the \<open>HandleMessage\<close> methods and
    their dispatch.
  \<^item> \<open>Handler_Frames\<close>: which parts of the state the handlers leave alone, as the locale
    \<open>bystander\<close>. \<open>Node_Protocol\<close>: the handshake, who gets into the peer table, queries and
    announcements. \<open>Http_Service\<close>: \<open>service/default/http.go\<close>. \<open>Node_Life\<close>: \<open>node/\<close>. \<open>Node_Run\<close>: the runs of
    a node as a step relation over events (connections, messages, goroutines, closes), with an
    invariant of every reachable state. \<open>Conn_Tracker\<close>: the wait group that counts the connections,
    and connections of the same identity.
  \<^item> \<open>Storage_Provider\<close>: \<open>storage/provider/provider.go\<close> and downloads. \<open>Meta_Lib\<close>, \<open>Web_App\<close>, \<open>Directory\<close>,
    \<open>Media\<close>: the metadata formats over the contract \<open>stream_codec\<close> of decoders that read from a
    stream. \<open>Metadata_Service\<close>: metadata by identifier, with its cache. \<open>Json_Forms\<close>: the JSON hooks that
    go through the \<open>json\<close> package.
  \<^item> \<open>Ws_Listen\<close>: the read loop of \<open>net/ws.go\<close> and its goroutines as a step relation.
  \<^item> This theory: what spans the components, from a signed identifier to its lookup on another
    node, and from a provided file to its download.

  \<^bold>\<open>Bounds.\<close> The number of dials of \<open>ConnectToNode\<close> is bounded by the attempts that are left, which is also its
  termination measure. \<open>Registry_Get\<close> polls 200 times, as the code does. A download tries 33
  locations (the first and 32 retries), so its loop is primitive recursive. \<open>Next\<close> waits for the
  goroutine of the provider; its fuel is the list of times at which that goroutine runs, and
  \<open>Next_returns\<close> shows that any list with one time after the timeout is enough. The measure
  \<open>left_to_do\<close> bounds the steps of a read loop once the socket has failed.

  \<^bold>\<open>Parameters.\<close> The msgpack encoder and decoder, multibase, ed25519, blake3, the engines of bbolt, etcd and
  the LRU cache, the sorter, the HTTP client, sockets and the parser of URLs are not code of this
  repository. They are arguments of the definitions; what the code relies on are the named laws
  \<open>msgpack_laws\<close>, \<open>meta_laws\<close>, \<open>multibase_laws\<close>, \<open>usable_key\<close>, \<open>bbolt_laws\<close>, \<open>lru_laws\<close>, \<open>locmap_laws\<close> and
  \<open>sorter_laws\<close>, each met by a concrete instance (\<open>wide_msgpack\<close>, \<open>wide_meta\<close>, \<open>plain_multibase\<close>,
  \<open>plain_ed25519\<close> and so on) on which the witnesses are computed.

  \<^bold>\<open>Not modelled.\<close> Logging; the configuration record (its fields are in \<open>env\<close>); getters, which
  are reads of a record field; the user identity formats, which have no operations; the JSON
  forms that the \<open>json\<close> package makes by reflection (they are parameters of the hooks); the generic
  branches of \<open>utils/array.go\<close> that nothing calls; data races on fields that the code reads without a lock.
\<close>

section \<open>A published identifier\<close>

text \<open>An identifier that is signed with a usable key makes an entry that every node takes.\<close>

lemma signed_cid_entry:
  assumes "usable_key ed kp" "valid_cid c" "SignRegistryEntry ed kp (ToRegistryEntry c) revision = Ok sre"
  shows "wire_entry sre \<and> sre_data sre = ToRegistryEntry c \<and> sre_revision sre = revision \<and> PublicKey kp = Ok (sre_pk sre)"
proof -
  obtain sre' where "SignRegistryEntry ed kp (ToRegistryEntry c) revision = Ok sre'"
    "sre_revision sre' = revision" "sre_data sre' = ToRegistryEntry c" "sre_pk sre' = 0xed # drop 32 (kp_Bytes kp)"
    "length (sre_signature sre') = 64" using assms(1) by (rule Sign_Verify)
  moreover have "length (ToRegistryEntry c) < 256"
    using length_ToRegistryEntry [OF assms(2)] by simp
  moreover have "length (kp_Bytes kp) = 64" using assms(1) by (simp add: usable_key_def)
  ultimately show ?thesis using PublicKey_usable [OF assms(1)] assms(3) by (auto simp: wire_entry_def)
qed

lemma signed_cid_checked:
  assumes "usable_key ed kp" "valid_cid c" "SignRegistryEntry ed kp (ToRegistryEntry c) revision = Ok sre"
    and "revision \<le> 281474976710656"
  shows "check_entry ed sre = Ok ()"
proof -
  obtain sre' where "SignRegistryEntry ed kp (ToRegistryEntry c) revision = Ok sre'" "VerifyRegistryEntry ed sre' = Ok True"
    "sre_revision sre' = revision" "sre_data sre' = ToRegistryEntry c" "sre_pk sre' = 0xed # drop 32 (kp_Bytes kp)"
    using assms(1) by (rule Sign_Verify)
  moreover have "length (kp_Bytes kp) = 64" using assms(1) by (simp add: usable_key_def)
  ultimately show ?thesis using assms(3,4) length_ToRegistryEntry [OF assms(2)]
    by (auto simp: check_entry_def RegistryMaxDataSize_def HashTypeEd25519_def not_less word_le_nat_alt)
qed

section \<open>Samples for the witnesses\<close>

definition owner_cid :: CID where "owner_cid = NewCID CIDTypeRaw (NewMultihash (0x1f # replicate 32 1)) 300"

definition providing_env :: "plain_store env" where
  "providing_env = plain_env\<lparr>v_providerStore := Some \<lparr>ps_CanProvide = \<lambda>_ _. True,
     ps_Provide = \<lambda>_ _. Ok (NewStorageLocation StorageLocationTypeFull [''http://a''] 2000)\<rparr>\<rparr>"

section \<open>Properties across components\<close>

text \<open>
  C1: a published identifier resolves. If an owner signs an identifier with a usable key and the
  entry reaches a node over an authenticated connection, where it is handled without an error
  and is newer than what is stored, then after any further run of the registry service a lookup of the
  owner's key on that node answers with a verified entry of the owner: this one, which reads as
  the identifier, or one of a higher revision.
\<close>
theorem published_cid_resolves:
  assumes "msgpack_laws (v_mp env)" "multibase_laws (v_mb env)"
    and "usable_key (v_ed env) kp" "valid_cid c" "SignRegistryEntry (v_ed env) kp (ToRegistryEntry c) revision = Ok sre"
    and "v_registry env = Bbolt_methods b" "bbolt_inv b (w_store w)" "registry_ok (v_ed env) (bbolt_contents b (w_store w))"
    and "\<forall>old. entry_in (bbolt_contents b (w_store w)) (sre_pk sre) = Ok (Some old) \<longrightarrow> sre_revision old < revision"
    and "pe_handshaked (w_heap w p)" "peer_Id w p = Some i"
    and "OnMessage env p v (MarshalSignedRegistryEntry sre) w = (Ok (), w1)"
    and "registry_run env w1 w2" "\<forall>x. registry_run env x (v_others env x)"
    and "Registry_Get env (sre_pk sre) w2 = (Ok res, w3)"
  shows "PublicKey kp = Ok (sre_pk sre) \<and> (\<exists>e. res = Some e \<and> VerifyRegistryEntry (v_ed env) e = Ok True \<and> sre_pk e = sre_pk sre \<and>
    (if sre_revision e = revision then CIDFromRegistry spare (sre_data e) = Ok c else revision < sre_revision e))"
proof -
  have sre: "wire_entry sre" "sre_data sre = ToRegistryEntry c" "sre_revision sre = revision" "PublicKey kp = Ok (sre_pk sre)"
    using signed_cid_entry [OF assms(3,4,5)] by blast+
  have "Registry_Set env sre False (Some p) w = (Ok (), w1)"
    using broadcast_entry_is_set [OF assms(1,2) sre(1) assms(10,11), of v] assms(12) by simp
  from bbolt.Set_then_Get [OF assms(6,7,8,14) this _ assms(13,15)] assms(9) obtain e where
    "res = Some e" "e = sre \<or> revision < sre_revision e" "check_entry (v_ed env) e = Ok ()" "sre_pk e = sre_pk sre"
    unfolding sre(3) by blast
  then show ?thesis using check_entry_Ok(2) CIDFromRegistry_entry [OF assms(4)] sre by auto
qed

theorem published_cid_resolves_witness:
  "\<exists>sre w1 e w3. SignRegistryEntry plain_ed25519 \<lparr>kp_Bytes = replicate 64 5\<rparr> (ToRegistryEntry owner_cid) 7 = Ok sre \<and>
    OnMessage plain_env 1 False (MarshalSignedRegistryEntry sre) plain_node = (Ok (), w1) \<and>
    Registry_Get plain_env (sre_pk sre) w1 = (Ok (Some e), w3) \<and>
    (sre_revision e = 7 \<longrightarrow> CIDFromRegistry [] (sre_data e) = Ok owner_cid)"
proof -
  let ?kp = "\<lparr>kp_Bytes = replicate 64 5\<rparr>" and ?b = "plain_bucket ''registry''"
  have env: "v_mp plain_env = wide_msgpack" "v_mb plain_env = plain_multibase" "v_ed plain_env = plain_ed25519"
    "v_others plain_env = (\<lambda>w. w)" by (simp_all add: plain_env_def)
  have kp: "usable_key plain_ed25519 ?kp" by (rule plain_usable_key) simp
  have cid: "valid_cid owner_cid"
    by (simp add: owner_cid_def valid_cid_def NewCID_def NewMultihash_def CIDTypeMap_def go_consts)
  obtain sre where sre: "SignRegistryEntry plain_ed25519 ?kp (ToRegistryEntry owner_cid) 7 = Ok sre"
    using kp by (rule Sign_Verify)
  have chk: "check_entry plain_ed25519 sre = Ok ()" by (rule signed_cid_checked [OF kp cid sre]) simp
  have peer: "pe_handshaked (w_heap plain_node 1)" "peer_Id plain_node 1 = Some (0, plain_id)"
    by (simp_all add: plain_node_def plain_peer_def peer_Id_def)
  obtain w1 where w1: "Registry_Set plain_env sre False (Some 1) plain_node = (Ok (), w1)" "bbolt_inv ?b (w_store w1)"
    "w_peers w1 = w_peers plain_node" "w_subs w1 = w_subs plain_node"
    "bbolt_contents ?b (w_store w1) (sre_pk sre) = Some (MarshalSignedRegistryEntry sre)"
    by (rule plain_Set [OF chk, of plain_node]) (simp_all add: plain_node_store plain_bucket_inv plain_bucket_empty)
  have msg: "OnMessage plain_env 1 False (MarshalSignedRegistryEntry sre) plain_node = (Ok (), w1)"
    using broadcast_entry_is_set [OF _ _ check_entry_Ok(1) [OF chk] peer, of plain_env] w1(1)
    by (simp add: env wide_msgpack_laws plain_multibase_laws)
  obtain w3 where get: "Registry_Get plain_env (sre_pk sre) w1 = (Ok (Some sre), w3)" using plain_Get [OF chk w1(2-5)] .
  have "CIDFromRegistry [] (sre_data sre) = Ok owner_cid" if "sre_revision sre = 7"
    using published_cid_resolves [of plain_env ?kp owner_cid 7 sre ?b plain_node 1 "(0, plain_id)" False w1 w1 "Some sre" w3 "[]"]
      kp cid sre peer msg get that
    by (simp add: env wide_msgpack_laws plain_multibase_laws plain_env_registry plain_node_store plain_bucket_inv plain_bucket_empty
        registry_ok_def entry_in_def)
  with sre msg get show ?thesis by blast
qed

text \<open>
  C2: a file that a node provides is downloaded by a node that asks for it. If the provider of
  one node has a location for a hash and no other location is known, it answers a query for the
  hash with an announcement; a node that gets it over an authenticated connection, handles it without an
  error and knew no location before, downloads the file with one request, to the announced address, whatever
  the schedule of the provider's goroutine, if that address answers with status 200.
\<close>
theorem provided_file_downloaded:
  fixes orig :: bytes and q :: peer_ref
  assumes A: "usable_key (v_ed A) (v_KeyPair A)" "v_providerStore A = Some store"
      "ps_CanProvide store (hq_hash h) (hq_kinds h)"
      "ps_Provide store (hq_hash h) (hq_kinds h) = Ok (NewStorageLocation kind (url # urls) expiry)"
      "fst (GetCachedStorageLocations A (hq_hash h) (hq_kinds h) False wA) = Ok []"
    and sizes: "length (fullBytes (hq_hash h)) = 33" "kind = StorageLocationTypeFull \<or> kind = StorageLocationTypeFile"
      "length (url # urls) < 256" "\<forall>p \<in> set (url # urls). length p < 65536" "v_now B \<le> expiry" "0 \<le> expiry" "expiry < 2 ^ 32"
    and B: "msgpack_laws (v_mp B)" "multibase_laws (v_mb B)" "sorter_laws (v_sorter B)" "v_ed B = v_ed A"
      "locmap_laws (v_locmap_enc B) (v_locmap_dec B)" "v_cache B = Bbolt_methods b" "bbolt_inv b (w_store wB)"
      "bbolt_contents b (w_store wB) (fullBytes (hq_hash h)) = None" "v_providerStore B = None" "pe_handshaked (w_heap wB p)"
  defines "msg \<equiv> snd (sent (snd (HashQuery_HandleMessage A h orig q wA)) ! length (sent wA))"
  assumes node: "PublicKey (v_KeyPair A) = Ok pk" "NodeId_ToString (v_mb B) (NewNodeId pk) = Ok s"
      "loc_ok (add_location NewStorageLocationMap s (NewStorageLocation kind (url # urls) expiry) msg)"
    and recv: "OnMessage B p v msg wB = (Ok (), w1)"
    and start: "Provider_Start B now (NewStorageLocationProvider (hq_hash h)
      (Some [StorageLocationTypeFull, StorageLocationTypeFile]) [], w1) = (Ok (), st)"
    and web: "hc_ParseRequest hc url = Ok ()" "hc_Do hc url [] = Ok \<lparr>hr_StatusCode = 200, hr_Body = Ok body\<rparr>"
  shows "\<exists>rest st'. sent (snd (HashQuery_HandleMessage A h orig q wA)) = sent wA @ (q, msg) # rest \<and>
    DownloadBytesByHash B hc now sched (hq_hash h) w1 = Some (Ok body, st', [url])"
proof -
  let ?loc = "NewStorageLocation kind (url # urls) expiry"
  have bound: "0 \<le> kind" "kind < 256" using sizes(2) by (auto simp: go_consts)
  obtain m pk' where m: "PrepareProvideMessage (v_ed A) (v_KeyPair A) (hq_hash h) ?loc = Ok m" "PublicKey (v_KeyPair A) = Ok pk'"
    "\<And>spare. parse_storage_location (v_ed A) spare m = Ok (hq_hash h, NewNodeId pk', ?loc)"
    using announcement_read [OF A(1) sizes(1) bound sizes(3,4), of expiry] sizes(6,7) by auto
  obtain rest where rest: "sent (snd (HashQuery_HandleMessage A h orig q wA)) = sent wA @ (q, m) # rest"
    using HashQuery_provides [OF A(5,2,3,4) m(1)] by blast
  then have msg: "msg = m" by (simp add: msg_def)
  have pk: "pk' = pk" using m(2) node(1) by simp
  have parse: "parse_storage_location (v_ed B) (v_spare B msg) msg = Ok (hq_hash h, NewNodeId pk, ?loc)"
    using m(3) by (simp add: B(4) msg pk)
  obtain w0 where add: "AddStorageLocation B (hq_hash h) (NewNodeId pk) ?loc msg wB = (Ok (), w0)" "w_store w1 = w_store w0"
    using announcement_handled [OF B(1,10) m(1)] parse recv unfolding msg by blast
  let ?l = "SetProviderMessage ?loc msg"
  have get: "locs = [(s, ?l)]"
    if "GetCachedStorageLocations B (hq_hash h) [StorageLocationTypeFull, StorageLocationTypeFile] True w1 = (Ok locs, w')" for locs w'
    using bbolt.Add_first_location [OF B(6,7,5,8) node(3,2) add B(9) that] sizes(2,5) by (simp add: NewStorageLocation_def)
  have "BytesURL ?l = Ok url" by (simp add: BytesURL_def SetProviderMessage_def NewStorageLocation_def go_index_def)
  from single_location_download [OF B(3,2) node(2) start get this web, where sched = sched] show ?thesis
    using rest msg by auto
qed

theorem provided_file_downloaded_witness:
  "\<exists>msg w1 st'. (1, msg) \<in> set (sent (snd (HashQuery_HandleMessage providing_env (NewHashRequest own_hash [3]) [4] 1 plain_node))) \<and>
    OnMessage plain_env 1 False msg plain_node = (Ok (), w1) \<and>
    DownloadBytesByHash plain_env own_http 0 (\<lambda>_. (0, [])) own_hash w1 = Some (Ok [1, 2], st', [''http://a''])"
proof -
  let ?h = "NewHashRequest own_hash [3]" and ?loc = "NewStorageLocation StorageLocationTypeFull [''http://a''] 2000"
    and ?kp = "\<lparr>kp_Bytes = replicate 64 5\<rparr>" and ?n = "NewNodeId (0xed # replicate 32 5)"
  have A: "v_ed providing_env = plain_ed25519" "v_KeyPair providing_env = ?kp" by (simp_all add: providing_env_def plain_env_def)
  have B: "v_mp plain_env = wide_msgpack" "v_mb plain_env = plain_multibase" "v_sorter plain_env = plain_sorter" "v_ed plain_env = plain_ed25519"
    "v_locmap_enc plain_env = plain_locmap_enc" "v_locmap_dec plain_env = plain_locmap_dec"
    "v_cache plain_env = Bbolt_methods (plain_bucket ''cache'')" "v_providerStore plain_env = None" "v_now plain_env = 1000"
    "v_spare plain_env = (\<lambda>_. [])"
    by (simp_all add: plain_env_def)
  have h: "hq_hash ?h = own_hash" "length (fullBytes own_hash) = 33" by (simp_all add: NewHashRequest_def own_hash_def NewMultihash_def)
  have kp: "usable_key plain_ed25519 ?kp" by (rule plain_usable_key) simp
  have pk: "PublicKey ?kp = Ok (0xed # replicate 32 5)" by (subst PublicKey_usable [OF kp]) simp
  obtain s where s: "NodeId_ToString plain_multibase ?n = Ok s" "length s = 34"
    by (simp add: NodeId_ToString_def ToBase58BTC_def ToBase_def plain_multibase_def NewNodeId_def string_of_bytes_def)
  obtain m where m: "PrepareProvideMessage plain_ed25519 ?kp own_hash ?loc = Ok m" "length m < 2 ^ 32"
    "parse_storage_location plain_ed25519 [] m = Ok (own_hash, ?n, ?loc)"
  proof -
    obtain m where m: "PrepareProvideMessage plain_ed25519 ?kp own_hash ?loc = Ok m"
      "parse_storage_location plain_ed25519 [] m = Ok (own_hash, ?n, ?loc)"
      using announcement_read [OF kp h(2), of StorageLocationTypeFull "[''http://a'']" 2000] pk by (auto simp: go_consts)
    have "length m < 2 ^ 32" using m(1) pk
      by (auto simp: PrepareProvideMessage_def Let_def obind_eq_Ok provide_list_def h(2) NewStorageLocation_def ed25519_Sign_def
          ExtractBytes_def plain_ed25519_def split: if_splits)
    from that [OF m(1) this m(2)] show thesis .
  qed
  have small: "loc_ok (add_location NewStorageLocationMap s ?loc m)"
    using m(2) s(2) by (simp add: loc_ok_def loc_wf_def map_inv_def add_location_def NewStorageLocationMap_def NewMap_def
        Map_Put_def Map_Get_def node_ok_def details_ok_def NewStorageLocation_def int64_range_def go_consts Let_def)
  obtain w0 where w0: "AddStorageLocation plain_env own_hash ?n ?loc m plain_node = (Ok (), w0)" "w0 = plain_node\<lparr>w_store := w_store w0\<rparr>"
    "\<forall>w2 kinds. w_store w2 = w_store w0 \<longrightarrow>
      (\<exists>locs t. GetCachedStorageLocations plain_env own_hash kinds True w2 = (Ok locs, w2\<lparr>w_store := t\<rparr>))"
    by (rule plain_added_location [OF plain_node_store s(1) small, of own_hash])
  obtain hs where hs: "Multihash_ToString own_hash = Ok hs"
    using Multihash_ToString_total [of own_hash] by (auto simp: own_hash_def NewMultihash_def)
  obtain rest where rest: "m = 5 # rest" using m(1) by (rule provide_message_kind)
  have recv: "OnMessage plain_env 1 False m plain_node = (Ok (), w0)"
  proof -
    have "IncomingMessageReader_DecodeMsgpack wide_msgpack m = Ok \<lparr>imr_Kind = RecordTypeStorageLocation, imr_Data = rest\<rparr>"
      using msgpack_fixint [OF wide_msgpack_laws, of 5 rest] by (simp add: rest IncomingMessageReader_DecodeMsgpack_def go_consts)
    moreover have "GetMessageType RecordTypeStorageLocation = Some T_StorageLocation"
      by (simp add: GetMessageType_def messageTypes_def go_consts)
    moreover have "pe_handshaked (w_heap plain_node 1)" by (simp add: plain_node_def plain_peer_def)
    moreover have "w_hashQueryRoutingTable w0 = NewMap" by (subst w0(2)) (simp add: plain_node_def)
    ultimately show ?thesis
      using w0(1) m(3) hs by (simp add: OnMessage_def dispatch_to_def StorageLocation_HandleMessage_def B)
        (simp add: NewMap_def Map_Get_def NewSet_def Set_Values_def)
  qed
  let ?p = "NewStorageLocationProvider own_hash (Some [StorageLocationTypeFull, StorageLocationTypeFile]) []"
  obtain locs t where get: "GetCachedStorageLocations plain_env own_hash [StorageLocationTypeFull, StorageLocationTypeFile] True w0 =
      (Ok locs, w0\<lparr>w_store := t\<rparr>)" using w0(3) by blast
  have locs: "locs = [(s, SetProviderMessage ?loc m)]"
    using bbolt.Add_first_location [OF B(7) _ _ _ small _ w0(1) refl B(8) get] s(1)
    by (simp add: B plain_locmap_laws plain_node_store plain_bucket_inv plain_bucket_empty NewStorageLocation_def)
  have dec: "DecodeNodeId plain_multibase s = Ok ?n" using NodeId_ToString_decode [OF plain_multibase_laws, of ?n] s(1) by auto
  obtain c where code: "NodeId_HashCode [] ?n = Ok c" by (simp add: NodeId_HashCode_def NewNodeId_def go_slice_def)
  have self: "w_localNodeID (w0\<lparr>w_store := t\<rparr>) = Some (0, ?n)" by (subst w0(2)) (simp add: plain_node_def)
  have sort: "Mediator_SortNodesByScore plain_env [?n] (w0\<lparr>w_store := t\<rparr>) = (Ok ([?n], None), w0\<lparr>w_store := t\<rparr>)"
    using code self by (simp add: Mediator_SortNodesByScore_def store_step_def SortNodesByScore_def GetNodeScore_def
        NodeId_Equals_def B plain_sorter_def)
  have start: "\<exists>st. Provider_Start plain_env 0 (?p, w0) = (Ok (), st)"
    using get locs dec sort by (simp add: Provider_Start_def NewStorageLocationProvider_def Map_Keys_def B)
  have prov: "v_providerStore providing_env = Some \<lparr>ps_CanProvide = \<lambda>_ _. True,
      ps_Provide = \<lambda>_ _. Ok (NewStorageLocation StorageLocationTypeFull [''http://a''] 2000)\<rparr>"
    by (simp add: providing_env_def)
  have uncached: "fst (GetCachedStorageLocations providing_env (hq_hash ?h) (hq_kinds ?h) False plain_node) = Ok []"
  proof -
    have same: "v_cache providing_env = v_cache plain_env" "v_locmap_dec providing_env = v_locmap_dec plain_env"
      "v_now providing_env = v_now plain_env" by (simp_all add: providing_env_def)
    have "GetCachedStorageLocations providing_env hash ks False w = GetCachedStorageLocations plain_env hash ks False w" for hash ks w
      by (simp only: GetCachedStorageLocations_def readStorageLocationsFromDB_def same if_False)
    then show ?thesis using plain_no_locations [OF plain_node_store, of "hq_hash ?h" "hq_kinds ?h"] by (simp add: NewMap_def)
  qed
  have m1: "PrepareProvideMessage (v_ed providing_env) (v_KeyPair providing_env) (hq_hash ?h) ?loc = Ok m"
    by (simp only: A h m(1))
  obtain r where r: "sent (snd (HashQuery_HandleMessage providing_env ?h [4] 1 plain_node)) = sent plain_node @ (1, m) # r"
    using HashQuery_provides [OF uncached prov _ _ m1, of "[4]" 1] by auto
  then have msg: "snd (sent (snd (HashQuery_HandleMessage providing_env ?h [4] 1 plain_node)) ! length (sent plain_node)) = m" by simp
  obtain st where st: "Provider_Start plain_env 0 (?p, w0) = (Ok (), st)" using start by blast
  have hs1: "pe_handshaked (w_heap plain_node 1)" by (simp add: plain_node_def plain_peer_def)
  have "\<exists>rest st'. sent (snd (HashQuery_HandleMessage providing_env ?h [4] 1 plain_node)) = sent plain_node @ (1, m) # rest \<and>
      DownloadBytesByHash plain_env own_http 0 (\<lambda>_. (0, [])) (hq_hash ?h) w0 = Some (Ok [1, 2], st', [''http://a''])"
    using provided_file_downloaded [of providing_env _ ?h StorageLocationTypeFull "''http://a''" "[]" 2000 plain_node plain_env
        "plain_bucket ''cache''" plain_node 1 "0xed # replicate 32 5" s "[4]" 1 False w0 0 st own_http "[1, 2]" "\<lambda>_. (0, [])"]
    using prov uncached kp pk s small recv st m(2) hs1 unfolding msg A B h
    by (simp add: wide_msgpack_laws plain_multibase_laws plain_locmap_laws plain_sorter_laws plain_node_store plain_bucket_inv
        plain_bucket_empty own_http_def)
  with recv r show ?thesis by (auto simp: h)
qed

end
